theory Spec2Isabelle
  imports Main
begin

section \<open>The error model (errors.go)\<close>

text \<open>
  \<^verbatim>\<open>type ErrorCode int\<close> and \<^verbatim>\<open>type ErrorMessage string\<close>. The codes are only
  compared with constants, never computed with, so a Go \<^verbatim>\<open>int\<close> is an \<open>int\<close> here.
\<close>

type_synonym ErrorCode = int
type_synonym ErrorMessage = string

definition ErrorCodeOrderNotFound :: ErrorCode where "ErrorCodeOrderNotFound = 2"
definition ErrorCodePaymentNotFound :: ErrorCode where "ErrorCodePaymentNotFound = 12"
definition ErrorCodeValidationError :: ErrorCode where "ErrorCodeValidationError = 21"
definition ErrorCodeBadCredentials :: ErrorCode where "ErrorCodeBadCredentials = 27"
definition ErrorCodeTransferNotFound :: ErrorCode where "ErrorCodeTransferNotFound = 29"
definition ErrorCodeTokenNotFound :: ErrorCode where "ErrorCodeTokenNotFound = 31"

text \<open>\<^verbatim>\<open>type ErrorDetails struct { Code ErrorCode; Message ErrorMessage }\<close>\<close>

record ErrorDetails =
  Code :: ErrorCode
  Message :: ErrorMessage

text \<open>
  \<^verbatim>\<open>type Error struct { Error ErrorDetails }\<close>. The field is called \<open>Error\<close> in the
  source; it is \<open>Error'\<close> here, to keep it apart from the record's own name.
\<close>

record Error =
  Error' :: ErrorDetails

text \<open>
  \<^verbatim>\<open>type APIError struct { StatusCode int; Message string; Err *Error }\<close>. The pointer
  \<open>Err\<close> is an option: \<open>None\<close> is \<^verbatim>\<open>nil\<close>. The field \<open>Message\<close> is \<open>Message'\<close>
  here, the name being taken by \<open>ErrorDetails\<close>.
\<close>

record APIError =
  StatusCode :: int
  Message' :: string
  Err :: "Error option"

definition IsNotFound :: "APIError \<Rightarrow> bool" where
  "IsNotFound e =
     (case Err e of
        Some err \<Rightarrow>
          Code (Error' err) = ErrorCodePaymentNotFound \<or>
          Code (Error' err) = ErrorCodeOrderNotFound \<or>
          Code (Error' err) = ErrorCodeTransferNotFound \<or>
          Code (Error' err) = ErrorCodeTokenNotFound
      | None \<Rightarrow> StatusCode e = 404)"

definition IsValidationError :: "APIError \<Rightarrow> bool" where
  "IsValidationError e =
     (case Err e of
        Some err \<Rightarrow> Code (Error' err) = ErrorCodeValidationError
      | None \<Rightarrow> StatusCode e = 400)"

definition IsAuthenticationError :: "APIError \<Rightarrow> bool" where
  "IsAuthenticationError e =
     (case Err e of
        Some err \<Rightarrow> Code (Error' err) = ErrorCodeBadCredentials
      | None \<Rightarrow> StatusCode e = 401)"

section \<open>The request pipeline (client.go)\<close>

text \<open>
  \<^verbatim>\<open>type Client struct { baseURL, terminalID, username, password, signature string;
  httpClient *http.Client }\<close>. The HTTP client is the world the pipeline talks to; it is
  the field \<open>httpClient_Do\<close> of the environment below.
\<close>

record Client =
  baseURL :: string
  terminalID :: string
  username :: string
  password :: string
  signature :: string

text \<open>
  An \<^verbatim>\<open>http.Request\<close>, as far as the pipeline sets it: the method, the URL text given to
  \<^verbatim>\<open>http.NewRequestWithContext\<close>, the header map (\<^verbatim>\<open>map[string][]string\<close>) and the
  body bytes (\<open>None\<close> for a nil reader).
\<close>

record Request =
  Method :: string
  URL :: string
  Header :: "string \<rightharpoonup> string list"
  Body :: "string option"

text \<open>
  An \<^verbatim>\<open>http.Response\<close>: its status code (\<open>StatusCode'\<close>, the plain name being the
  field of \<open>APIError\<close>) and what \<^verbatim>\<open>io.ReadAll(resp.Body)\<close> gives, the error's text on
  the left or the bytes read on the right.
\<close>

record Response =
  StatusCode' :: int
  Body' :: "string + string"

text \<open>
  The errors \<^verbatim>\<open>doRequest\<close> returns: \<^verbatim>\<open>fmt.Errorf(prefix + "%w", err)\<close>, kept as the
  prefix and the text of the wrapped error, or an \<^verbatim>\<open>*APIError\<close>.
\<close>

datatype error =
    Errorf string string
  | IsAPIError APIError

text \<open>
  What the pipeline takes from the standard library and from the types of its callers.
  \<^verbatim>\<open>body\<close> and \<^verbatim>\<open>result\<close> are \<^verbatim>\<open>interface{}\<close> in the source, so their JSON codecs
  are parameters: \<open>json_Marshal\<close> is \<^verbatim>\<open>json.Marshal(body)\<close>, \<open>json_Unmarshal\<close> is
  \<^verbatim>\<open>json.Unmarshal(respBody, result)\<close> (the error, if any, and the value then held
  by the target) and \<open>json_Unmarshal_Error\<close> is the same for a target of type \<open>Error\<close>.
  \<open>http_NewRequest_err\<close> is the error of \<^verbatim>\<open>http.NewRequestWithContext\<close> for a method
  and a URL (\<open>None\<close> when the request is made), and \<open>httpClient_Do\<close> is the
  transport. An error of the library is its text.
\<close>

record ('b, 'r) env =
  json_Marshal :: "'b \<Rightarrow> string + string"
  http_NewRequest_err :: "string \<Rightarrow> string \<Rightarrow> string option"
  httpClient_Do :: "Request \<Rightarrow> string + Response"
  json_Unmarshal_Error :: "string \<Rightarrow> Error \<Rightarrow> string option \<times> Error"
  json_Unmarshal :: "string \<Rightarrow> 'r \<Rightarrow> string option \<times> 'r"

text \<open>
  \<^verbatim>\<open>http.NewRequestWithContext\<close>: an empty method means GET, and the new request has
  an empty header map.
\<close>

definition http_NewRequestWithContext ::
    "('b, 'r) env \<Rightarrow> string \<Rightarrow> string \<Rightarrow> string option \<Rightarrow> string + Request" where
  "http_NewRequestWithContext env method url reqBody =
     (case http_NewRequest_err env method url of
        Some e \<Rightarrow> Inl e
      | None \<Rightarrow>
          Inr \<lparr>Method = (if method = [] then ''GET'' else method), URL = url,
               Header = Map.empty, Body = reqBody\<rparr>)"

text \<open>
  \<^verbatim>\<open>Header.Set(key, value)\<close> replaces the values of the key by the one value. It
  first puts the key in canonical form; the five keys of this file are canonical as they are
  written.
\<close>

definition Header_Set :: "Request \<Rightarrow> string \<Rightarrow> string \<Rightarrow> Request" where
  "Header_Set req key v = req\<lparr>Header := (Header req)(key \<mapsto> [v])\<rparr>"

text \<open>\<^verbatim>\<open>base64.StdEncoding.EncodeToString\<close>: the standard alphabet, padded with \<open>=\<close>.\<close>

definition encodeStd :: string where
  "encodeStd = ''ABCDEFGHIJKLMNOPQRSTUVWXYZabcdefghijklmnopqrstuvwxyz0123456789+/''"

fun EncodeToString :: "string \<Rightarrow> string" where
  "EncodeToString [] = []"
| "EncodeToString [a] =
     (let v = (of_char a :: nat) * 65536
      in [encodeStd ! (v div 262144), encodeStd ! (v div 4096 mod 64), CHR ''='', CHR ''=''])"
| "EncodeToString [a, b] =
     (let v = (of_char a :: nat) * 65536 + of_char b * 256
      in [encodeStd ! (v div 262144), encodeStd ! (v div 4096 mod 64),
          encodeStd ! (v div 64 mod 64), CHR ''=''])"
| "EncodeToString (a # b # c # rest) =
     (let v = (of_char a :: nat) * 65536 + of_char b * 256 + of_char c
      in [encodeStd ! (v div 262144), encodeStd ! (v div 4096 mod 64),
          encodeStd ! (v div 64 mod 64), encodeStd ! (v mod 64)] @ EncodeToString rest)"

text \<open>\<^verbatim>\<open>func basicAuth(username, password string) string\<close> of net/http.\<close>

definition basicAuth :: "string \<Rightarrow> string \<Rightarrow> string" where
  "basicAuth user pass = EncodeToString (user @ '':'' @ pass)"

definition SetBasicAuth :: "Request \<Rightarrow> string \<Rightarrow> string \<Rightarrow> Request" where
  "SetBasicAuth req user pass =
     Header_Set req ''Authorization'' (''Basic '' @ basicAuth user pass)"

text \<open>
  What one call of \<^verbatim>\<open>doRequest\<close> does: the requests it hands to the HTTP client
  (\<open>issued\<close>, none or one), the value held by the target \<^verbatim>\<open>result\<close> afterwards (\<open>None\<close>
  for a nil target) and the error returned (\<open>None\<close> for nil).
\<close>

record 'r outcome =
  issued :: "Request list"
  result :: "'r option"
  err :: "error option"

definition doRequest ::
    "('b, 'r) env \<Rightarrow> Client \<Rightarrow> string \<Rightarrow> string \<Rightarrow> 'b option \<Rightarrow> 'r option \<Rightarrow> 'r outcome" where
  "doRequest env c method path body res =
     (case (case body of
              None \<Rightarrow> Inr None
            | Some b \<Rightarrow>
                (case json_Marshal env b of
                   Inl e \<Rightarrow> Inl e
                 | Inr jsonBody \<Rightarrow> Inr (Some jsonBody))) of
        Inl e \<Rightarrow>
          \<lparr>issued = [], result = res,
           err = Some (Errorf ''failed to marshal request body: '' e)\<rparr>
      | Inr reqBody \<Rightarrow>
     (case http_NewRequestWithContext env method (baseURL c @ path) reqBody of
        Inl e \<Rightarrow>
          \<lparr>issued = [], result = res,
           err = Some (Errorf ''failed to create request: '' e)\<rparr>
      | Inr req0 \<Rightarrow>
     (let req1 = Header_Set req0 ''Content-Type'' ''application/json'';
          req2 = Header_Set req1 ''Accept'' ''application/json'';
          req3 = Header_Set req2 ''X-Terminal-Id'' (terminalID c);
          req4 = (if username c \<noteq> [] \<and> password c \<noteq> []
                  then SetBasicAuth req3 (username c) (password c) else req3);
          req = (if signature c \<noteq> []
                 then Header_Set req4 ''X-Signature'' (signature c) else req4)
      in
     (case httpClient_Do env req of
        Inl e \<Rightarrow>
          \<lparr>issued = [req], result = res,
           err = Some (Errorf ''failed to execute request: '' e)\<rparr>
      | Inr resp \<Rightarrow>
     (case Body' resp of
        Inl e \<Rightarrow>
          \<lparr>issued = [req], result = res,
           err = Some (Errorf ''failed to read response body: '' e)\<rparr>
      | Inr respBody \<Rightarrow>
          if StatusCode' resp \<ge> 400 then
            (case json_Unmarshal_Error env respBody \<lparr>Error' = \<lparr>Code = 0, Message = []\<rparr>\<rparr> of
               (Some e, apiErr) \<Rightarrow>
                 \<lparr>issued = [req], result = res,
                  err = Some (IsAPIError \<lparr>StatusCode = StatusCode' resp,
                                          Message' = respBody, Err = None\<rparr>)\<rparr>
             | (None, apiErr) \<Rightarrow>
                 \<lparr>issued = [req], result = res,
                  err = Some (IsAPIError \<lparr>StatusCode = StatusCode' resp,
                                          Message' = [], Err = Some apiErr\<rparr>)\<rparr>)
          else
            (case res of
               Some r \<Rightarrow>
                 if length respBody > 0 then
                   (case json_Unmarshal env respBody r of
                      (Some e, r') \<Rightarrow>
                        \<lparr>issued = [req], result = Some r',
                         err = Some (Errorf ''failed to unmarshal response: '' e)\<rparr>
                    | (None, r') \<Rightarrow> \<lparr>issued = [req], result = Some r', err = None\<rparr>)
                 else \<lparr>issued = [req], result = res, err = None\<rparr>
             | None \<Rightarrow> \<lparr>issued = [req], result = res, err = None\<rparr>))))))"

text \<open>
  The phases of \<^verbatim>\<open>doRequest\<close>, named for the proofs: encoding the body (lines 80 to
  87), setting the headers (lines 94 to 104), sending and reading (lines 106 to 115) and
  reading the response (lines 117 to 137). \<open>doRequest_phases\<close> below shows that
  \<open>doRequest\<close> is their composition.
\<close>

definition marshalled :: "('b, 'r) env \<Rightarrow> 'b option \<Rightarrow> string + string option" where
  "marshalled env body = (case body of
              None \<Rightarrow> Inr None
            | Some b \<Rightarrow>
                (case json_Marshal env b of
                   Inl e \<Rightarrow> Inl e
                 | Inr jsonBody \<Rightarrow> Inr (Some jsonBody)))"

definition withHeaders :: "Client \<Rightarrow> Request \<Rightarrow> Request" where
  "withHeaders c req0 = (let req1 = Header_Set req0 ''Content-Type'' ''application/json'';
          req2 = Header_Set req1 ''Accept'' ''application/json'';
          req3 = Header_Set req2 ''X-Terminal-Id'' (terminalID c);
          req4 = (if username c \<noteq> [] \<and> password c \<noteq> []
                  then SetBasicAuth req3 (username c) (password c) else req3)
          in (if signature c \<noteq> []
                 then Header_Set req4 ''X-Signature'' (signature c) else req4))"

definition interpretResponse :: "('b, 'r) env \<Rightarrow> 'r option \<Rightarrow> Request \<Rightarrow> Response \<Rightarrow> string \<Rightarrow> 'r outcome" where
  "interpretResponse env res req resp respBody =
    (if StatusCode' resp \<ge> 400 then
            (case json_Unmarshal_Error env respBody \<lparr>Error' = \<lparr>Code = 0, Message = []\<rparr>\<rparr> of
               (Some e, apiErr) \<Rightarrow>
                 \<lparr>issued = [req], result = res,
                  err = Some (IsAPIError \<lparr>StatusCode = StatusCode' resp,
                                          Message' = respBody, Err = None\<rparr>)\<rparr>
             | (None, apiErr) \<Rightarrow>
                 \<lparr>issued = [req], result = res,
                  err = Some (IsAPIError \<lparr>StatusCode = StatusCode' resp,
                                          Message' = [], Err = Some apiErr\<rparr>)\<rparr>)
          else
            (case res of
               Some r \<Rightarrow>
                 if length respBody > 0 then
                   (case json_Unmarshal env respBody r of
                      (Some e, r') \<Rightarrow>
                        \<lparr>issued = [req], result = Some r',
                         err = Some (Errorf ''failed to unmarshal response: '' e)\<rparr>
                    | (None, r') \<Rightarrow> \<lparr>issued = [req], result = Some r', err = None\<rparr>)
                 else \<lparr>issued = [req], result = res, err = None\<rparr>
             | None \<Rightarrow> \<lparr>issued = [req], result = res, err = None\<rparr>))"

definition send :: "('b, 'r) env \<Rightarrow> 'r option \<Rightarrow> Request \<Rightarrow> 'r outcome" where
  "send env res req =
     (case httpClient_Do env req of
        Inl e \<Rightarrow>
          \<lparr>issued = [req], result = res,
           err = Some (Errorf ''failed to execute request: '' e)\<rparr>
      | Inr resp \<Rightarrow>
     (case Body' resp of
        Inl e \<Rightarrow>
          \<lparr>issued = [req], result = res,
           err = Some (Errorf ''failed to read response body: '' e)\<rparr>
      | Inr respBody \<Rightarrow> interpretResponse env res req resp respBody))"

text \<open>
  The exported operations. Each declares a zero-valued result (\<open>zero\<close>, the zero value
  of the operation's response type), runs \<^verbatim>\<open>doRequest\<close> on a pointer to it and returns
  \<^verbatim>\<open>(nil, err)\<close> or the pointer (\<open>returning\<close>): here, the requests issued and
  \<open>Inl err\<close> or \<open>Inr\<close> of the value the variable holds. A request argument \<^verbatim>\<open>req\<close> is a typed pointer, so the \<^verbatim>\<open>body\<close> it becomes is
  never the nil interface, also when the pointer is nil.
\<close>

definition returning :: "'r \<Rightarrow> 'r outcome \<Rightarrow> Request list \<times> (error + 'r)" where
  "returning zero out =
     (issued out,
      case err out of
        Some e \<Rightarrow> Inl e
      | None \<Rightarrow> Inr (case result out of Some r \<Rightarrow> r | None \<Rightarrow> zero))"

definition CreatePayment ::
    "('b, 'r) env \<Rightarrow> 'r \<Rightarrow> Client \<Rightarrow> 'b \<Rightarrow> Request list \<times> (error + 'r)" where
  "CreatePayment env zero c req =
     returning zero (doRequest env c ''POST'' ''/payment'' (Some req) (Some zero))"

definition GetPaymentStatus ::
    "('b, 'r) env \<Rightarrow> 'r \<Rightarrow> Client \<Rightarrow> string \<Rightarrow> Request list \<times> (error + 'r)" where
  "GetPaymentStatus env zero c paymentID =
     returning zero (doRequest env c ''GET'' (''/payment/'' @ paymentID @ ''/status'') None (Some zero))"

definition GetPaymentStatusByRequest ::
    "('b, 'r) env \<Rightarrow> 'r \<Rightarrow> Client \<Rightarrow> string \<Rightarrow> Request list \<times> (error + 'r)" where
  "GetPaymentStatusByRequest env zero c requestID =
     returning zero (doRequest env c ''GET'' (''/payment/status/by/request/'' @ requestID) None
                  (Some zero))"

definition CancelPayment ::
    "('b, 'r) env \<Rightarrow> 'r \<Rightarrow> Client \<Rightarrow> string \<Rightarrow> 'b \<Rightarrow> Request list \<times> (error + 'r)" where
  "CancelPayment env zero c paymentID req =
     returning zero (doRequest env c ''POST'' (''/payment/'' @ paymentID @ ''/cancel'') (Some req)
                  (Some zero))"

definition CancelPaymentByRequest ::
    "('b, 'r) env \<Rightarrow> 'r \<Rightarrow> Client \<Rightarrow> string \<Rightarrow> 'b \<Rightarrow> Request list \<times> (error + 'r)" where
  "CancelPaymentByRequest env zero c requestID req =
     returning zero (doRequest env c ''POST'' (''/payment/cancel/by/request/'' @ requestID) (Some req)
                  (Some zero))"

definition RefundPayment ::
    "('b, 'r) env \<Rightarrow> 'r \<Rightarrow> Client \<Rightarrow> string \<Rightarrow> 'b \<Rightarrow> Request list \<times> (error + 'r)" where
  "RefundPayment env zero c paymentID req =
     returning zero (doRequest env c ''POST'' (''/payment/'' @ paymentID @ ''/refund'') (Some req)
                  (Some zero))"

definition RefundPaymentByRequest ::
    "('b, 'r) env \<Rightarrow> 'r \<Rightarrow> Client \<Rightarrow> string \<Rightarrow> 'b \<Rightarrow> Request list \<times> (error + 'r)" where
  "RefundPaymentByRequest env zero c requestID req =
     returning zero (doRequest env c ''POST'' (''/payment/refund/by/request/'' @ requestID) (Some req)
                  (Some zero))"


text \<open>
  A stand-in for the world, after the \<^verbatim>\<open>httptest\<close> servers of the tests: every request
  is accepted and answered with one status and one body; the codecs are stubs.
\<close>

definition mock_env :: "int \<Rightarrow> string \<Rightarrow> (unit, string) env" where
  "mock_env sc respBody =
     \<lparr>json_Marshal = (\<lambda>_. Inr ''{}''),
      http_NewRequest_err = (\<lambda>_ _. None),
      httpClient_Do = (\<lambda>_. Inr \<lparr>StatusCode' = sc, Body' = Inr respBody\<rparr>),
      json_Unmarshal_Error =
        (\<lambda>s e. if s = ''E21'' then (None, \<lparr>Error' = \<lparr>Code = 21, Message = ''VALIDATION_ERROR''\<rparr>\<rparr>)
               else (Some ''invalid character'', e)),
      json_Unmarshal = (\<lambda>s r. (None, s))\<rparr>"

definition mock_client :: Client where
  "mock_client =
     \<lparr>baseURL = ''http://127.0.0.1'', terminalID = ''test-terminal'', username = ''user'',
      password = ''pass'', signature = ''sig''\<rparr>"

text \<open>The request the stand-in client issues for \<^verbatim>\<open>POST /payment\<close> with the body \<open>{}\<close>.\<close>

definition mock_request :: Request where
  "mock_request =
     withHeaders mock_client
       \<lparr>Method = ''POST'', URL = ''http://127.0.0.1/payment'', Header = Map.empty,
        Body = Some ''{}''\<rparr>"

section \<open>Decoding the error envelope (encoding/json)\<close>

text \<open>
  \<^verbatim>\<open>json.Unmarshal(respBody, &apiErr)\<close> with \<^verbatim>\<open>apiErr\<close> of type \<open>Error\<close> is a function of
  the Go distribution, which is not part of the repository; it is written out here after
  \<^verbatim>\<open>encoding/json/scanner.go\<close>, \<^verbatim>\<open>decode.go\<close> and \<^verbatim>\<open>fold.go\<close>. \<^verbatim>\<open>Unmarshal\<close> first
  checks the whole text against the JSON grammar (\<^verbatim>\<open>checkValid\<close>) and decodes nothing when
  that fails; then it walks the text again and stores what fits the target. The model does
  the same in two steps: \<open>json_parse\<close> reads the text into a value of the type \<open>json\<close>
  or refuses it, and \<open>decode_Error\<close> stores that value. A number keeps its text, a
  string and a member name hold the bytes that \<^verbatim>\<open>unquote\<close> gives, and the members of an
  object stay in their order, with repetitions.
\<close>

datatype json =
    JNull
  | JBool bool
  | JNumber string
  | JString string
  | JArray "json list"
  | JObject "(string \<times> json) list"

definition byteval :: "char \<Rightarrow> int" where
  "byteval c = of_char c"

text \<open>\<^verbatim>\<open>isSpace\<close>: space, tab, carriage return and line feed.\<close>

definition isSpace :: "char \<Rightarrow> bool" where
  "isSpace c = (c = CHR '' '' \<or> c = CHR 0x09 \<or> c = CHR 0x0D \<or> c = CHR 0x0A)"

definition skipws :: "string \<Rightarrow> string" where
  "skipws s = dropWhile isSpace s"

definition isdigit :: "char \<Rightarrow> bool" where
  "isdigit c = (48 \<le> byteval c \<and> byteval c \<le> 57)"

text \<open>
  \<^verbatim>\<open>getu4\<close>: the number written by the four hexadecimal digits of an escape
  \<^verbatim>\<open>\uXXXX\<close> at the head of the text, if there is one.
\<close>

definition hexval :: "char \<Rightarrow> int option" where
  "hexval c =
     (if 48 \<le> byteval c \<and> byteval c \<le> 57 then Some (byteval c - 48)
      else if 97 \<le> byteval c \<and> byteval c \<le> 102 then Some (byteval c - 87)
      else if 65 \<le> byteval c \<and> byteval c \<le> 70 then Some (byteval c - 55)
      else None)"

definition getu4 :: "string \<Rightarrow> int option" where
  "getu4 s =
     (case s of
        b # u # h1 # h2 # h3 # h4 # _ \<Rightarrow>
          if b = CHR 0x5C \<and> u = CHR ''u'' then
            (case (hexval h1, hexval h2, hexval h3, hexval h4) of
               (Some x1, Some x2, Some x3, Some x4) \<Rightarrow>
                 Some (((x1 * 16 + x2) * 16 + x3) * 16 + x4)
             | _ \<Rightarrow> None)
          else None
      | _ \<Rightarrow> None)"

text \<open>
  \<^verbatim>\<open>utf8.EncodeRune\<close>: the UTF-8 bytes of a code point, those of U+FFFD for a
  surrogate half and for a number beyond U+10FFFF.
\<close>

definition EncodeRune :: "int \<Rightarrow> string" where
  "EncodeRune r =
     (if r < 128 then [char_of r]
      else if r < 2048 then [char_of (192 + r div 64), char_of (128 + r mod 64)]
      else if r > 1114111 \<or> (55296 \<le> r \<and> r \<le> 57343) then
        [CHR 0xEF, CHR 0xBF, CHR 0xBD]
      else if r < 65536 then
        [char_of (224 + r div 4096), char_of (128 + r div 64 mod 64), char_of (128 + r mod 64)]
      else
        [char_of (240 + r div 262144), char_of (128 + r div 4096 mod 64),
         char_of (128 + r div 64 mod 64), char_of (128 + r mod 64)])"

text \<open>
  The size that \<^verbatim>\<open>utf8.DecodeRune\<close> gives for the head of a text when a well-formed
  UTF-8 sequence starts there, and 0 when none does (\<^verbatim>\<open>DecodeRune\<close> then answers U+FFFD
  with the size 1).
\<close>

definition cont :: "char \<Rightarrow> bool" where
  "cont c = (128 \<le> byteval c \<and> byteval c \<le> 191)"

definition runeLength :: "string \<Rightarrow> nat" where
  "runeLength s =
     (case s of
        [] \<Rightarrow> 0
      | c0 # r \<Rightarrow>
          (let b0 = byteval c0 in
           if b0 < 128 then 1
           else if b0 < 194 \<or> 244 < b0 then 0
           else
             (case r of
                [] \<Rightarrow> 0
              | c1 # r1 \<Rightarrow>
                  (let b1 = byteval c1;
                       lo = (if b0 = 224 then 160 else if b0 = 240 then 144 else 128);
                       hi = (if b0 = 237 then 159 else if b0 = 244 then 143 else 191)
                   in if b1 < lo \<or> hi < b1 then 0
                      else if b0 < 224 then 2
                      else
                        (case r1 of
                           [] \<Rightarrow> 0
                         | c2 # r2 \<Rightarrow>
                             if \<not> cont c2 then 0
                             else if b0 < 240 then 3
                             else
                               (case r2 of
                                  [] \<Rightarrow> 0
                                | c3 # _ \<Rightarrow> if \<not> cont c3 then 0 else 4))))))"

text \<open>
  A string after its opening quote: the scanner's states \<^verbatim>\<open>stateInString\<close> and
  \<^verbatim>\<open>stateInStringEsc\<close> together with \<^verbatim>\<open>unquote\<close>. The result is the bytes of the string
  and the text after the closing quote. A byte below 0x20, an unknown escape and a missing
  closing quote are refused. An escaped surrogate half that is not followed by its other
  half and a byte that starts no UTF-8 sequence become U+FFFD. The first argument bounds the
  number of steps; each step consumes a byte, so the length of the text and one more is
  enough.
\<close>

fun scan_string :: "nat \<Rightarrow> string \<Rightarrow> string \<Rightarrow> (string \<times> string) option" where
  "scan_string 0 s acc = None"
| "scan_string (Suc n) [] acc = None"
| "scan_string (Suc n) (c # r) acc =
     (if c = CHR 0x22 then Some (acc, r)
      else if c = CHR 0x5C then
        (case r of
           [] \<Rightarrow> None
         | e # r' \<Rightarrow>
             if e = CHR 0x22 \<or> e = CHR 0x5C \<or> e = CHR ''/'' then scan_string n r' (acc @ [e])
             else if e = CHR ''b'' then scan_string n r' (acc @ [CHR 0x08])
             else if e = CHR ''f'' then scan_string n r' (acc @ [CHR 0x0C])
             else if e = CHR ''n'' then scan_string n r' (acc @ [CHR 0x0A])
             else if e = CHR ''r'' then scan_string n r' (acc @ [CHR 0x0D])
             else if e = CHR ''t'' then scan_string n r' (acc @ [CHR 0x09])
             else if e = CHR ''u'' then
               (case getu4 (c # r) of
                  None \<Rightarrow> None
                | Some rr \<Rightarrow>
                    if 55296 \<le> rr \<and> rr \<le> 57343 then
                      (case getu4 (drop 5 r) of
                         Some rr1 \<Rightarrow>
                           if rr < 56320 \<and> 56320 \<le> rr1 \<and> rr1 \<le> 57343 then
                             scan_string n (drop 11 r)
                               (acc @ EncodeRune ((rr - 55296) * 1024 + (rr1 - 56320) + 65536))
                           else scan_string n (drop 5 r) (acc @ EncodeRune 65533)
                       | None \<Rightarrow> scan_string n (drop 5 r) (acc @ EncodeRune 65533))
                    else scan_string n (drop 5 r) (acc @ EncodeRune rr))
             else None)
      else if byteval c < 32 then None
      else if byteval c < 128 then scan_string n r (acc @ [c])
      else
        (let k = runeLength (c # r)
         in if k = 0 then scan_string n r (acc @ EncodeRune 65533)
            else scan_string n (drop k (c # r)) (acc @ take k (c # r))))"

text \<open>
  A number: an optional minus sign, then 0 or a digit from 1 to 9 followed by digits, then
  optionally a point with one digit or more, then optionally an exponent (\<open>e\<close> or \<open>E\<close>, an
  optional sign, one digit or more). The result is the text of the number and the rest.
\<close>

definition scan_digits :: "string \<Rightarrow> (string \<times> string) option" where
  "scan_digits s =
     (if takeWhile isdigit s = [] then None
      else Some (takeWhile isdigit s, dropWhile isdigit s))"

definition scan_number :: "string \<Rightarrow> (string \<times> string) option" where
  "scan_number s =
     (let (sign, s1) =
            (case s of c # r \<Rightarrow> if c = CHR ''-'' then ([c], r) else ([], s) | [] \<Rightarrow> ([], s))
      in case (case s1 of
                 c # r \<Rightarrow>
                   if c = CHR ''0'' then Some ([c], r)
                   else if isdigit c then scan_digits s1
                   else None
               | [] \<Rightarrow> None) of
           None \<Rightarrow> None
         | Some (ip, s2) \<Rightarrow>
             (case (case s2 of
                      c # r \<Rightarrow>
                        if c = CHR ''.'' then
                          (case scan_digits r of
                             None \<Rightarrow> None
                           | Some (ds, r') \<Rightarrow> Some (c # ds, r'))
                        else Some ([], s2)
                    | [] \<Rightarrow> Some ([], s2)) of
                None \<Rightarrow> None
              | Some (fp, s3) \<Rightarrow>
                  (case (case s3 of
                           c # r \<Rightarrow>
                             if c = CHR ''e'' \<or> c = CHR ''E'' then
                               (let (es, r1) =
                                      (case r of
                                         x # r' \<Rightarrow>
                                           if x = CHR ''+'' \<or> x = CHR ''-'' then ([x], r')
                                           else ([], r)
                                       | [] \<Rightarrow> ([], r))
                                in case scan_digits r1 of
                                     None \<Rightarrow> None
                                   | Some (ds, r2) \<Rightarrow> Some (c # es @ ds, r2))
                             else Some ([], s3)
                         | [] \<Rightarrow> Some ([], s3)) of
                     None \<Rightarrow> None
                   | Some (ep, s4) \<Rightarrow> Some (sign @ ip @ fp @ ep, s4))))"

text \<open>
  A value, the elements of an array after the first one has been seen to be there, and the
  members of an object likewise; white space may stand before every token. The scanner
  refuses arrays and objects nested more than \<^verbatim>\<open>maxNestingDepth\<close> deep; the second
  argument is the number of arrays and objects that are open. The first argument bounds the
  depth of the recursion; every call is preceded by the consumption of a byte, so the length
  of the text and one more is enough.
\<close>

definition maxNestingDepth :: nat where
  "maxNestingDepth = 10000"

fun parse_value :: "nat \<Rightarrow> nat \<Rightarrow> string \<Rightarrow> (json \<times> string) option"
  and parse_elements :: "nat \<Rightarrow> nat \<Rightarrow> string \<Rightarrow> json list \<Rightarrow> (json \<times> string) option"
  and parse_members ::
    "nat \<Rightarrow> nat \<Rightarrow> string \<Rightarrow> (string \<times> json) list \<Rightarrow> (json \<times> string) option" where
  "parse_value 0 d s = None"
| "parse_value (Suc n) d s =
     (case skipws s of
        [] \<Rightarrow> None
      | c # r \<Rightarrow>
          if c = CHR ''{'' then
            (if maxNestingDepth \<le> d then None
             else
               (case skipws r of
                  [] \<Rightarrow> None
                | x # r' \<Rightarrow>
                    if x = CHR ''}'' then Some (JObject [], r')
                    else parse_members n (Suc d) (x # r') []))
          else if c = CHR ''['' then
            (if maxNestingDepth \<le> d then None
             else
               (case skipws r of
                  [] \<Rightarrow> None
                | x # r' \<Rightarrow>
                    if x = CHR '']'' then Some (JArray [], r')
                    else parse_elements n (Suc d) (x # r') []))
          else if c = CHR 0x22 then
            (case scan_string (Suc (length r)) r [] of
               None \<Rightarrow> None
             | Some (str, r') \<Rightarrow> Some (JString str, r'))
          else if c = CHR ''-'' \<or> isdigit c then
            (case scan_number (c # r) of
               None \<Rightarrow> None
             | Some (lit, r') \<Rightarrow> Some (JNumber lit, r'))
          else if take 4 (c # r) = ''true'' then Some (JBool True, drop 4 (c # r))
          else if take 5 (c # r) = ''false'' then Some (JBool False, drop 5 (c # r))
          else if take 4 (c # r) = ''null'' then Some (JNull, drop 4 (c # r))
          else None)"
| "parse_elements 0 d s acc = None"
| "parse_elements (Suc n) d s acc =
     (case parse_value n d s of
        None \<Rightarrow> None
      | Some (v, r) \<Rightarrow>
          (case skipws r of
             [] \<Rightarrow> None
           | x # r' \<Rightarrow>
               if x = CHR '','' then parse_elements n d r' (acc @ [v])
               else if x = CHR '']'' then Some (JArray (acc @ [v]), r')
               else None))"
| "parse_members 0 d s acc = None"
| "parse_members (Suc n) d s acc =
     (case skipws s of
        [] \<Rightarrow> None
      | q # r \<Rightarrow>
          if q \<noteq> CHR 0x22 then None
          else
            (case scan_string (Suc (length r)) r [] of
               None \<Rightarrow> None
             | Some (key, r1) \<Rightarrow>
                 (case skipws r1 of
                    [] \<Rightarrow> None
                  | x # r2 \<Rightarrow>
                      if x \<noteq> CHR '':'' then None
                      else
                        (case parse_value n d r2 of
                           None \<Rightarrow> None
                         | Some (v, r3) \<Rightarrow>
                             (case skipws r3 of
                                [] \<Rightarrow> None
                              | y # r4 \<Rightarrow>
                                  if y = CHR '','' then parse_members n d r4 (acc @ [(key, v)])
                                  else if y = CHR ''}'' then
                                    Some (JObject (acc @ [(key, v)]), r4)
                                  else None)))))"

text \<open>
  \<^verbatim>\<open>checkValid\<close>: one value, with nothing but white space after it. \<open>None\<close> is the
  \<^verbatim>\<open>SyntaxError\<close>.
\<close>

definition json_parse :: "string \<Rightarrow> json option" where
  "json_parse s =
     (case parse_value (Suc (length s)) 0 s of
        None \<Rightarrow> None
      | Some (v, r) \<Rightarrow> if skipws r = [] then Some v else None)"

text \<open>
  The name of a member is matched with the name of a field exactly or, failing that, after
  folding (\<^verbatim>\<open>foldName\<close>). Folding turns the letters a to z into capitals and a character
  beyond ASCII into the least character that differs from it only in case: that is S for
  U+017F and K for U+212A, and a character beyond ASCII in every other case. The fields of
  \<open>Error\<close> and \<open>ErrorDetails\<close> have the names \<^verbatim>\<open>error\<close>, \<^verbatim>\<open>code\<close> and \<^verbatim>\<open>message\<close>,
  so that the other characters beyond ASCII, which match none of their letters, are left as
  they are here, and a name matches a field when its folding is the field's name in
  capitals.
\<close>

fun foldName :: "string \<Rightarrow> string" where
  "foldName [] = []"
| "foldName (a # r) =
     (if 97 \<le> byteval a \<and> byteval a \<le> 122 then char_of (byteval a - 32) # foldName r
      else if a = CHR 0xC5 \<and> take 1 r = [CHR 0xBF] then CHR ''S'' # foldName (drop 1 r)
      else if a = CHR 0xE2 \<and> take 2 r = [CHR 0x84, CHR 0xAA] then CHR ''K'' # foldName (drop 2 r)
      else a # foldName r)"

text \<open>
  \<^verbatim>\<open>strconv.ParseInt(s, 10, 64)\<close>: an optional sign and decimal digits, within the range
  of an \<^verbatim>\<open>int64\<close>. \<open>ErrorCode\<close> is an \<^verbatim>\<open>int\<close>, of 64 bits on the platforms of today.
\<close>

definition ParseInt64 :: "string \<Rightarrow> int option" where
  "ParseInt64 s =
     (let neg = (take 1 s = ''-'');
          ds = (if take 1 s = ''-'' \<or> take 1 s = ''+'' then drop 1 s else s);
          un = foldl (\<lambda>n c. n * 10 + (byteval c - 48)) 0 ds
      in if ds = [] \<or> \<not> list_all isdigit ds then None
         else if \<not> neg \<and> 2 ^ 63 \<le> un then None
         else if neg \<and> 2 ^ 63 < un then None
         else Some (if neg then - un else un))"

text \<open>
  Storing a value in a target (\<^verbatim>\<open>d.value\<close>, \<^verbatim>\<open>d.object\<close>, \<^verbatim>\<open>d.array\<close> and
  \<^verbatim>\<open>d.literalStore\<close>). The result is whether an \<^verbatim>\<open>UnmarshalTypeError\<close> was saved, and
  the target afterwards. \<^verbatim>\<open>null\<close> leaves a target that is an integer, a string or a
  struct as it is. An integer takes a number that \<^verbatim>\<open>ParseInt\<close> reads, a string takes a
  string, and a struct takes an object, member by member in the order of the text: a member
  whose name matches a field is stored in that field, any other member is skipped. Every
  other combination saves an error and leaves the target as it is; decoding goes on after an
  error, and \<^verbatim>\<open>Unmarshal\<close> returns the error at the end.
\<close>

definition decode_ErrorCode :: "json \<Rightarrow> ErrorCode \<Rightarrow> bool \<times> ErrorCode" where
  "decode_ErrorCode j v =
     (case j of
        JNull \<Rightarrow> (False, v)
      | JNumber item \<Rightarrow> (case ParseInt64 item of Some n \<Rightarrow> (False, n) | None \<Rightarrow> (True, v))
      | _ \<Rightarrow> (True, v))"

definition decode_ErrorMessage :: "json \<Rightarrow> ErrorMessage \<Rightarrow> bool \<times> ErrorMessage" where
  "decode_ErrorMessage j v =
     (case j of
        JNull \<Rightarrow> (False, v)
      | JString s \<Rightarrow> (False, s)
      | _ \<Rightarrow> (True, v))"

definition decode_ErrorDetails :: "json \<Rightarrow> ErrorDetails \<Rightarrow> bool \<times> ErrorDetails" where
  "decode_ErrorDetails j v =
     (case j of
        JNull \<Rightarrow> (False, v)
      | JObject members \<Rightarrow>
          foldl (\<lambda>(saved, d) (key, x).
                   if foldName key = ''CODE'' then
                     (let (bad, n) = decode_ErrorCode x (Code d)
                      in (saved \<or> bad, d\<lparr>Code := n\<rparr>))
                   else if foldName key = ''MESSAGE'' then
                     (let (bad, m) = decode_ErrorMessage x (Message d)
                      in (saved \<or> bad, d\<lparr>Message := m\<rparr>))
                   else (saved, d))
            (False, v) members
      | _ \<Rightarrow> (True, v))"

definition decode_Error :: "json \<Rightarrow> Error \<Rightarrow> bool \<times> Error" where
  "decode_Error j v =
     (case j of
        JNull \<Rightarrow> (False, v)
      | JObject members \<Rightarrow>
          foldl (\<lambda>(saved, e) (key, x).
                   if foldName key = ''ERROR'' then
                     (let (bad, d) = decode_ErrorDetails x (Error' e)
                      in (saved \<or> bad, e\<lparr>Error' := d\<rparr>))
                   else (saved, e))
            (False, v) members
      | _ \<Rightarrow> (True, v))"

text \<open>
  \<^verbatim>\<open>json.Unmarshal(data, &v)\<close> for \<open>v\<close> of type \<open>Error\<close>: the error, if any, and
  \<open>v\<close> afterwards. The text of the error is not that of Go; \<open>doRequest\<close> only looks at
  whether there is one.
\<close>

definition Unmarshal_Error :: "string \<Rightarrow> Error \<Rightarrow> string option \<times> Error" where
  "Unmarshal_Error data v =
     (case json_parse data of
        None \<Rightarrow> (Some ''json: syntax error'', v)
      | Some j \<Rightarrow>
          (let (saved, v') = decode_Error j v
           in (if saved then Some ''json: cannot unmarshal into Go value'' else None, v')))"

text \<open>
  The JSON values that hold nothing for an \<open>Error\<close>: \<open>null\<close>, and an object that has no
  member for the field \<^verbatim>\<open>error\<close>. And the values that are no object and not \<open>null\<close>.
\<close>

definition without_error_member :: "json \<Rightarrow> bool" where
  "without_error_member j =
     (case j of
        JNull \<Rightarrow> True
      | JObject members \<Rightarrow> list_all (\<lambda>(key, x). foldName key \<noteq> ''ERROR'') members
      | _ \<Rightarrow> False)"

definition no_struct :: "json \<Rightarrow> bool" where
  "no_struct j =
     (case j of
        JArray elements \<Rightarrow> True
      | JString s \<Rightarrow> True
      | JNumber item \<Rightarrow> True
      | JBool b \<Rightarrow> True
      | _ \<Rightarrow> False)"

text \<open>The stand-in for the world with the decoder of the error envelope in its place.\<close>

definition json_env :: "int \<Rightarrow> string \<Rightarrow> (unit, string) env" where
  "json_env sc respBody = (mock_env sc respBody)\<lparr>json_Unmarshal_Error := Unmarshal_Error\<rparr>"

section \<open>The timestamp codec (models.go)\<close>

subsection \<open>Instants and the calendar of package time\<close>

text \<open>
  \<^verbatim>\<open>type Time struct { time.Time }\<close>: the one embedded field is the value itself here.
  Of a \<^verbatim>\<open>time.Time\<close> the model keeps what its methods read: \<open>sec\<close>, the seconds since
  January 1 of year 1, 00:00:00 UTC (the method \<^verbatim>\<open>t.sec()\<close>), \<open>nsec\<close>, the nanoseconds
  within the second (\<^verbatim>\<open>t.nsec()\<close>, from 0 to 999999999), and \<open>zoneoffset\<close>, the seconds
  east of UTC that the location \<^verbatim>\<open>t.loc\<close> gives at that instant. The zero value is
  \<open>sec = 0\<close>, \<open>nsec = 0\<close> in UTC. Integers are unbounded: the seconds of a Go
  \<^verbatim>\<open>Time\<close> are an \<^verbatim>\<open>int64\<close>, which the years of this file stay far away from.

  The functions of package time are those of the Go distribution, which is not part of the
  repository; they are written out here after \<^verbatim>\<open>time/time.go\<close>, \<^verbatim>\<open>time/format.go\<close> and
  \<^verbatim>\<open>time/format_rfc3339.go\<close>. Go counts days from an absolute zero year that is 1 modulo
  400; counted from year 1 with the rounded-down division of \<open>int\<close> the cycles of 400,
  100 and 4 years are the same.
\<close>

record Time =
  sec :: int
  nsec :: int
  zoneoffset :: int

definition Time_zero :: Time where
  "Time_zero = \<lparr>sec = 0, nsec = 0, zoneoffset = 0\<rparr>"

text \<open>\<^verbatim>\<open>func (t Time) IsZero() bool\<close>\<close>

definition IsZero :: "Time \<Rightarrow> bool" where
  "IsZero t = (sec t = 0 \<and> nsec t = 0)"

definition isLeap :: "int \<Rightarrow> bool" where
  "isLeap year = (year mod 4 = 0 \<and> (year mod 100 \<noteq> 0 \<or> year mod 400 = 0))"

definition daysBefore :: "int list" where
  "daysBefore = [0, 31, 59, 90, 120, 151, 181, 212, 243, 273, 304, 334, 365]"

definition daysIn :: "int \<Rightarrow> int \<Rightarrow> int" where
  "daysIn m year =
     (if m = 2 \<and> isLeap year then 29
      else daysBefore ! nat m - daysBefore ! nat (m - 1))"

definition daysSinceEpoch :: "int \<Rightarrow> int" where
  "daysSinceEpoch year =
     (let y = year - 1;
          n400 = y div 400; y1 = y - 400 * n400;
          n100 = y1 div 100; y2 = y1 - 100 * n100;
          n4 = y2 div 4; y3 = y2 - 4 * n4
      in 146097 * n400 + 36524 * n100 + 1461 * n4 + 365 * y3)"

definition norm :: "int \<Rightarrow> int \<Rightarrow> int \<Rightarrow> int \<times> int" where
  "norm hi lo base = (hi + lo div base, lo mod base)"

definition Date :: "int \<Rightarrow> int \<Rightarrow> int \<Rightarrow> int \<Rightarrow> int \<Rightarrow> int \<Rightarrow> int \<Rightarrow> Time" where
  "Date year month day hour minute second nanos =
     (let (year, m) = norm year (month - 1) 12;
          month = m + 1;
          (second, nanos) = norm second nanos 1000000000;
          (minute, second) = norm minute second 60;
          (hour, minute) = norm hour minute 60;
          (day, hour) = norm day hour 24;
          d = daysSinceEpoch year + daysBefore ! nat (month - 1)
                + (if isLeap year \<and> month \<ge> 3 then 1 else 0) + (day - 1)
      in \<lparr>sec = d * 86400 + hour * 3600 + minute * 60 + second, nsec = nanos, zoneoffset = 0\<rparr>)"

text \<open>
  \<^verbatim>\<open>absDate\<close>, in two halves: the year and the day of the year from the day number, in
  cycles of 400, 100, 4 and 1 years, then the month and the day of the month.
\<close>

definition absYear :: "int \<Rightarrow> int \<times> int" where
  "absYear d =
     (let n400 = d div 146097; d1 = d - 146097 * n400;
          n100 = d1 div 36524; n100 = n100 - n100 div 4; d2 = d1 - 36524 * n100;
          n4 = d2 div 1461; d3 = d2 - 1461 * n4;
          n = d3 div 365; n = n - n div 4; yday = d3 - 365 * n
      in (400 * n400 + 100 * n100 + 4 * n4 + n + 1, yday))"

definition monthDay :: "bool \<Rightarrow> int \<Rightarrow> int \<times> int" where
  "monthDay leap yday =
     (if leap \<and> yday = 31 + 29 - 1 then (2, 29)
      else
        (let day = (if leap \<and> yday > 31 + 29 - 1 then yday - 1 else yday);
             month = day div 31;
             end = daysBefore ! nat (month + 1)
         in if day \<ge> end then (month + 2, day - end + 1)
            else (month + 1, day - daysBefore ! nat month + 1)))"

definition absDate :: "int \<Rightarrow> int \<times> int \<times> int" where
  "absDate a =
     (let (year, yday) = absYear (a div 86400);
          (month, day) = monthDay (isLeap year) yday
      in (year, month, day))"

definition absClock :: "int \<Rightarrow> int \<times> int \<times> int" where
  "absClock a =
     (let s = a mod 86400;
          hour = s div 3600; s1 = s - hour * 3600;
          minute = s1 div 60; s2 = s1 - minute * 60
      in (hour, minute, s2))"

fun decimal :: "nat \<Rightarrow> string" where
  "decimal n = (if n < 10 then [char_of (48 + n)] else decimal (n div 10) @ [char_of (48 + n mod 10)])"

declare decimal.simps [simp del]

definition appendInt :: "int \<Rightarrow> nat \<Rightarrow> string" where
  "appendInt x width =
     (let ds = decimal (nat \<bar>x\<bar>)
      in (if x < 0 then ''-'' else []) @ replicate (width - length ds) (CHR ''0'') @ ds)"

subsection \<open>Formatting with the layout RFC3339\<close>

text \<open>
  \<^verbatim>\<open>appendInt(b, x, width)\<close>: a minus sign for a negative \<open>x\<close>, then the decimal digits
  of its absolute value, padded with zeros on the left up to \<open>width\<close>.
  \<open>quo\<close> is Go's division of integers, which rounds toward zero.
  \<open>Format_RFC3339 t\<close> is \<^verbatim>\<open>t.Format(time.RFC3339)\<close>: the local date and clock, with no
  fraction of a second, then \<open>Z\<close> for the offset 0 and otherwise the offset in hours
  and minutes.
\<close>

definition quo :: "int \<Rightarrow> int \<Rightarrow> int" where
  "quo a b = (if a < 0 then - ((- a) div b) else a div b)"

definition Format_RFC3339 :: "Time \<Rightarrow> string" where
  "Format_RFC3339 t =
     (let a = sec t + zoneoffset t;
          (year, month, day) = absDate a;
          (hour, minute, second) = absClock a;
          b = appendInt year 4 @ ''-'' @ appendInt month 2 @ ''-'' @ appendInt day 2 @ ''T'' @
              appendInt hour 2 @ '':'' @ appendInt minute 2 @ '':'' @ appendInt second 2
      in if zoneoffset t = 0 then b @ ''Z''
         else
           (let zone = quo (zoneoffset t) 60;
                sign = (if zone < 0 then ''-'' else ''+'');
                zone = (if zone < 0 then - zone else zone)
            in b @ sign @ appendInt (zone div 60) 2 @ '':'' @ appendInt (zone mod 60) 2))"


text \<open>
  \<^verbatim>\<open>json.Marshal\<close> of a string: the text between double quotes, with the quote and the
  backslash escaped, the control characters, \<open><\<close>, \<open>>\<close> and \<open>&\<close> written as escapes.
  Bytes from 0x80 on are copied, as Go copies valid UTF-8 (but for U+2028 and U+2029);
  \<open>Format_RFC3339\<close> produces none.
\<close>

definition hexdigit :: "nat \<Rightarrow> char" where
  "hexdigit n = ''0123456789abcdef'' ! n"

definition json_escape :: "char \<Rightarrow> string" where
  "json_escape c =
     (if c = CHR 0x22 \<or> c = CHR 0x5C then [CHR 0x5C, c]
      else if c = CHR 0x08 then [CHR 0x5C, CHR ''b'']
      else if c = CHR 0x0C then [CHR 0x5C, CHR ''f'']
      else if c = CHR 0x0A then [CHR 0x5C, CHR ''n'']
      else if c = CHR 0x0D then [CHR 0x5C, CHR ''r'']
      else if c = CHR 0x09 then [CHR 0x5C, CHR ''t'']
      else if (of_char c :: nat) < 32 \<or> c = CHR ''<'' \<or> c = CHR ''>'' \<or> c = CHR ''&'' then
        [CHR 0x5C, CHR ''u'', CHR ''0'', CHR ''0'',
         hexdigit ((of_char c :: nat) div 16), hexdigit ((of_char c :: nat) mod 16)]
      else [c])"

definition json_Marshal_string :: "string \<Rightarrow> string" where
  "json_Marshal_string s = [CHR 0x22] @ concat (map json_escape s) @ [CHR 0x22]"

subsection \<open>Parsing\<close>

text \<open>
  \<^verbatim>\<open>time.ParseError\<close>: the layout and the text that was to be parsed. Its three other
  fields say where the parse stopped and are not kept.
\<close>

datatype ParseError = ParseError (Layout: string) (Value: string)

definition digit :: "char \<Rightarrow> bool" where
  "digit c = (48 \<le> (of_char c :: nat) \<and> (of_char c :: nat) \<le> 57)"

definition digitval :: "char \<Rightarrow> int" where
  "digitval c = int (of_char c) - 48"

definition isDigit :: "string \<Rightarrow> nat \<Rightarrow> bool" where
  "isDigit s i = (if length s \<le> i then False else digit (s ! i))"

definition commaOrPeriod :: "char \<Rightarrow> bool" where
  "commaOrPeriod c = (c = CHR ''.'' \<or> c = CHR '','')"

definition getnum :: "string \<Rightarrow> bool \<Rightarrow> (int \<times> string) option" where
  "getnum s fixed =
     (if \<not> isDigit s 0 then None
      else if \<not> isDigit s 1 then
        (if fixed then None else Some (digitval (s ! 0), drop 1 s))
      else Some (digitval (s ! 0) * 10 + digitval (s ! 1), drop 2 s))"

fun leadingInt :: "int \<Rightarrow> string \<Rightarrow> int \<times> string" where
  "leadingInt x [] = (x, [])"
| "leadingInt x (c # s) = (if digit c then leadingInt (x * 10 + digitval c) s else (x, c # s))"

definition atoi :: "string \<Rightarrow> int option" where
  "atoi s =
     (let neg = (s \<noteq> [] \<and> hd s = CHR ''-'');
          s' = (if s \<noteq> [] \<and> (hd s = CHR ''-'' \<or> hd s = CHR ''+'') then tl s else s);
          (q, rem) = leadingInt 0 s'
      in if rem \<noteq> [] then None else Some (if neg then - q else q))"

definition parseNanoseconds :: "string \<Rightarrow> nat \<Rightarrow> int option" where
  "parseNanoseconds v nbytes =
     (if \<not> commaOrPeriod (v ! 0) then None
      else
        (let nbytes = (if nbytes > 10 then 10 else nbytes)
         in case atoi (take (nbytes - 1) (drop 1 v)) of
              None \<Rightarrow> None
            | Some ns \<Rightarrow> if ns < 0 then None else Some (ns * 10 ^ (10 - nbytes))))"

definition fracLength :: "string \<Rightarrow> nat" where
  "fracLength v = 2 + length (takeWhile digit (drop 2 v))"

fun parseUint :: "string \<Rightarrow> int \<Rightarrow> int \<Rightarrow> int option" where
  "parseUint s lo hi =
     (if \<not> list_all digit s then None
      else (let x = fst (leadingInt 0 s) in if x < lo \<or> hi < x then None else Some x))"

definition addSec_setLoc :: "Time \<Rightarrow> int \<Rightarrow> Time" where
  "addSec_setLoc t zoneOffset = t\<lparr>sec := sec t - zoneOffset, zoneoffset := zoneOffset\<rparr>"

definition parseRFC3339 :: "string \<Rightarrow> Time option" where
  "parseRFC3339 s =
     (if length s < 19 then None
      else
        (case parseUint (take 4 s) 0 9999 of None \<Rightarrow> None | Some year \<Rightarrow>
        (case parseUint (take 2 (drop 5 s)) 1 12 of None \<Rightarrow> None | Some month \<Rightarrow>
        (case parseUint (take 2 (drop 8 s)) 1 (daysIn month year) of None \<Rightarrow> None | Some day \<Rightarrow>
        (case parseUint (take 2 (drop 11 s)) 0 23 of None \<Rightarrow> None | Some hour \<Rightarrow>
        (case parseUint (take 2 (drop 14 s)) 0 59 of None \<Rightarrow> None | Some minute \<Rightarrow>
        (case parseUint (take 2 (drop 17 s)) 0 59 of None \<Rightarrow> None | Some second \<Rightarrow>
         if \<not> (s ! 4 = CHR ''-'' \<and> s ! 7 = CHR ''-'' \<and> s ! 10 = CHR ''T'' \<and>
                 s ! 13 = CHR '':'' \<and> s ! 16 = CHR '':'') then None
         else
           (let s = drop 19 s;
                frac = (length s \<ge> 2 \<and> s ! 0 = CHR ''.'' \<and> isDigit s 1);
                n = fracLength s;
                nanos = (if frac then (case parseNanoseconds s n of Some ns \<Rightarrow> ns | None \<Rightarrow> 0)
                         else 0);
                s = (if frac then drop n s else s);
                t = Date year month day hour minute second nanos
            in if \<not> (length s \<noteq> 1 \<or> s ! 0 \<noteq> CHR ''Z'') then Some t
               else if length s \<noteq> 6 then None
               else
                 (case parseUint (take 2 (drop 1 s)) 0 23 of None \<Rightarrow> None | Some hr \<Rightarrow>
                 (case parseUint (take 2 (drop 4 s)) 0 59 of None \<Rightarrow> None | Some mm \<Rightarrow>
                  if \<not> ((s ! 0 = CHR ''-'' \<or> s ! 0 = CHR ''+'') \<and> s ! 3 = CHR '':'') then None
                  else
                    (let zoneOffset = (hr * 60 + mm) * 60;
                         zoneOffset = (if s ! 0 = CHR ''-'' then zoneOffset * (- 1) else zoneOffset)
                     in Some (addSec_setLoc t zoneOffset))))))))))))"

datatype std =
  stdLongYear | stdZeroMonth | stdZeroDay | stdHour | stdZeroMinute | stdZeroSecond
| stdISO8601ColonTZ

definition RFC3339 :: string where
  "RFC3339 = ''2006-01-02T15:04:05Z07:00''"

definition stdChunks :: "string \<Rightarrow> (string \<times> std) list" where
  "stdChunks layout =
     (if layout = ''2006-01-02T15:04:05Z07:00'' then
        [([], stdLongYear), (''-'', stdZeroMonth), (''-'', stdZeroDay), (''T'', stdHour),
         ('':'', stdZeroMinute), ('':'', stdZeroSecond), ([], stdISO8601ColonTZ)]
      else if layout = ''2006-01-02T15:04:05'' then
        [([], stdLongYear), (''-'', stdZeroMonth), (''-'', stdZeroDay), (''T'', stdHour),
         ('':'', stdZeroMinute), ('':'', stdZeroSecond)]
      else [])"

fun skip :: "string \<Rightarrow> string \<Rightarrow> string option" where
  "skip v [] = Some v"
| "skip [] (p # prefix) = None"
| "skip (c # v) (p # prefix) = (if c \<noteq> p then None else skip v prefix)"

record fields =
  f_year :: int
  f_month :: int
  f_day :: int
  f_hour :: int
  f_min :: int
  f_sec :: int
  f_nsec :: int
  f_z :: bool
  f_zoneOffset :: int

fun parse_std :: "std \<Rightarrow> fields \<Rightarrow> string \<Rightarrow> (fields \<times> string) option" where
  "parse_std stdLongYear f v =
     (if length v < 4 \<or> \<not> isDigit v 0 then None
      else (case atoi (take 4 v) of
              None \<Rightarrow> None
            | Some year \<Rightarrow> Some (f\<lparr>f_year := year\<rparr>, drop 4 v)))"
| "parse_std stdZeroMonth f v =
     (case getnum v True of
        None \<Rightarrow> None
      | Some (month, v) \<Rightarrow>
          if month \<le> 0 \<or> 12 < month then None else Some (f\<lparr>f_month := month\<rparr>, v))"
| "parse_std stdZeroDay f v =
     (case getnum v True of
        None \<Rightarrow> None
      | Some (day, v) \<Rightarrow> Some (f\<lparr>f_day := day\<rparr>, v))"
| "parse_std stdHour f v =
     (case getnum v False of
        None \<Rightarrow> None
      | Some (hour, v) \<Rightarrow>
          if hour < 0 \<or> 24 \<le> hour then None else Some (f\<lparr>f_hour := hour\<rparr>, v))"
| "parse_std stdZeroMinute f v =
     (case getnum v True of
        None \<Rightarrow> None
      | Some (minute, v) \<Rightarrow>
          if minute < 0 \<or> 60 \<le> minute then None else Some (f\<lparr>f_min := minute\<rparr>, v))"
| "parse_std stdZeroSecond f v =
     (case getnum v True of
        None \<Rightarrow> None
      | Some (second, v) \<Rightarrow>
          if second < 0 \<or> 60 \<le> second then None
          else if length v \<ge> 2 \<and> commaOrPeriod (v ! 0) \<and> isDigit v 1 then
            (let n = fracLength v
             in case parseNanoseconds v n of
                  None \<Rightarrow> None
                | Some nanos \<Rightarrow> Some (f\<lparr>f_sec := second, f_nsec := nanos\<rparr>, drop n v))
          else Some (f\<lparr>f_sec := second\<rparr>, v))"
| "parse_std stdISO8601ColonTZ f v =
     (if length v \<ge> 1 \<and> v ! 0 = CHR ''Z'' then Some (f\<lparr>f_z := True\<rparr>, drop 1 v)
      else if length v < 6 then None
      else if v ! 3 \<noteq> CHR '':'' then None
      else
        (case getnum (take 2 (drop 1 v)) True of None \<Rightarrow> None | Some (hr, _) \<Rightarrow>
        (case getnum (take 2 (drop 4 v)) True of None \<Rightarrow> None | Some (mm, _) \<Rightarrow>
        (case getnum ''00'' True of None \<Rightarrow> None | Some (ss, _) \<Rightarrow>
         if hr > 24 \<or> mm > 60 \<or> ss > 60 then None
         else
           (let zoneOffset = (hr * 60 + mm) * 60 + ss
            in if v ! 0 = CHR ''+'' then Some (f\<lparr>f_zoneOffset := zoneOffset\<rparr>, drop 6 v)
               else if v ! 0 = CHR ''-'' then Some (f\<lparr>f_zoneOffset := - zoneOffset\<rparr>, drop 6 v)
               else None)))))"

fun parse_loop :: "(string \<times> std) list \<Rightarrow> fields \<Rightarrow> string \<Rightarrow> fields option" where
  "parse_loop [] f v = (if length v \<noteq> 0 then None else Some f)"
| "parse_loop ((prefix, std) # layout) f v =
     (case skip v prefix of
        None \<Rightarrow> None
      | Some v \<Rightarrow>
          (case parse_std std f v of
             None \<Rightarrow> None
           | Some (f, v) \<Rightarrow> parse_loop layout f v))"

definition parse :: "string \<Rightarrow> string \<Rightarrow> Time option" where
  "parse layout v =
     (case parse_loop (stdChunks layout)
             \<lparr>f_year = 0, f_month = - 1, f_day = - 1, f_hour = 0, f_min = 0, f_sec = 0,
              f_nsec = 0, f_z = False, f_zoneOffset = - 1\<rparr> v of
        None \<Rightarrow> None
      | Some f \<Rightarrow>
          (let month = (if f_month f < 0 then 1 else f_month f);
               day = (if f_day f < 0 then 1 else f_day f)
           in if day < 1 \<or> day > daysIn month (f_year f) then None
              else if f_z f then
                Some (Date (f_year f) month day (f_hour f) (f_min f) (f_sec f) (f_nsec f))
              else if f_zoneOffset f \<noteq> - 1 then
                Some (addSec_setLoc
                        (Date (f_year f) month day (f_hour f) (f_min f) (f_sec f) (f_nsec f))
                        (f_zoneOffset f))
              else Some (Date (f_year f) month day (f_hour f) (f_min f) (f_sec f) (f_nsec f))))"

definition Parse :: "string \<Rightarrow> string \<Rightarrow> ParseError + Time" where
  "Parse layout v =
     (case (if layout = RFC3339 then parseRFC3339 v else None) of
        Some t \<Rightarrow> Inr t
      | None \<Rightarrow>
          (case parse layout v of
             Some t \<Rightarrow> Inr t
           | None \<Rightarrow> Inl (ParseError layout v)))"

definition Trim :: "string \<Rightarrow> string \<Rightarrow> string" where
  "Trim s cutset =
     rev (dropWhile (\<lambda>c. c \<in> set cutset) (rev (dropWhile (\<lambda>c. c \<in> set cutset) s)))"

definition UnmarshalJSON :: "Time \<Rightarrow> string \<Rightarrow> ParseError + Time" where
  "UnmarshalJSON t data =
     (let s = Trim data [CHR 0x22]
      in if s = ''null'' \<or> s = [] then Inr t
         else
           (case Parse RFC3339 s of
              Inr parsed \<Rightarrow> Inr parsed
            | Inl _ \<Rightarrow>
                (case Parse ''2006-01-02T15:04:05'' s of
                   Inl e \<Rightarrow> Inl e
                 | Inr parsed \<Rightarrow> Inr parsed)))"

definition MarshalJSON :: "Time \<Rightarrow> string" where
  "MarshalJSON t =
     (if IsZero t then ''null'' else json_Marshal_string (Format_RFC3339 t))"


text \<open>A text between double quotes, as a JSON string reaches \<^verbatim>\<open>UnmarshalJSON\<close>.\<close>

definition quoted :: "string \<Rightarrow> string" where
  "quoted s = [CHR 0x22] @ s @ [CHR 0x22]"

subsection \<open>Notions for the statements and proofs about the codec\<close>

text \<open>\<^verbatim>\<open>t.Year()\<close>: the year of the date of \<open>t\<close> in its location.\<close>

definition Year :: "Time \<Rightarrow> int" where
  "Year t = fst (absDate (sec t + zoneoffset t))"

text \<open>\<^verbatim>\<open>t.Equal(u)\<close>: the same instant, whatever the locations.\<close>

definition Equal :: "Time \<Rightarrow> Time \<Rightarrow> bool" where
  "Equal t u = (sec t = sec u \<and> nsec t = nsec u)"

text \<open>
  The digit character of a number from 0 to 9; the date and clock part of an RFC3339 text;
  the zone part that \<open>Format_RFC3339\<close> writes for an offset; and the characters that
  \<open>json_Marshal_string\<close> copies and that \<open>Trim\<close> does not cut.
\<close>

definition digitchar :: "int \<Rightarrow> char" where
  "digitchar k = char_of (48 + nat k)"

definition civil :: "int \<Rightarrow> int \<Rightarrow> int \<Rightarrow> int \<Rightarrow> int \<Rightarrow> int \<Rightarrow> string" where
  "civil y m d h mi s =
     appendInt y 4 @ ''-'' @ appendInt m 2 @ ''-'' @ appendInt d 2 @ ''T'' @
     appendInt h 2 @ '':'' @ appendInt mi 2 @ '':'' @ appendInt s 2"

definition zoneText :: "int \<Rightarrow> string" where
  "zoneText off =
     (if off = 0 then ''Z''
      else
        (let zone = quo off 60;
             sign = (if zone < 0 then ''-'' else ''+'');
             zone = (if zone < 0 then - zone else zone)
         in sign @ appendInt (zone div 60) 2 @ '':'' @ appendInt (zone mod 60) 2))"

definition plain :: "char \<Rightarrow> bool" where
  "plain c = (c \<noteq> CHR 0x22 \<and> json_escape c = [c])"

subsection \<open>The texts of the fallback layout, in the words of the specification\<close>

text \<open>
  The decimal value of a text of digits, and the nanoseconds that a fraction of a second
  (a period or comma and its digits) stands for: its first nine digits, scaled.
\<close>

definition decval :: "string \<Rightarrow> int" where
  "decval s = foldl (\<lambda>a c. a * 10 + digitval c) 0 s"

definition fracval :: "string \<Rightarrow> int" where
  "fracval F =
     (if F = [] then 0
      else decval (take 9 (tl F)) * 10 ^ (9 - length (take 9 (tl F))))"

text \<open>
  A fraction of a second is absent, or a period or a comma followed by one digit or more.
\<close>

definition fraction_form :: "string \<Rightarrow> bool" where
  "fraction_form F \<longleftrightarrow>
     F = [] \<or> (\<exists>c ds. F = c # ds \<and> commaOrPeriod c \<and> ds \<noteq> [] \<and> list_all digit ds)"

text \<open>
  \<open>naive_fields v Y M D H MI S F\<close>: the text \<open>v\<close> is a four-digit year \<open>Y\<close>, \<open>-\<close>, a
  two-digit month \<open>M\<close>, \<open>-\<close>, a two-digit day \<open>D\<close>, \<open>T\<close>, an hour \<open>H\<close> of one or two
  digits, \<open>:\<close>, a two-digit minute \<open>MI\<close>, \<open>:\<close>, a two-digit second \<open>S\<close> and a fraction
  \<open>F\<close>, with no offset, and these are a date of the calendar and a time of the day.
  \<open>naive_form v\<close>: the text has this form.
\<close>

definition naive_fields ::
    "string \<Rightarrow> string \<Rightarrow> string \<Rightarrow> string \<Rightarrow> string \<Rightarrow> string \<Rightarrow> string \<Rightarrow> string \<Rightarrow> bool" where
  "naive_fields v Y M D H MI S F \<longleftrightarrow>
     v = Y @ ''-'' @ M @ ''-'' @ D @ ''T'' @ H @ '':'' @ MI @ '':'' @ S @ F \<and>
     length Y = 4 \<and> length M = 2 \<and> length D = 2 \<and> (length H = 1 \<or> length H = 2) \<and>
     length MI = 2 \<and> length S = 2 \<and>
     list_all digit Y \<and> list_all digit M \<and> list_all digit D \<and> list_all digit H \<and>
     list_all digit MI \<and> list_all digit S \<and>
     1 \<le> decval M \<and> decval M \<le> 12 \<and>
     1 \<le> decval D \<and> decval D \<le> daysIn (decval M) (decval Y) \<and>
     decval H \<le> 23 \<and> decval MI \<le> 59 \<and> decval S \<le> 59 \<and>
     fraction_form F"

definition naive_form :: "string \<Rightarrow> bool" where
  "naive_form v \<longleftrightarrow> (\<exists>Y M D H MI S F. naive_fields v Y M D H MI S F)"

text \<open>
  For the proofs: the test that \<^verbatim>\<open>parse\<close> makes after the seconds, the elements of the
  fallback layout and the fields \<^verbatim>\<open>parse\<close> starts from.
\<close>

definition frac_start :: "string \<Rightarrow> bool" where
  "frac_start w = (length w \<ge> 2 \<and> commaOrPeriod (w ! 0) \<and> isDigit w 1)"

definition naive_chunks :: "(string \<times> std) list" where
  "naive_chunks =
     [([], stdLongYear), (''-'', stdZeroMonth), (''-'', stdZeroDay), (''T'', stdHour),
      ('':'', stdZeroMinute), ('':'', stdZeroSecond)]"

definition fields0 :: fields where
  "fields0 = \<lparr>f_year = 0, f_month = - 1, f_day = - 1, f_hour = 0, f_min = 0, f_sec = 0,
              f_nsec = 0, f_z = False, f_zoneOffset = - 1\<rparr>"

section \<open>Classification of an API error\<close>

text \<open>
  C1. With a parsed envelope present, \<open>IsNotFound\<close> holds exactly when the envelope's
  code is one of PaymentNotFound, OrderNotFound, TransferNotFound, TokenNotFound,
  \<open>IsValidationError\<close> exactly when it is ValidationError and \<open>IsAuthenticationError\<close>
  exactly when it is BadCredentials, whatever the status code and raw message are; with
  no envelope the three predicates hold exactly at the status codes 404, 400 and 401.
\<close>

theorem classification_two_tier:
  "IsNotFound \<lparr>StatusCode = sc, Message' = m, Err = Some env\<rparr> =
     (Code (Error' env) \<in> {ErrorCodePaymentNotFound, ErrorCodeOrderNotFound,
                             ErrorCodeTransferNotFound, ErrorCodeTokenNotFound}) \<and>
   IsValidationError \<lparr>StatusCode = sc, Message' = m, Err = Some env\<rparr> =
     (Code (Error' env) = ErrorCodeValidationError) \<and>
   IsAuthenticationError \<lparr>StatusCode = sc, Message' = m, Err = Some env\<rparr> =
     (Code (Error' env) = ErrorCodeBadCredentials) \<and>
   IsNotFound \<lparr>StatusCode = sc, Message' = m, Err = None\<rparr> = (sc = 404) \<and>
   IsValidationError \<lparr>StatusCode = sc, Message' = m, Err = None\<rparr> = (sc = 400) \<and>
   IsAuthenticationError \<lparr>StatusCode = sc, Message' = m, Err = None\<rparr> = (sc = 401)"
  by (auto simp: IsNotFound_def IsValidationError_def IsAuthenticationError_def)

section \<open>The request pipeline\<close>

lemma doRequest_phases:
  "doRequest env c method path body res =
     (case marshalled env body of
        Inl e \<Rightarrow>
          \<lparr>issued = [], result = res,
           err = Some (Errorf ''failed to marshal request body: '' e)\<rparr>
      | Inr reqBody \<Rightarrow>
     (case http_NewRequestWithContext env method (baseURL c @ path) reqBody of
        Inl e \<Rightarrow>
          \<lparr>issued = [], result = res,
           err = Some (Errorf ''failed to create request: '' e)\<rparr>
      | Inr req0 \<Rightarrow> send env res (withHeaders c req0)))"
  unfolding doRequest_def marshalled_def withHeaders_def send_def interpretResponse_def Let_def
  by (rule refl)

lemma issued_send: "issued (send env res req) = [req]"
  unfolding send_def interpretResponse_def
  by (simp split: sum.split prod.split option.split)

lemma issued_doRequest_cases:
  assumes "issued (doRequest env c method path body res) = [req]"
  obtains reqBody req0 where "marshalled env body = Inr reqBody"
    "http_NewRequestWithContext env method (baseURL c @ path) reqBody = Inr req0"
    "req = withHeaders c req0"
    "doRequest env c method path body res = send env res req"
proof (cases "marshalled env body")
  case (Inl e)
  with assms show ?thesis by (simp add: doRequest_phases)
next
  case (Inr reqBody)
  show ?thesis
  proof (cases "http_NewRequestWithContext env method (baseURL c @ path) reqBody")
    case (Inl e)
    with Inr assms show ?thesis by (simp add: doRequest_phases)
  next
    case req0: (Inr req0)
    with Inr assms have "req = withHeaders c req0" by (simp add: doRequest_phases issued_send)
    with Inr req0 that show ?thesis by (simp add: doRequest_phases)
  qed
qed

lemma doRequest_interpret:
  assumes "issued (doRequest env c method path body res) = [req]"
    and "httpClient_Do env req = Inr resp"
    and "Body' resp = Inr respBody"
  shows "doRequest env c method path body res = interpretResponse env res req resp respBody"
proof -
  from assms(1) have "doRequest env c method path body res = send env res req"
    by (rule issued_doRequest_cases)
  with assms(2,3) show ?thesis by (simp add: send_def)
qed

lemma mock_issued:
  "issued (doRequest (mock_env sc b) mock_client ''POST'' ''/payment'' (Some ()) (Some [])) =
     [mock_request]"
  by (simp add: doRequest_phases marshalled_def http_NewRequestWithContext_def issued_send
      mock_env_def mock_client_def mock_request_def)

lemma mock_Do: "httpClient_Do (mock_env sc b) req = Inr \<lparr>StatusCode' = sc, Body' = Inr b\<rparr>"
  by (simp add: mock_env_def)

text \<open>
  C2. When the HTTP client answers the request issued with a response of status 400 or more
  whose body can be read, \<open>doRequest\<close> fails with an \<open>APIError\<close> that carries the
  status code: together with the parsed envelope (and an empty raw message) when the body
  decodes into \<open>Error\<close>, and together with the body text verbatim and no envelope when
  the decoding fails.
\<close>

theorem error_response_classified:
  assumes "issued (doRequest env c method path body res) = [req]"
    and "httpClient_Do env req = Inr resp"
    and "Body' resp = Inr respBody"
    and "StatusCode' resp \<ge> 400"
  shows "err (doRequest env c method path body res) =
     Some (IsAPIError
       (case json_Unmarshal_Error env respBody \<lparr>Error' = \<lparr>Code = 0, Message = []\<rparr>\<rparr> of
          (None, apiErr) \<Rightarrow>
            \<lparr>StatusCode = StatusCode' resp, Message' = [], Err = Some apiErr\<rparr>
        | (Some e, apiErr) \<Rightarrow>
            \<lparr>StatusCode = StatusCode' resp, Message' = respBody, Err = None\<rparr>))"
  using assms(4) 
  by (simp add: doRequest_interpret[OF assms(1-3)] interpretResponse_def split: prod.split option.split)

theorem error_response_classified_witness:
  "(400::int) \<le> 404 \<and>
   err (doRequest (mock_env 404 ''not json'') mock_client ''POST'' ''/payment'' (Some ()) (Some [])) =
     Some (IsAPIError \<lparr>StatusCode = 404, Message' = ''not json'', Err = None\<rparr>) \<and>
   (400::int) \<le> 400 \<and>
   err (doRequest (mock_env 400 ''E21'') mock_client ''POST'' ''/payment'' (Some ()) (Some [])) =
     Some (IsAPIError \<lparr>StatusCode = 400, Message' = [],
             Err = Some \<lparr>Error' = \<lparr>Code = 21, Message = ''VALIDATION_ERROR''\<rparr>\<rparr>\<rparr>)"
  using error_response_classified [OF mock_issued mock_Do, of 404 "''not json''" "''not json''"]
    error_response_classified [OF mock_issued mock_Do, of 400 "''E21''" "''E21''"]
  by (simp add: mock_env_def)

lemma Header_withHeaders:
  "Header (withHeaders c req0) =
     (\<lambda>k. if k = ''X-Signature'' \<and> signature c \<noteq> [] then Some [signature c]
          else if k = ''Authorization'' \<and> username c \<noteq> [] \<and> password c \<noteq> []
            then Some [''Basic '' @ basicAuth (username c) (password c)]
          else if k = ''X-Terminal-Id'' then Some [terminalID c]
          else if k = ''Accept'' then Some [''application/json'']
          else if k = ''Content-Type'' then Some [''application/json'']
          else Header req0 k)"
  by (rule ext) (simp add: withHeaders_def Header_Set_def SetBasicAuth_def Let_def)

lemma Method_URL_withHeaders:
  "Method (withHeaders c req0) = Method req0" "URL (withHeaders c req0) = URL req0"
  by (simp_all add: withHeaders_def Header_Set_def SetBasicAuth_def Let_def)

lemma NewRequest_Inr:
  "http_NewRequestWithContext env method url reqBody = Inr req0 \<Longrightarrow>
   Header req0 = Map.empty \<and> Method req0 = (if method = [] then ''GET'' else method) \<and>
   URL req0 = url \<and> Body req0 = reqBody"
  by (auto simp: http_NewRequestWithContext_def split: option.splits)

lemma fst_returning: "fst (returning zero out) = issued out"
  by (simp add: returning_def)

lemma doRequest_headers:
  assumes "req \<in> set (issued (doRequest env c method path body res))"
  shows "Header req ''X-Terminal-Id'' = Some [terminalID c] \<and>
     Header req ''Authorization'' =
       (if username c \<noteq> [] \<and> password c \<noteq> []
        then Some [''Basic '' @ basicAuth (username c) (password c)] else None) \<and>
     Header req ''X-Signature'' = (if signature c \<noteq> [] then Some [signature c] else None)"
proof (cases "marshalled env body")
  case (Inl e)
  with assms show ?thesis by (simp add: doRequest_phases)
next
  case (Inr reqBody)
  show ?thesis
  proof (cases "http_NewRequestWithContext env method (baseURL c @ path) reqBody")
    case (Inl e)
    with Inr assms show ?thesis by (simp add: doRequest_phases)
  next
    case req0: (Inr req0)
    with Inr assms have r: "req = withHeaders c req0"
      by (simp add: doRequest_phases issued_send)
    from req0 have "Header req0 = Map.empty" by (simp add: NewRequest_Inr)
    then show ?thesis unfolding r by (simp add: Header_withHeaders)
  qed
qed

text \<open>
  C6. Every request issued by \<open>doRequest\<close>, and so by each of the seven operations,
  has the header \<open>X-Terminal-Id\<close> with the configured terminal id; it has the header
  \<open>Authorization\<close> (basic authentication) exactly when the username and the password
  are both non-empty, and the header \<open>X-Signature\<close> exactly when the signature is
  non-empty, each decided on its own, so that both are attached when both are configured.
\<close>

theorem header_contract:
  assumes "req \<in> set (issued (doRequest env c method path body res))
               \<union> set (fst (CreatePayment env zero c b))
               \<union> set (fst (GetPaymentStatus env zero c ident))
               \<union> set (fst (GetPaymentStatusByRequest env zero c ident))
               \<union> set (fst (CancelPayment env zero c ident b))
               \<union> set (fst (CancelPaymentByRequest env zero c ident b))
               \<union> set (fst (RefundPayment env zero c ident b))
               \<union> set (fst (RefundPaymentByRequest env zero c ident b))"
  shows "Header req ''X-Terminal-Id'' = Some [terminalID c] \<and>
     Header req ''Authorization'' =
       (if username c \<noteq> [] \<and> password c \<noteq> []
        then Some [''Basic '' @ basicAuth (username c) (password c)] else None) \<and>
     Header req ''X-Signature'' = (if signature c \<noteq> [] then Some [signature c] else None)"
  using assms
  unfolding CreatePayment_def GetPaymentStatus_def GetPaymentStatusByRequest_def
    CancelPayment_def CancelPaymentByRequest_def RefundPayment_def RefundPaymentByRequest_def
    fst_returning Un_iff
  by (elim disjE) (rule doRequest_headers, assumption)+

theorem header_contract_witness:
  "mock_request \<in> set (fst (CreatePayment (mock_env 200 []) [] mock_client ())) \<and>
   Header mock_request ''X-Terminal-Id'' = Some [''test-terminal''] \<and>
   Header mock_request ''Authorization'' = Some [''Basic dXNlcjpwYXNz''] \<and>
   Header mock_request ''X-Signature'' = Some [''sig'']"
proof -
  have h: "mock_request \<in> set (fst (CreatePayment (mock_env 200 []) [] mock_client ()))"
    by (simp add: CreatePayment_def fst_returning mock_issued)
  have b: "basicAuth ''user'' ''pass'' = ''dXNlcjpwYXNz''"
    by (simp add: basicAuth_def encodeStd_def)
  have "mock_request \<in> set (issued (doRequest (mock_env 200 []) mock_client ''POST'' ''/payment'' (Some ()) (Some [])))
               \<union> set (fst (CreatePayment (mock_env 200 []) [] mock_client ()))
               \<union> set (fst (GetPaymentStatus (mock_env 200 []) [] mock_client ''p1''))
               \<union> set (fst (GetPaymentStatusByRequest (mock_env 200 []) [] mock_client ''p1''))
               \<union> set (fst (CancelPayment (mock_env 200 []) [] mock_client ''p1'' ()))
               \<union> set (fst (CancelPaymentByRequest (mock_env 200 []) [] mock_client ''p1'' ()))
               \<union> set (fst (RefundPayment (mock_env 200 []) [] mock_client ''p1'' ()))
               \<union> set (fst (RefundPaymentByRequest (mock_env 200 []) [] mock_client ''p1'' ()))"
    using h by simp
  from header_contract [OF this] h b show ?thesis
    by (simp add: mock_client_def)
qed

text \<open>
  C7. When the answer has a status below 400 and an empty body and a result is asked for,
  \<open>doRequest\<close> returns no error and leaves the target as it was, so that an operation
  returns the zero value it declared; the decoder of the result type is not consulted
  (the outcome is the same whatever decoder \<open>f\<close> is put in its place).
\<close>

theorem empty_success_body:
  assumes "issued (doRequest env c method path body (Some r)) = [req]"
    and "httpClient_Do env req = Inr resp"
    and "Body' resp = Inr []"
    and "StatusCode' resp < 400"
  shows "doRequest env c method path body (Some r) = \<lparr>issued = [req], result = Some r, err = None\<rparr> \<and>
     returning r (doRequest env c method path body (Some r)) = ([req], Inr r) \<and>
     doRequest (env\<lparr>json_Unmarshal := f\<rparr>) c method path body (Some r) =
       doRequest env c method path body (Some r)"
proof -
  have 1: "doRequest env c method path body (Some r) = \<lparr>issued = [req], result = Some r, err = None\<rparr>"
    using assms(4) by (simp add: doRequest_interpret[OF assms(1-3)] interpretResponse_def)
  from assms(1) obtain reqBody req0 where m: "marshalled env body = Inr reqBody"
    and n: "http_NewRequestWithContext env method (baseURL c @ path) reqBody = Inr req0"
    and w: "req = withHeaders c req0"
    by (rule issued_doRequest_cases)
  have m': "marshalled (env\<lparr>json_Unmarshal := f\<rparr>) body = Inr reqBody"
    using m by (cases body) (simp_all add: marshalled_def)
  have n': "http_NewRequestWithContext (env\<lparr>json_Unmarshal := f\<rparr>) method (baseURL c @ path) reqBody = Inr req0"
    using n by (simp add: http_NewRequestWithContext_def)
  have "doRequest (env\<lparr>json_Unmarshal := f\<rparr>) c method path body (Some r) =
      \<lparr>issued = [req], result = Some r, err = None\<rparr>"
    using assms(2-4) m' n' w by (simp add: doRequest_phases send_def interpretResponse_def)
  with 1 show ?thesis by (simp add: returning_def)
qed

theorem empty_success_body_witness:
  "(200::int) < 400 \<and>
   doRequest (mock_env 200 []) mock_client ''POST'' ''/payment'' (Some ()) (Some []) =
     \<lparr>issued = [mock_request], result = Some [], err = None\<rparr> \<and>
   CreatePayment (mock_env 200 []) [] mock_client () = ([mock_request], Inr [])"
  using empty_success_body [OF mock_issued mock_Do, of 200 "[]" "json_Unmarshal (mock_env 200 [])"]
  by (simp add: CreatePayment_def returning_def)

lemma issued_doRequest:
  "map (\<lambda>q. (Method q, URL q)) (issued (doRequest env c method path body res)) =
     (if \<not> isl (marshalled env body) \<and> http_NewRequest_err env method (baseURL c @ path) = None
      then [(if method = [] then ''GET'' else method, baseURL c @ path)] else [])"
  by (simp add: doRequest_phases http_NewRequestWithContext_def issued_send Method_URL_withHeaders
      split: sum.split option.split)

lemma isl_marshalled_Some: "isl (marshalled env (Some b)) = isl (json_Marshal env b)"
  by (cases "json_Marshal env b") (simp_all add: marshalled_def)

lemma isl_marshalled_None: "\<not> isl (marshalled env None)"
  by (simp add: marshalled_def)

lemma issued_doRequest_POST:
  "map (\<lambda>q. (Method q, URL q)) (issued (doRequest env c ''POST'' path (Some b) res)) =
     (if \<not> isl (json_Marshal env b) \<and> http_NewRequest_err env ''POST'' (baseURL c @ path) = None
      then [(''POST'', baseURL c @ path)] else [])"
  unfolding issued_doRequest isl_marshalled_Some by simp

lemma issued_doRequest_GET:
  "map (\<lambda>q. (Method q, URL q)) (issued (doRequest env c ''GET'' path None res)) =
     (if http_NewRequest_err env ''GET'' (baseURL c @ path) = None
      then [(''GET'', baseURL c @ path)] else [])"
  unfolding issued_doRequest by (simp add: isl_marshalled_None)

text \<open>
  C9. Each operation issues at most one request, and exactly one when its body can be encoded
  and the request can be made; its method and URL are the fixed method and the base URL
  followed by the fixed path with the identifier put in as it is given:
  POST /payment, GET /payment/{paymentId}/status, GET /payment/status/by/request/{requestId},
  POST /payment/{paymentId}/cancel, POST /payment/cancel/by/request/{requestId},
  POST /payment/{paymentId}/refund and POST /payment/refund/by/request/{requestId}.
\<close>

theorem operations_method_path:
  "map (\<lambda>q. (Method q, URL q)) (fst (CreatePayment env zero c b)) =
     (if \<not> isl (json_Marshal env b) \<and>
         http_NewRequest_err env ''POST'' (baseURL c @ ''/payment'') = None
      then [(''POST'', baseURL c @ ''/payment'')] else []) \<and>
   map (\<lambda>q. (Method q, URL q)) (fst (GetPaymentStatus env zero c paymentID)) =
     (if http_NewRequest_err env ''GET'' (baseURL c @ ''/payment/'' @ paymentID @ ''/status'') = None
      then [(''GET'', baseURL c @ ''/payment/'' @ paymentID @ ''/status'')] else []) \<and>
   map (\<lambda>q. (Method q, URL q)) (fst (GetPaymentStatusByRequest env zero c requestID)) =
     (if http_NewRequest_err env ''GET'' (baseURL c @ ''/payment/status/by/request/'' @ requestID) = None
      then [(''GET'', baseURL c @ ''/payment/status/by/request/'' @ requestID)] else []) \<and>
   map (\<lambda>q. (Method q, URL q)) (fst (CancelPayment env zero c paymentID b)) =
     (if \<not> isl (json_Marshal env b) \<and>
         http_NewRequest_err env ''POST'' (baseURL c @ ''/payment/'' @ paymentID @ ''/cancel'') = None
      then [(''POST'', baseURL c @ ''/payment/'' @ paymentID @ ''/cancel'')] else []) \<and>
   map (\<lambda>q. (Method q, URL q)) (fst (CancelPaymentByRequest env zero c requestID b)) =
     (if \<not> isl (json_Marshal env b) \<and>
         http_NewRequest_err env ''POST'' (baseURL c @ ''/payment/cancel/by/request/'' @ requestID) = None
      then [(''POST'', baseURL c @ ''/payment/cancel/by/request/'' @ requestID)] else []) \<and>
   map (\<lambda>q. (Method q, URL q)) (fst (RefundPayment env zero c paymentID b)) =
     (if \<not> isl (json_Marshal env b) \<and>
         http_NewRequest_err env ''POST'' (baseURL c @ ''/payment/'' @ paymentID @ ''/refund'') = None
      then [(''POST'', baseURL c @ ''/payment/'' @ paymentID @ ''/refund'')] else []) \<and>
   map (\<lambda>q. (Method q, URL q)) (fst (RefundPaymentByRequest env zero c requestID b)) =
     (if \<not> isl (json_Marshal env b) \<and>
         http_NewRequest_err env ''POST'' (baseURL c @ ''/payment/refund/by/request/'' @ requestID) = None
      then [(''POST'', baseURL c @ ''/payment/refund/by/request/'' @ requestID)] else [])"
  unfolding CreatePayment_def GetPaymentStatus_def GetPaymentStatusByRequest_def
    CancelPayment_def CancelPaymentByRequest_def RefundPayment_def RefundPaymentByRequest_def
    fst_returning issued_doRequest_POST issued_doRequest_GET
  by (intro conjI refl)

section \<open>A body with no envelope in it\<close>

lemma skip_members:
  "list_all (\<lambda>(key, x). foldName key \<noteq> ''ERROR'') members \<Longrightarrow>
   foldl (\<lambda>(saved, e) (key, x).
            if foldName key = ''ERROR'' then
              (let (bad, d) = decode_ErrorDetails x (Error' e)
               in (saved \<or> bad, e\<lparr>Error' := d\<rparr>))
            else (saved, e))
     (b, v) members = (b, v)"
  by (induction members arbitrary: b v) auto

lemma decode_without_error_member:
  "without_error_member j \<Longrightarrow> decode_Error j v = (False, v)"
  by (cases j) (simp_all add: without_error_member_def decode_Error_def skip_members)

lemma decode_no_struct: "no_struct j \<Longrightarrow> decode_Error j v = (True, v)"
  by (cases j) (simp_all add: no_struct_def decode_Error_def)

lemma Unmarshal_without_error_member:
  "json_parse data = Some j \<Longrightarrow> without_error_member j \<Longrightarrow>
   Unmarshal_Error data v = (None, v)"
  by (simp add: Unmarshal_Error_def decode_without_error_member)

lemma Unmarshal_no_struct:
  "json_parse data = Some j \<Longrightarrow> no_struct j \<Longrightarrow>
   Unmarshal_Error data v = (Some ''json: cannot unmarshal into Go value'', v)"
  by (simp add: Unmarshal_Error_def decode_no_struct)

lemma json_issued:
  "issued (doRequest (json_env sc b) mock_client ''POST'' ''/payment'' (Some ()) (Some [])) =
     [mock_request]"
  by (simp add: doRequest_phases marshalled_def http_NewRequestWithContext_def issued_send
      mock_env_def json_env_def mock_client_def mock_request_def)

lemma json_Do: "httpClient_Do (json_env sc b) req = Inr \<lparr>StatusCode' = sc, Body' = Inr b\<rparr>"
  by (simp add: mock_env_def json_env_def)

lemma json_decoder: "json_Unmarshal_Error (json_env sc b) = Unmarshal_Error"
  by (simp add: json_env_def)

text \<open>
  C10, as amended. Let the response have a status of 400 or more and a body that is a JSON
  text. When the body is \<open>null\<close> or an object with no member for the field \<^verbatim>\<open>error\<close>
  (as \<open>{}\<close> is), \<open>doRequest\<close> fails with an \<open>APIError\<close> that carries an envelope whose
  code and message are the zero values, and an empty raw message; none of the three
  predicates holds of it, whatever the status is. When the body is an array, a string, a
  number, \<open>true\<close> or \<open>false\<close>, the decoding fails: the \<open>APIError\<close> has no envelope and
  carries the body, and it is classified by its status.
\<close>

theorem body_without_error_member:
  assumes "json_Unmarshal_Error env = Unmarshal_Error"
    and "issued (doRequest env c method path body res) = [req]"
    and "httpClient_Do env req = Inr resp"
    and "Body' resp = Inr respBody"
    and "StatusCode' resp \<ge> 400"
    and "json_parse respBody = Some j"
  shows "(without_error_member j \<longrightarrow>
      err (doRequest env c method path body res) =
        Some (IsAPIError \<lparr>StatusCode = StatusCode' resp, Message' = [],
                Err = Some \<lparr>Error' = \<lparr>Code = 0, Message = []\<rparr>\<rparr>\<rparr>) \<and>
      \<not> IsNotFound \<lparr>StatusCode = StatusCode' resp, Message' = [],
                Err = Some \<lparr>Error' = \<lparr>Code = 0, Message = []\<rparr>\<rparr>\<rparr> \<and>
      \<not> IsValidationError \<lparr>StatusCode = StatusCode' resp, Message' = [],
                Err = Some \<lparr>Error' = \<lparr>Code = 0, Message = []\<rparr>\<rparr>\<rparr> \<and>
      \<not> IsAuthenticationError \<lparr>StatusCode = StatusCode' resp, Message' = [],
                Err = Some \<lparr>Error' = \<lparr>Code = 0, Message = []\<rparr>\<rparr>\<rparr>) \<and>
     (no_struct j \<longrightarrow>
      err (doRequest env c method path body res) =
        Some (IsAPIError \<lparr>StatusCode = StatusCode' resp, Message' = respBody, Err = None\<rparr>) \<and>
      IsNotFound \<lparr>StatusCode = StatusCode' resp, Message' = respBody, Err = None\<rparr> =
        (StatusCode' resp = 404))"
proof (intro conjI impI)
  note i = doRequest_interpret [OF assms(2-4)]
  {
    assume w: "without_error_member j"
    from Unmarshal_without_error_member [OF assms(6) w]
    show "err (doRequest env c method path body res) =
        Some (IsAPIError \<lparr>StatusCode = StatusCode' resp, Message' = [],
                Err = Some \<lparr>Error' = \<lparr>Code = 0, Message = []\<rparr>\<rparr>\<rparr>)"
      using assms(1,5) by (simp add: i interpretResponse_def)
  next
    show "\<not> IsNotFound \<lparr>StatusCode = StatusCode' resp, Message' = [],
                Err = Some \<lparr>Error' = \<lparr>Code = 0, Message = []\<rparr>\<rparr>\<rparr>"
      by (simp add: IsNotFound_def ErrorCodePaymentNotFound_def ErrorCodeOrderNotFound_def
          ErrorCodeTransferNotFound_def ErrorCodeTokenNotFound_def)
  next
    show "\<not> IsValidationError \<lparr>StatusCode = StatusCode' resp, Message' = [],
                Err = Some \<lparr>Error' = \<lparr>Code = 0, Message = []\<rparr>\<rparr>\<rparr>"
      by (simp add: IsValidationError_def ErrorCodeValidationError_def)
  next
    show "\<not> IsAuthenticationError \<lparr>StatusCode = StatusCode' resp, Message' = [],
                Err = Some \<lparr>Error' = \<lparr>Code = 0, Message = []\<rparr>\<rparr>\<rparr>"
      by (simp add: IsAuthenticationError_def ErrorCodeBadCredentials_def)
  next
    assume n: "no_struct j"
    from Unmarshal_no_struct [OF assms(6) n]
    show "err (doRequest env c method path body res) =
        Some (IsAPIError \<lparr>StatusCode = StatusCode' resp, Message' = respBody, Err = None\<rparr>)"
      using assms(1,5) by (simp add: i interpretResponse_def)
  next
    show "IsNotFound \<lparr>StatusCode = StatusCode' resp, Message' = respBody, Err = None\<rparr> =
        (StatusCode' resp = 404)"
      by (simp add: IsNotFound_def)
  }
qed

lemma parse_empty_object: "json_parse ''{}'' = Some (JObject [])"
  by code_simp

lemma parse_message_object:
  "json_parse (''{'' @ quoted ''message'' @ '':'' @ quoted ''Not Found'' @ ''}'') =
     Some (JObject [(''message'', JString ''Not Found'')])"
  by code_simp

lemma parse_string: "json_parse (quoted ''Not Found'') = Some (JString ''Not Found'')"
  by code_simp

lemma parse_empty_array: "json_parse ''[]'' = Some (JArray [])"
  by code_simp

lemma fold_message: "foldName ''message'' = ''MESSAGE''"
  by code_simp

theorem body_without_error_member_witness:
  "json_parse ''{}'' = Some (JObject []) \<and> without_error_member (JObject []) \<and>
   (400::int) \<le> 404 \<and>
   err (doRequest (json_env 404 ''{}'') mock_client ''POST'' ''/payment'' (Some ()) (Some [])) =
     Some (IsAPIError \<lparr>StatusCode = 404, Message' = [],
             Err = Some \<lparr>Error' = \<lparr>Code = 0, Message = []\<rparr>\<rparr>\<rparr>) \<and>
   \<not> IsNotFound \<lparr>StatusCode = 404, Message' = [],
             Err = Some \<lparr>Error' = \<lparr>Code = 0, Message = []\<rparr>\<rparr>\<rparr> \<and>
   without_error_member (JObject [(''message'', JString ''Not Found'')]) \<and>
   err (doRequest (json_env 404 (''{'' @ quoted ''message'' @ '':'' @ quoted ''Not Found'' @ ''}''))
          mock_client ''POST'' ''/payment'' (Some ()) (Some [])) =
     Some (IsAPIError \<lparr>StatusCode = 404, Message' = [],
             Err = Some \<lparr>Error' = \<lparr>Code = 0, Message = []\<rparr>\<rparr>\<rparr>) \<and>
   no_struct (JString ''Not Found'') \<and>
   err (doRequest (json_env 404 (quoted ''Not Found'')) mock_client ''POST'' ''/payment''
          (Some ()) (Some [])) =
     Some (IsAPIError \<lparr>StatusCode = 404, Message' = quoted ''Not Found'', Err = None\<rparr>) \<and>
   IsNotFound \<lparr>StatusCode = 404, Message' = quoted ''Not Found'', Err = None\<rparr>"
proof -
  have w1: "without_error_member (JObject [])" by (simp add: without_error_member_def)
  have w2: "without_error_member (JObject [(''message'', JString ''Not Found'')])"
    by (simp add: without_error_member_def fold_message)
  have w3: "no_struct (JString ''Not Found'')" by (simp add: no_struct_def)
  have s: "(400::int) \<le> StatusCode' \<lparr>StatusCode' = 404, Body' = Inr b\<rparr>" for b :: string
    by simp
  have b: "Body' \<lparr>StatusCode' = 404, Body' = Inr b\<rparr> = Inr b" for b :: string
    by simp
  note t1 = body_without_error_member [OF json_decoder json_issued json_Do b s parse_empty_object]
  note t2 = body_without_error_member [OF json_decoder json_issued json_Do b s parse_message_object]
  note t3 = body_without_error_member [OF json_decoder json_issued json_Do b s parse_string]
  from t1 t2 t3 w1 w2 w3 parse_empty_object show ?thesis by simp
qed

text \<open>
  The claim as the specification has it speaks of every body that is a JSON text and no
  envelope. The body \<open>[]\<close> is one; with the status 404 there is no envelope in the
  \<open>APIError\<close>, and the error is classified as not found by its status.
\<close>

theorem array_body_counterexample:
  "json_parse ''[]'' = Some (JArray []) \<and>
   err (doRequest (json_env 404 ''[]'') mock_client ''POST'' ''/payment'' (Some ()) (Some [])) =
     Some (IsAPIError \<lparr>StatusCode = 404, Message' = ''[]'', Err = None\<rparr>) \<and>
   IsNotFound \<lparr>StatusCode = 404, Message' = ''[]'', Err = None\<rparr>"
proof -
  have u: "Unmarshal_Error ''[]'' \<lparr>Error' = \<lparr>Code = 0, Message = []\<rparr>\<rparr> =
      (Some ''json: cannot unmarshal into Go value'', \<lparr>Error' = \<lparr>Code = 0, Message = []\<rparr>\<rparr>)"
    by (simp add: Unmarshal_Error_def parse_empty_array decode_Error_def)
  have d: "doRequest (json_env 404 ''[]'') mock_client ''POST'' ''/payment'' (Some ()) (Some []) =
      interpretResponse (json_env 404 ''[]'') (Some []) mock_request
        \<lparr>StatusCode' = 404, Body' = Inr ''[]''\<rparr> ''[]''"
    by (rule doRequest_interpret [OF json_issued json_Do]) simp
  have e: "err (doRequest (json_env 404 ''[]'') mock_client ''POST'' ''/payment'' (Some ())
      (Some [])) = Some (IsAPIError \<lparr>StatusCode = 404, Message' = ''[]'', Err = None\<rparr>)"
    unfolding d by (simp add: interpretResponse_def json_decoder u)
  have n: "IsNotFound \<lparr>StatusCode = 404, Message' = ''[]'', Err = None\<rparr>"
    by (simp add: IsNotFound_def)
  from parse_empty_array e n show ?thesis by simp
qed

section \<open>The timestamp codec\<close>

lemma Trim_naive_text:
  "Trim ''2026-01-20T11:57:31'' [CHR 0x22] = ''2026-01-20T11:57:31''"
  "Trim (quoted ''2026-01-20T11:57:31'') [CHR 0x22] = ''2026-01-20T11:57:31''"
  by (simp_all add: Trim_def quoted_def)

lemma Trim_utc_text:
  "Trim ''2026-01-20T11:57:31Z'' [CHR 0x22] = ''2026-01-20T11:57:31Z''"
  "Trim (quoted ''2026-01-20T11:57:31Z'') [CHR 0x22] = ''2026-01-20T11:57:31Z''"
  by (simp_all add: Trim_def quoted_def)

lemma Parse_RFC3339_naive_text:
  "Parse RFC3339 ''2026-01-20T11:57:31'' = Inl (ParseError RFC3339 ''2026-01-20T11:57:31'')"
  by code_simp

lemma Parse_naive_text:
  "Parse ''2006-01-02T15:04:05'' ''2026-01-20T11:57:31'' = Inr (Date 2026 1 20 11 57 31 0)"
  by code_simp

lemma Parse_RFC3339_utc_text:
  "Parse RFC3339 ''2026-01-20T11:57:31Z'' = Inr (Date 2026 1 20 11 57 31 0)"
  by code_simp

lemma Date_example:
  "Date 2026 1 20 11 57 31 0 = \<lparr>sec = 62135596800 + 1768910251, nsec = 0, zoneoffset = 0\<rparr>"
  by code_simp

text \<open>
  C4. The naive text 2026-01-20T11:57:31 is refused by the layout RFC3339 and accepted by
  the fallback layout, and \<open>UnmarshalJSON\<close> gives for it, quoted or not, the same instant
  as for 2026-01-20T11:57:31Z: 11:57:31 on January 20, 2026 in UTC, which is 1768910251
  seconds after the Unix epoch.
\<close>

theorem naive_text_is_utc:
  "UnmarshalJSON t (quoted ''2026-01-20T11:57:31'') = Inr (Date 2026 1 20 11 57 31 0) \<and>
   UnmarshalJSON t (quoted ''2026-01-20T11:57:31Z'') = Inr (Date 2026 1 20 11 57 31 0) \<and>
   UnmarshalJSON t ''2026-01-20T11:57:31'' = Inr (Date 2026 1 20 11 57 31 0) \<and>
   UnmarshalJSON t ''2026-01-20T11:57:31Z'' = Inr (Date 2026 1 20 11 57 31 0) \<and>
   Parse RFC3339 ''2026-01-20T11:57:31'' = Inl (ParseError RFC3339 ''2026-01-20T11:57:31'') \<and>
   Parse ''2006-01-02T15:04:05'' ''2026-01-20T11:57:31'' = Inr (Date 2026 1 20 11 57 31 0) \<and>
   Date 2026 1 20 11 57 31 0 = \<lparr>sec = 62135596800 + 1768910251, nsec = 0, zoneoffset = 0\<rparr>"
  unfolding UnmarshalJSON_def Let_def Trim_naive_text Trim_utc_text Parse_RFC3339_naive_text
    Parse_naive_text Parse_RFC3339_utc_text Date_example
  by simp

text \<open>
  C5, as amended. On the input \<open>null\<close> and on the empty input (also the empty quoted
  text) \<open>UnmarshalJSON\<close> returns no error and leaves the receiver as it is: it yields the
  zero \<open>Time\<close> when the receiver is the zero \<open>Time\<close>, as a fresh value is, and it does not
  reset a receiver that holds an instant. \<open>MarshalJSON\<close> of a zero \<open>Time\<close>, in whatever
  location, is the JSON text \<open>null\<close>, not an empty string and not a date.
\<close>

theorem null_and_empty:
  "UnmarshalJSON t ''null'' = Inr t \<and> UnmarshalJSON t [] = Inr t \<and>
   UnmarshalJSON t (quoted []) = Inr t \<and>
   UnmarshalJSON Time_zero ''null'' = Inr Time_zero \<and>
   UnmarshalJSON Time_zero [] = Inr Time_zero \<and>
   MarshalJSON Time_zero = ''null'' \<and>
   MarshalJSON \<lparr>sec = 0, nsec = 0, zoneoffset = z\<rparr> = ''null''"
  by (simp add: UnmarshalJSON_def MarshalJSON_def Trim_def IsZero_def Time_zero_def quoted_def)

text \<open>
  The claim as the specification has it, that \<open>null\<close> and the empty input yield the zero
  \<open>Time\<close>, fails for a receiver that already holds an instant, as the field of a struct
  that is decoded into a second time does: the receiver below holds 11:57:31 on January 20,
  2026 and still holds it after \<open>null\<close> and after the empty input.
\<close>

theorem null_keeps_receiver:
  "UnmarshalJSON (Date 2026 1 20 11 57 31 0) ''null'' = Inr (Date 2026 1 20 11 57 31 0) \<and>
   UnmarshalJSON (Date 2026 1 20 11 57 31 0) [] = Inr (Date 2026 1 20 11 57 31 0) \<and>
   Date 2026 1 20 11 57 31 0 \<noteq> Time_zero \<and>
   \<not> IsZero (Date 2026 1 20 11 57 31 0) \<and>
   MarshalJSON (Date 2026 1 20 11 57 31 0) \<noteq> ''null''"
  unfolding Date_example
  by (simp add: UnmarshalJSON_def MarshalJSON_def Trim_def IsZero_def Time_zero_def
      json_Marshal_string_def)

subsection \<open>The calendar: \<open>Date\<close> after \<open>absDate\<close> and \<open>absClock\<close>\<close>

lemma mod_full:
  fixes t :: int
  assumes "1 \<le> t" "t \<le> k"
  shows "(t mod k = 0) = (t = k)"
  using assms by (cases "t = k") simp_all

lemma leap_mod4:
  fixes a :: int
  assumes "0 \<le> a" "a \<le> 3"
  shows "((a + 1) mod 4 = 0) = (a = 3)"
  using mod_full[of "a + 1" 4] assms by simp

lemma leap_mod100:
  fixes a q :: int
  assumes "0 \<le> q" "q \<le> 24" "0 \<le> a" "a \<le> 3"
  shows "((4 * q + a + 1) mod 100 = 0) = (q = 24 \<and> a = 3)"
proof -
  have "((4 * q + a + 1) mod 100 = 0) = (4 * q + a + 1 = 100)"
    using mod_full[of "4 * q + a + 1" 100] assms by simp
  also have "\<dots> = (q = 24 \<and> a = 3)"
  proof
    assume e: "4 * q + a + 1 = 100"
    have "24 \<le> q" "3 \<le> a" using e assms by linarith+
    with assms show "q = 24 \<and> a = 3" by simp
  qed simp
  finally show ?thesis .
qed

lemma leap_mod400:
  fixes a q c :: int
  assumes "0 \<le> c" "c \<le> 3" "0 \<le> q" "q \<le> 24" "0 \<le> a" "a \<le> 3"
  shows "((100 * c + 4 * q + a + 1) mod 400 = 0) = (c = 3 \<and> q = 24 \<and> a = 3)"
proof -
  have "((100 * c + 4 * q + a + 1) mod 400 = 0) = (100 * c + 4 * q + a + 1 = 400)"
    using mod_full[of "100 * c + 4 * q + a + 1" 400] assms by simp
  also have "\<dots> = (c = 3 \<and> q = 24 \<and> a = 3)"
  proof
    assume e: "100 * c + 4 * q + a + 1 = 400"
    have "3 \<le> c" "24 \<le> q" "3 \<le> a" using e assms by linarith+
    with assms show "c = 3 \<and> q = 24 \<and> a = 3" by simp
  qed simp
  finally show ?thesis .
qed

lemma isLeap_cycles:
  fixes n400 c q a :: int
  assumes "0 \<le> c" "c \<le> 3" "0 \<le> q" "q \<le> 24" "0 \<le> a" "a \<le> 3"
  shows "isLeap (400 * n400 + 100 * c + 4 * q + a + 1) \<longleftrightarrow> a = 3 \<and> (q \<noteq> 24 \<or> c = 3)"
proof -
  let ?y = "400 * n400 + 100 * c + 4 * q + a + 1"
  have "?y = (a + 1) + 4 * (100 * n400 + 25 * c + q)" by simp
  then have m4: "?y mod 4 = (a + 1) mod 4" by (simp only: mod_mult_self2)
  have "?y = (4 * q + a + 1) + 100 * (4 * n400 + c)" by simp
  then have m100: "?y mod 100 = (4 * q + a + 1) mod 100" by (simp only: mod_mult_self2)
  have "?y = (100 * c + 4 * q + a + 1) + 400 * n400" by simp
  then have m400: "?y mod 400 = (100 * c + 4 * q + a + 1) mod 400" by (simp only: mod_mult_self2)
  show ?thesis
    unfolding isLeap_def m4 m100 m400 leap_mod4[OF assms(5,6)] leap_mod100[OF assms(3-6)]
      leap_mod400[OF assms]
    by blast
qed

lemma daysSinceEpoch_cycles:
  fixes n400 c q a :: int
  assumes "0 \<le> c" "c \<le> 3" "0 \<le> q" "q \<le> 24" "0 \<le> a" "a \<le> 3"
  shows "daysSinceEpoch (400 * n400 + 100 * c + 4 * q + a + 1) =
           146097 * n400 + 36524 * c + 1461 * q + 365 * a"
proof -
  let ?y = "400 * n400 + 100 * c + 4 * q + a + 1"
  have 1: "(?y - 1) div 400 = n400" using assms by arith
  have 2: "(?y - 1) - 400 * n400 = 100 * c + 4 * q + a" by simp
  have 3: "(100 * c + 4 * q + a) div 100 = c" using assms by arith
  have 4: "(4 * q + a) div 4 = q" using assms by arith
  show ?thesis
    unfolding daysSinceEpoch_def Let_def 1 2 3 by (simp add: 4)
qed

lemma absYear_cycles:
  obtains n400 c q a yd where
    "absYear d = (400 * n400 + 100 * c + 4 * q + a + 1, yd)"
    "d = 146097 * n400 + 36524 * c + 1461 * q + 365 * a + yd"
    "0 \<le> c" "c \<le> 3" "0 \<le> q" "q \<le> 24" "0 \<le> a" "a \<le> 3"
    "0 \<le> yd" "yd \<le> 365" "yd = 365 \<longrightarrow> a = 3 \<and> (q \<noteq> 24 \<or> c = 3)"
proof -
  define n400 where "n400 = d div 146097"
  define d1 where "d1 = d - 146097 * n400"
  define c0 where "c0 = d1 div 36524"
  define c where "c = c0 - c0 div 4"
  define d2 where "d2 = d1 - 36524 * c"
  define q where "q = d2 div 1461"
  define d3 where "d3 = d2 - 1461 * q"
  define a0 where "a0 = d3 div 365"
  define a where "a = a0 - a0 div 4"
  define yd where "yd = d3 - 365 * a"
  have y: "absYear d = (400 * n400 + 100 * c + 4 * q + a + 1, yd)"
    by (simp add: absYear_def Let_def n400_def d1_def c0_def c_def d2_def q_def d3_def
        a0_def a_def yd_def)
  have d1: "0 \<le> d1" "d1 < 146097" unfolding d1_def n400_def by arith+
  have c0: "0 \<le> c0" "c0 \<le> 4" unfolding c0_def using d1 by arith+
  have c: "0 \<le> c" "c \<le> 3" "c = c0 \<or> (c0 = 4 \<and> c = 3)" unfolding c_def using c0 by arith+
  have d2: "0 \<le> d2" "d2 \<le> 36524" "c < 3 \<longrightarrow> d2 < 36524"
    unfolding d2_def using d1 c c0 unfolding c0_def by arith+
  have q: "0 \<le> q" "q \<le> 24" unfolding q_def using d2 by arith+
  have d3: "0 \<le> d3" "d3 < 1461" unfolding d3_def q_def by arith+
  have a0: "0 \<le> a0" "a0 \<le> 4" unfolding a0_def using d3 by arith+
  have a: "0 \<le> a" "a \<le> 3" "a = a0 \<or> (a0 = 4 \<and> a = 3)" unfolding a_def using a0 by arith+
  have ydb: "0 \<le> yd" "yd \<le> 365" "a < 3 \<longrightarrow> yd < 365"
    unfolding yd_def using d3 a a0 unfolding a0_def by arith+
  have dsum: "d = 146097 * n400 + 36524 * c + 1461 * q + 365 * a + yd"
    unfolding yd_def d3_def d2_def d1_def by simp
  have "yd = 365 \<longrightarrow> a = 3 \<and> (q \<noteq> 24 \<or> c = 3)"
  proof (intro impI)
    assume e: "yd = 365"
    with ydb have a3: "a = 3" using a by arith
    have "d3 = 1460" using e a3 yd_def by simp
    then have "q = 24 \<longrightarrow> d2 = 36524" unfolding d3_def by arith
    with d2 have "q = 24 \<longrightarrow> c = 3" using c by arith
    with a3 show "a = 3 \<and> (q \<noteq> 24 \<or> c = 3)" by blast
  qed
  with that y dsum c q a ydb show thesis by blast
qed

lemma absYear_correct:
  assumes "absYear d = (y, yd)"
  shows "daysSinceEpoch y + yd = d" and "0 \<le> yd" and "yd < (if isLeap y then 366 else 365)"
proof -
  obtain n400 c q a yd' where
    y: "absYear d = (400 * n400 + 100 * c + 4 * q + a + 1, yd')" and
    d: "d = 146097 * n400 + 36524 * c + 1461 * q + 365 * a + yd'" and
    b: "0 \<le> c" "c \<le> 3" "0 \<le> q" "q \<le> 24" "0 \<le> a" "a \<le> 3" and
    yd: "0 \<le> yd'" "yd' \<le> 365" "yd' = 365 \<longrightarrow> a = 3 \<and> (q \<noteq> 24 \<or> c = 3)"
    by (rule absYear_cycles)
  from y assms have e: "y = 400 * n400 + 100 * c + 4 * q + a + 1" "yd = yd'" by simp_all
  show "daysSinceEpoch y + yd = d" unfolding e daysSinceEpoch_cycles[OF b] using d by simp
  show "0 \<le> yd" unfolding e by (rule yd)
  show "yd < (if isLeap y then 366 else 365)"
    unfolding e isLeap_cycles[OF b] using yd by auto
qed

lemma daysBefore_nth:
  "daysBefore ! 0 = 0" "daysBefore ! 1 = 31" "daysBefore ! 2 = 59" "daysBefore ! 3 = 90"
  "daysBefore ! 4 = 120" "daysBefore ! 5 = 151" "daysBefore ! 6 = 181" "daysBefore ! 7 = 212"
  "daysBefore ! 8 = 243" "daysBefore ! 9 = 273" "daysBefore ! 10 = 304" "daysBefore ! 11 = 334"
  "daysBefore ! 12 = 365" "daysBefore ! Suc 0 = 31"
  by (simp_all add: daysBefore_def)

lemma monthDay_month:
  assumes "0 \<le> day" "day \<le> 364" "day div 31 = k" 
    "(m, dd) = (if day \<ge> daysBefore ! nat (k + 1) then (k + 2, day - daysBefore ! nat (k + 1) + 1) else (k + 1, day - daysBefore ! nat k + 1))"
  shows "1 \<le> m \<and> m \<le> 12 \<and> 1 \<le> dd \<and> dd \<le> daysBefore ! nat m - daysBefore ! nat (m - 1) \<and>
         daysBefore ! nat (m - 1) + (dd - 1) = day \<and> (m = 2 \<longrightarrow> dd \<le> 28) \<and>
         (m \<le> 2 \<longrightarrow> day < 59) \<and> (3 \<le> m \<longrightarrow> 59 \<le> day)"
proof -
  have "k = 0 \<or> k = 1 \<or> k = 2 \<or> k = 3 \<or> k = 4 \<or> k = 5 \<or> k = 6 \<or> k = 7 \<or> k = 8 \<or> k = 9 \<or> k = 10 \<or> k = 11"
    using assms(1-3) by arith
  then consider "k = 0" | "k = 1" | "k = 2" | "k = 3" | "k = 4" | "k = 5" | "k = 6" | "k = 7" | "k = 8" | "k = 9" | "k = 10" | "k = 11" by blast
  then show ?thesis
  proof cases
    case 1
    with assms have "0 \<le> day" "day < 31" by arith+
    with assms(4) 1 show ?thesis by (auto simp add: daysBefore_nth split: if_splits)
  next
    case 2
    with assms have "31 \<le> day" "day < 62" by arith+
    with assms(4) 2 show ?thesis by (auto simp add: daysBefore_nth split: if_splits)
  next
    case 3
    with assms have "62 \<le> day" "day < 93" by arith+
    with assms(4) 3 show ?thesis by (auto simp add: daysBefore_nth split: if_splits)
  next
    case 4
    with assms have "93 \<le> day" "day < 124" by arith+
    with assms(4) 4 show ?thesis by (auto simp add: daysBefore_nth split: if_splits)
  next
    case 5
    with assms have "124 \<le> day" "day < 155" by arith+
    with assms(4) 5 show ?thesis by (auto simp add: daysBefore_nth split: if_splits)
  next
    case 6
    with assms have "155 \<le> day" "day < 186" by arith+
    with assms(4) 6 show ?thesis by (auto simp add: daysBefore_nth split: if_splits)
  next
    case 7
    with assms have "186 \<le> day" "day < 217" by arith+
    with assms(4) 7 show ?thesis by (auto simp add: daysBefore_nth split: if_splits)
  next
    case 8
    with assms have "217 \<le> day" "day < 248" by arith+
    with assms(4) 8 show ?thesis by (auto simp add: daysBefore_nth split: if_splits)
  next
    case 9
    with assms have "248 \<le> day" "day < 279" by arith+
    with assms(4) 9 show ?thesis by (auto simp add: daysBefore_nth split: if_splits)
  next
    case 10
    with assms have "279 \<le> day" "day < 310" by arith+
    with assms(4) 10 show ?thesis by (auto simp add: daysBefore_nth split: if_splits)
  next
    case 11
    with assms have "310 \<le> day" "day < 341" by arith+
    with assms(4) 11 show ?thesis by (auto simp add: daysBefore_nth split: if_splits)
  next
    case 12
    with assms have "341 \<le> day" "day \<le> 364" by arith+
    with assms(4) 12 show ?thesis by (auto simp add: daysBefore_nth split: if_splits)
  qed
qed

lemma monthDay_correct:
  assumes "0 \<le> yd" "yd < (if leap then 366 else 365)" "monthDay leap yd = (m, dd)"
  shows "1 \<le> m \<and> m \<le> 12 \<and> 1 \<le> dd \<and>
     dd \<le> (if m = 2 \<and> leap then 29 else daysBefore ! nat m - daysBefore ! nat (m - 1)) \<and>
     daysBefore ! nat (m - 1) + (if leap \<and> m \<ge> 3 then 1 else 0) + (dd - 1) = yd"
proof (cases "leap \<and> yd = 59")
  case True
  with assms(3) have "m = 2" "dd = 29" by (simp_all add: monthDay_def)
  with True show ?thesis by (simp add: daysBefore_nth)
next
  case False
  define day where "day = (if leap \<and> yd > 59 then yd - 1 else yd)"
  have day: "0 \<le> day" "day \<le> 364" using assms(1,2) False unfolding day_def by (auto split: if_splits)
  have "monthDay leap yd = (if day \<ge> daysBefore ! nat (day div 31 + 1)
       then (day div 31 + 2, day - daysBefore ! nat (day div 31 + 1) + 1)
       else (day div 31 + 1, day - daysBefore ! nat (day div 31) + 1))"
    using False unfolding monthDay_def Let_def day_def by auto
  with assms(3) have md: "(m, dd) = (if day \<ge> daysBefore ! nat (day div 31 + 1)
       then (day div 31 + 2, day - daysBefore ! nat (day div 31 + 1) + 1)
       else (day div 31 + 1, day - daysBefore ! nat (day div 31) + 1))"
    by simp
  note r = monthDay_month[OF day refl md]
  show ?thesis
  proof (cases "leap \<and> yd > 59")
    case True
    then have "59 \<le> day" "yd = day + 1" unfolding day_def by simp_all
    with r True show ?thesis by auto
  next
    case f: False
    show ?thesis
    proof (cases leap)
      case True
      with f False have "yd < 59" "day = yd" unfolding day_def by simp_all
      with r True show ?thesis by auto
    next
      case False
      then have "day = yd" unfolding day_def by simp
      with r False show ?thesis by auto
    qed
  qed
qed

lemma absDate_correct:
  assumes "absDate a = (y, m, dd)"
  shows "1 \<le> m" "m \<le> 12" "1 \<le> dd" "dd \<le> daysIn m y"
    "daysSinceEpoch y + daysBefore ! nat (m - 1) + (if isLeap y \<and> m \<ge> 3 then 1 else 0)
       + (dd - 1) = a div 86400"
proof -
  obtain y' yd where ay: "absYear (a div 86400) = (y', yd)" by (cases "absYear (a div 86400)")
  obtain m' dd' where md: "monthDay (isLeap y') yd = (m', dd')"
    by (cases "monthDay (isLeap y') yd")
  from assms ay md have e: "y' = y" "m' = m" "dd' = dd" by (simp_all add: absDate_def)
  note yc = absYear_correct[OF ay, unfolded e]
  note mc = monthDay_correct[OF yc(2,3) md[unfolded e]]
  from mc show "1 \<le> m" "m \<le> 12" "1 \<le> dd" by simp_all
  from mc show "dd \<le> daysIn m y" by (simp add: daysIn_def)
  from mc yc(1) show "daysSinceEpoch y + daysBefore ! nat (m - 1) +
      (if isLeap y \<and> m \<ge> 3 then 1 else 0) + (dd - 1) = a div 86400" by simp
qed

lemma absClock_correct:
  assumes "absClock a = (h, mi, s)"
  shows "0 \<le> h" "h < 24" "0 \<le> mi" "mi < 60" "0 \<le> s" "s < 60"
    "h * 3600 + mi * 60 + s = a mod 86400"
proof -
  define s0 where "s0 = a mod 86400"
  have s0: "0 \<le> s0" "s0 < 86400" unfolding s0_def by simp_all
  have h: "h = s0 div 3600" and mi: "mi = (s0 - h * 3600) div 60" and s: "s = s0 - h * 3600 - mi * 60"
    using assms unfolding absClock_def Let_def s0_def by auto
  show "0 \<le> h" "h < 24" unfolding h using s0 by arith+
  have r: "0 \<le> s0 - h * 3600" "s0 - h * 3600 < 3600" unfolding h by arith+
  show "0 \<le> mi" "mi < 60" unfolding mi using r by arith+
  show "0 \<le> s" "s < 60" unfolding s mi by arith+
  show "h * 3600 + mi * 60 + s = a mod 86400" unfolding s s0_def by simp
qed

lemma Date_in_range:
  assumes "1 \<le> m" "m \<le> 12" "0 \<le> h" "h < 24" "0 \<le> mi" "mi < 60" "0 \<le> s" "s < 60"
    "0 \<le> n" "n < 1000000000"
  shows "Date y m dd h mi s n =
    \<lparr>sec = (daysSinceEpoch y + daysBefore ! nat (m - 1) + (if isLeap y \<and> m \<ge> 3 then 1 else 0)
             + (dd - 1)) * 86400 + h * 3600 + mi * 60 + s,
     nsec = n, zoneoffset = 0\<rparr>"
  using assms by (simp add: Date_def norm_def Let_def)

lemma Date_absDate:
  assumes "absDate a = (y, m, dd)" "absClock a = (h, mi, s)" "0 \<le> n" "n < 1000000000"
  shows "Date y m dd h mi s n = \<lparr>sec = a, nsec = n, zoneoffset = 0\<rparr>"
proof -
  note d = absDate_correct[OF assms(1)]
  note c = absClock_correct[OF assms(2)]
  have "a div 86400 * 86400 + a mod 86400 = a" by simp
  with c(7) have "a div 86400 * 86400 + h * 3600 + mi * 60 + s = a" by linarith
  then show ?thesis
    unfolding Date_in_range[OF d(1,2) c(1-6) assms(3,4)] d(5) by simp
qed

lemma digit_digitchar:
  assumes "0 \<le> k" "k \<le> 9"
  shows "digit (digitchar k)" "digitval (digitchar k) = k"
proof -
  have "(48 + nat k) mod 256 = 48 + nat k" using assms by simp
  then have e: "(of_char (digitchar k) :: nat) = 48 + nat k" by (simp add: digitchar_def)
  show "digit (digitchar k)" unfolding digit_def e using assms by simp
  show "digitval (digitchar k) = k" unfolding digitval_def e using assms by simp
qed

lemma digitchar_0: "digitchar 0 = CHR ''0''"
  unfolding digitchar_def by code_simp

lemma decimal_lt10: "n < 10 \<Longrightarrow> decimal n = [digitchar (int n)]"
  by (subst decimal.simps) (simp add: digitchar_def)

lemma decimal_ge10:
  "10 \<le> n \<Longrightarrow> decimal n = decimal (n div 10) @ [digitchar (int (n mod 10))]"
  by (subst decimal.simps) (simp add: digitchar_def)

lemma decimal_lt100:
  assumes "10 \<le> n" "n < 100"
  shows "decimal n = [digitchar (int (n div 10)), digitchar (int (n mod 10))]"
proof -
  have "n div 10 < 10" using assms by arith
  then show ?thesis using assms by (simp add: decimal_ge10 decimal_lt10)
qed

lemma decimal_lt1000:
  assumes "100 \<le> n" "n < 1000"
  shows "decimal n = [digitchar (int (n div 100)), digitchar (int (n div 10 mod 10)),
                      digitchar (int (n mod 10))]"
proof -
  have b: "10 \<le> n div 10" "n div 10 < 100" "10 \<le> n" using assms by arith+
  have "n div 10 div 10 = n div 100" by (simp add: div_mult2_eq [symmetric])
  then show ?thesis by (simp add: decimal_ge10 [OF b(3)] decimal_lt100 [OF b(1,2)])
qed

lemma decimal_lt10000:
  assumes "1000 \<le> n" "n < 10000"
  shows "decimal n = [digitchar (int (n div 1000)), digitchar (int (n div 100 mod 10)),
                      digitchar (int (n div 10 mod 10)), digitchar (int (n mod 10))]"
proof -
  have b: "100 \<le> n div 10" "n div 10 < 1000" "10 \<le> n" using assms by arith+
  have "n div 10 div 100 = n div 1000" "n div 10 div 10 = n div 100"
    by (simp_all add: div_mult2_eq [symmetric])
  then show ?thesis by (simp add: decimal_ge10 [OF b(3)] decimal_lt1000 [OF b(1,2)])
qed

lemma replicate_small:
  "replicate (Suc 0) c = [c]" "replicate 2 c = [c, c]" "replicate 3 c = [c, c, c]"
  by (simp_all add: numeral_eq_Suc)

lemma appendInt_nat:
  "appendInt (int n) w = replicate (w - length (decimal n)) (CHR ''0'') @ decimal n"
  by (simp add: appendInt_def Let_def)

lemma appendInt_2_nat:
  assumes "n < 100"
  shows "appendInt (int n) 2 = [digitchar (int (n div 10)), digitchar (int (n mod 10))]"
proof (cases "n < 10")
  case True
  then show ?thesis
    by (simp add: appendInt_nat decimal_lt10 digitchar_0 replicate_small)
next
  case False
  with assms show ?thesis
    by (simp add: appendInt_nat decimal_lt100)
qed

lemma appendInt_4_nat:
  assumes "n < 10000"
  shows "appendInt (int n) 4 = [digitchar (int (n div 1000)), digitchar (int (n div 100 mod 10)),
                          digitchar (int (n div 10 mod 10)), digitchar (int (n mod 10))]"
proof -
  consider "n < 10" | "10 \<le> n" "n < 100" | "100 \<le> n" "n < 1000" | "1000 \<le> n" by linarith
  then show ?thesis
  proof cases
    case 1
    then show ?thesis
      by (simp add: appendInt_nat decimal_lt10 digitchar_0 replicate_small)
  next
    case 2
    then have "n div 1000 = 0" "n div 100 = 0" "n div 10 mod 10 = n div 10" by simp_all
    then show ?thesis using 2
      by (simp add: appendInt_nat decimal_lt100 digitchar_0 replicate_small)
  next
    case 3
    then have "n div 1000 = 0" "n div 100 mod 10 = n div 100" by simp_all
    then show ?thesis using 3
      by (simp add: appendInt_nat decimal_lt1000 digitchar_0 replicate_small)
  next
    case 4
    with assms show ?thesis
      by (simp add: appendInt_nat decimal_lt10000)
  qed
qed

lemma appendInt_2:
  assumes "0 \<le> x" "x < 100"
  shows "appendInt x 2 = [digitchar (x div 10), digitchar (x mod 10)]"
proof -
  define n where "n = nat x"
  have x: "x = int n" and n: "n < 100" using assms by (simp_all add: n_def)
  show ?thesis unfolding x appendInt_2_nat [OF n] by (simp add: zdiv_int zmod_int)
qed

lemma appendInt_4:
  assumes "0 \<le> x" "x < 10000"
  shows "appendInt x 4 = [digitchar (x div 1000), digitchar (x div 100 mod 10),
                          digitchar (x div 10 mod 10), digitchar (x mod 10)]"
proof -
  define n where "n = nat x"
  have x: "x = int n" and n: "n < 10000" using assms by (simp_all add: n_def)
  show ?thesis unfolding x appendInt_4_nat [OF n] by (simp add: zdiv_int zmod_int)
qed

lemma mod10_bounds: "0 \<le> (y::int) mod 10" "(y::int) mod 10 \<le> 9"
  by simp_all

lemma leadingInt_digitchar:
  assumes "0 \<le> k" "k \<le> 9"
  shows "leadingInt a (digitchar k # s) = leadingInt (a * 10 + k) s"
  by (simp add: digit_digitchar [OF assms])

lemma list_all_digitchar:
  assumes "0 \<le> k" "k \<le> 9"
  shows "list_all digit (digitchar k # s) = list_all digit s"
  by (simp add: digit_digitchar [OF assms])

lemma parseUint_2chars:
  assumes "0 \<le> x" "x < 100"
  shows "parseUint [digitchar (x div 10), digitchar (x mod 10)] lo hi =
           (if x < lo \<or> hi < x then None else Some x)"
proof -
  have b: "0 \<le> x div 10" "x div 10 \<le> 9" using assms by arith+
  have v: "(0 * 10 + x div 10) * 10 + x mod 10 = x" by simp
  have l: "leadingInt 0 [digitchar (x div 10), digitchar (x mod 10)] = (x, [])"
    by (simp only: leadingInt_digitchar [OF b] leadingInt_digitchar [OF mod10_bounds]
        leadingInt.simps(1) v)
  have d: "list_all digit [digitchar (x div 10), digitchar (x mod 10)]"
    by (simp only: list_all_digitchar [OF b] list_all_digitchar [OF mod10_bounds]
        list.pred_inject(1))
  show ?thesis
    unfolding parseUint.simps l using d by (simp add: Let_def)
qed

lemma digits4_value:
  fixes x :: int
  shows "(((0 * 10 + x div 1000) * 10 + x div 100 mod 10) * 10 + x div 10 mod 10) * 10
           + x mod 10 = x"
proof -
  have 1: "x div 100 = x div 10 div 10" "x div 1000 = x div 10 div 10 div 10"
    by (simp_all add: div_mult2_eq [symmetric])
  have 2: "x div 10 div 10 div 10 * 10 + x div 10 div 10 mod 10 = x div 10 div 10" by simp
  have 3: "x div 10 div 10 * 10 + x div 10 mod 10 = x div 10" by simp
  show ?thesis unfolding 1 by (simp only: mult_zero_left add_0 2 3 div_mult_mod_eq)
qed

lemma parseUint_4chars:
  assumes "0 \<le> x" "x < 10000"
  shows "parseUint [digitchar (x div 1000), digitchar (x div 100 mod 10),
                    digitchar (x div 10 mod 10), digitchar (x mod 10)] lo hi =
           (if x < lo \<or> hi < x then None else Some x)"
proof -
  have b: "0 \<le> x div 1000" "x div 1000 \<le> 9" using assms by arith+
  have l: "leadingInt 0 [digitchar (x div 1000), digitchar (x div 100 mod 10),
                    digitchar (x div 10 mod 10), digitchar (x mod 10)] = (x, [])"
    by (simp only: leadingInt_digitchar [OF b] leadingInt_digitchar [OF mod10_bounds]
        leadingInt.simps(1) digits4_value)
  have d: "list_all digit [digitchar (x div 1000), digitchar (x div 100 mod 10),
                    digitchar (x div 10 mod 10), digitchar (x mod 10)]"
    by (simp only: list_all_digitchar [OF b] list_all_digitchar [OF mod10_bounds]
        list.pred_inject(1))
  show ?thesis
    unfolding parseUint.simps l using d by (simp add: Let_def)
qed

lemma civil_chars:
  assumes "0 \<le> y" "y < 10000" "0 \<le> m" "m < 100" "0 \<le> d" "d < 100"
    "0 \<le> h" "h < 100" "0 \<le> mi" "mi < 100" "0 \<le> s" "s < 100"
  shows "civil y m d h mi s =
    [digitchar (y div 1000), digitchar (y div 100 mod 10), digitchar (y div 10 mod 10),
     digitchar (y mod 10), CHR ''-'', digitchar (m div 10), digitchar (m mod 10), CHR ''-'',
     digitchar (d div 10), digitchar (d mod 10), CHR ''T'',
     digitchar (h div 10), digitchar (h mod 10), CHR '':'',
     digitchar (mi div 10), digitchar (mi mod 10), CHR '':'',
     digitchar (s div 10), digitchar (s mod 10)]"
  unfolding civil_def appendInt_4 [OF assms(1,2)] appendInt_2 [OF assms(3,4)]
    appendInt_2 [OF assms(5,6)] appendInt_2 [OF assms(7,8)] appendInt_2 [OF assms(9,10)]
    appendInt_2 [OF assms(11,12)]
  by simp

lemma parseRFC3339_Z:
  assumes "0 \<le> y" "y \<le> 9999" "1 \<le> m" "m \<le> 12" "1 \<le> d" "d \<le> daysIn m y"
    "0 \<le> h" "h \<le> 23" "0 \<le> mi" "mi \<le> 59" "0 \<le> s" "s \<le> 59" "d < 100"
  shows "parseRFC3339 (civil y m d h mi s @ ''Z'') = Some (Date y m d h mi s 0)"
proof -
  have r: "0 \<le> y" "y < 10000" "0 \<le> m" "m < 100" "0 \<le> d" "d < 100"
    "0 \<le> h" "h < 100" "0 \<le> mi" "mi < 100" "0 \<le> s" "s < 100"
    using assms by simp_all
  show ?thesis
    unfolding civil_chars [OF r] parseRFC3339_def
    using assms
    by (simp add: parseUint_4chars [OF r(1,2)] parseUint_2chars [OF r(3,4)]
        parseUint_2chars [OF r(5,6)] parseUint_2chars [OF r(7,8)] parseUint_2chars [OF r(9,10)]
        parseUint_2chars [OF r(11,12)] Let_def del: parseUint.simps)
qed

lemma digitchar_not_period:
  assumes "0 \<le> k" "k \<le> 9"
  shows "digitchar k \<noteq> CHR ''.''" "digitchar k \<noteq> CHR 0x22" "digitchar k \<noteq> CHR ''n''"
  using digit_digitchar(1) [OF assms] by (auto simp: digit_def)

lemma parseRFC3339_offset:
  assumes "0 \<le> y" "y \<le> 9999" "1 \<le> m" "m \<le> 12" "1 \<le> d" "d \<le> daysIn m y"
    "0 \<le> h" "h \<le> 23" "0 \<le> mi" "mi \<le> 59" "0 \<le> s" "s \<le> 59" "d < 100"
    "0 \<le> zh" "zh \<le> 23" "0 \<le> zm" "zm \<le> 59" "sg = CHR ''+'' \<or> sg = CHR ''-''"
  shows "parseRFC3339 (civil y m d h mi s @ [sg] @ appendInt zh 2 @ '':'' @ appendInt zm 2) =
     Some (addSec_setLoc (Date y m d h mi s 0)
             (if sg = CHR ''-'' then - ((zh * 60 + zm) * 60) else (zh * 60 + zm) * 60))"
proof -
  have r: "0 \<le> y" "y < 10000" "0 \<le> m" "m < 100" "0 \<le> d" "d < 100"
    "0 \<le> h" "h < 100" "0 \<le> mi" "mi < 100" "0 \<le> s" "s < 100"
    "0 \<le> zh" "zh < 100" "0 \<le> zm" "zm < 100"
    using assms by simp_all
  note pu = parseUint_4chars [OF r(1,2)] parseUint_2chars [OF r(3,4)]
        parseUint_2chars [OF r(5,6)] parseUint_2chars [OF r(7,8)] parseUint_2chars [OF r(9,10)]
        parseUint_2chars [OF r(11,12)] parseUint_2chars [OF r(13,14)]
        parseUint_2chars [OF r(15,16)]
  from assms(18) show ?thesis
  proof
    assume sg: "sg = CHR ''+''"
    show ?thesis
      unfolding civil_chars [OF r(1-12)] parseRFC3339_def appendInt_2 [OF r(13,14)]
        appendInt_2 [OF r(15,16)] sg
      using assms(1-17)
      by (simp add: pu Let_def del: parseUint.simps)
  next
    assume sg: "sg = CHR ''-''"
    show ?thesis
      unfolding civil_chars [OF r(1-12)] parseRFC3339_def appendInt_2 [OF r(13,14)]
        appendInt_2 [OF r(15,16)] sg
      using assms(1-17)
      by (simp add: pu Let_def del: parseUint.simps)
  qed
qed

lemma safe_escape_digit:
  assumes "digit c"
  shows "json_escape c = [c]"
proof -
  from assms have n: "48 \<le> (of_char c :: nat)" "(of_char c :: nat) \<le> 57" by (simp_all add: digit_def)
  have "c \<noteq> CHR 0x22" "c \<noteq> CHR 0x5C" "c \<noteq> CHR 0x08" "c \<noteq> CHR 0x0C" "c \<noteq> CHR 0x0A"
    "c \<noteq> CHR 0x0D" "c \<noteq> CHR 0x09" "c \<noteq> CHR ''<''" "c \<noteq> CHR ''>''" "c \<noteq> CHR ''&''"
    using n by auto
  then show ?thesis using n by (simp add: json_escape_def)
qed

lemma safe_escape_punct:
  "json_escape CHR ''-'' = ''-''" "json_escape CHR '':'' = '':''" "json_escape CHR ''T'' = ''T''"
  "json_escape CHR ''Z'' = ''Z''" "json_escape CHR ''+'' = ''+''"
  by (simp_all add: json_escape_def)

lemma Format_RFC3339_civil:
  assumes "absDate (sec t + zoneoffset t) = (y, m, d)" "absClock (sec t + zoneoffset t) = (h, mi, s)"
  shows "Format_RFC3339 t = civil y m d h mi s @ zoneText (zoneoffset t)"
  unfolding Format_RFC3339_def civil_def zoneText_def Let_def assms prod.case
  by simp

lemma quo_60: "quo (60 * k) 60 = k"
proof -
  have "- (60 * k) = 60 * (- k)" by simp
  then have "(- (60 * k)) div 60 = - k" by (simp only: nonzero_mult_div_cancel_left)
  then show ?thesis by (simp add: quo_def)
qed

lemma zoneText_minutes:
  assumes "0 < z" "z < 1440"
  shows "zoneText (60 * z) = ''+'' @ appendInt (z div 60) 2 @ '':'' @ appendInt (z mod 60) 2"
    "zoneText (60 * (- z)) = ''-'' @ appendInt (z div 60) 2 @ '':'' @ appendInt (z mod 60) 2"
  using assms unfolding zoneText_def quo_60 Let_def by simp_all

lemma zoneText_nonzero:
  assumes "off \<noteq> 0" "off mod 60 = 0" "\<bar>off\<bar> < 86400"
  obtains sg zh zm where "zoneText off = [sg] @ appendInt zh 2 @ '':'' @ appendInt zm 2"
    "0 \<le> zh" "zh \<le> 23" "0 \<le> zm" "zm \<le> 59" "sg = CHR ''+'' \<or> sg = CHR ''-''"
    "(if sg = CHR ''-'' then - ((zh * 60 + zm) * 60) else (zh * 60 + zm) * 60) = off"
proof -
  from assms(2) obtain k where k: "off = 60 * k" by (auto simp: mod_eq_0_iff_dvd)
  define z where "z = \<bar>k\<bar>"
  have z: "0 < z" "z < 1440" using assms(1,3) unfolding k z_def by simp_all
  have 2: "0 \<le> z div 60" "z div 60 \<le> 23" "0 \<le> z mod 60" "z mod 60 \<le> 59" using z by arith+
  have 3: "(z div 60 * 60 + z mod 60) * 60 = 60 * z" by simp
  show thesis
  proof (cases "k < 0")
    case True
    then have e: "off = 60 * (- z)" unfolding k z_def by simp
    have 1: "zoneText off = [CHR ''-''] @ appendInt (z div 60) 2 @ '':'' @ appendInt (z mod 60) 2"
      unfolding e zoneText_minutes(2) [OF z] by simp
    show thesis by (rule that [OF 1 2]) (simp_all add: 3 e)
  next
    case False
    then have e: "off = 60 * z" unfolding k z_def by simp
    have 1: "zoneText off = [CHR ''+''] @ appendInt (z div 60) 2 @ '':'' @ appendInt (z mod 60) 2"
      unfolding e zoneText_minutes(1) [OF z] by simp
    show thesis by (rule that [OF 1 2]) (simp_all add: 3 e)
  qed
qed

lemma daysIn_le_31:
  assumes "1 \<le> m" "m \<le> 12"
  shows "daysIn m y \<le> 31"
proof -
  from assms have "m = 1 \<or> m = 2 \<or> m = 3 \<or> m = 4 \<or> m = 5 \<or> m = 6 \<or> m = 7 \<or> m = 8 \<or>
    m = 9 \<or> m = 10 \<or> m = 11 \<or> m = 12" by arith
  then show ?thesis
    by (elim disjE) (simp_all add: daysIn_def daysBefore_nth)
qed

lemma plain_digit: "digit c \<Longrightarrow> plain c"
  unfolding plain_def using safe_escape_digit [of c] by (auto simp: digit_def)

lemma plain_digitchar: "0 \<le> k \<Longrightarrow> k \<le> 9 \<Longrightarrow> plain (digitchar k)"
  by (rule plain_digit) (rule digit_digitchar)

lemma plain_punct:
  "plain CHR ''-''" "plain CHR '':''" "plain CHR ''T''" "plain CHR ''Z''" "plain CHR ''+''"
  by (simp_all add: plain_def safe_escape_punct)

lemma plain_Marshal: "list_all plain s \<Longrightarrow> json_Marshal_string s = quoted s"
proof -
  assume "list_all plain s"
  then have "concat (map json_escape s) = s"
    by (induction s) (simp_all add: plain_def)
  then show ?thesis by (simp add: json_Marshal_string_def quoted_def)
qed

lemma plain_dropWhile:
  assumes "list_all plain s" "s \<noteq> []"
  shows "dropWhile (\<lambda>c. c \<in> set [CHR 0x22]) (s @ u) = s @ u"
  using assms by (cases s) (simp_all add: plain_def)

lemma plain_Trim:
  assumes "list_all plain s" "s \<noteq> []"
  shows "Trim (quoted s) [CHR 0x22] = s"
proof -
  have r: "list_all plain (rev s)" "rev s \<noteq> []" using assms by (simp_all add: list_all_iff)
  have "dropWhile (\<lambda>c. c \<in> set [CHR 0x22]) (quoted s) = s @ [CHR 0x22]"
    using plain_dropWhile [OF assms, of "[CHR 0x22]"] by (simp add: quoted_def)
  moreover have "dropWhile (\<lambda>c. c \<in> set [CHR 0x22]) (rev (s @ [CHR 0x22])) = rev s"
    using plain_dropWhile [OF r, of "[]"] by simp
  ultimately show ?thesis by (simp add: Trim_def)
qed

lemma plain_appendInt_2: "0 \<le> x \<Longrightarrow> x < 100 \<Longrightarrow> list_all plain (appendInt x 2)"
proof -
  assume a: "0 \<le> x" "x < 100"
  then have "0 \<le> x div 10" "x div 10 \<le> 9" by arith+
  then show ?thesis
    unfolding appendInt_2 [OF a] by (simp add: plain_digitchar mod10_bounds)
qed

lemma plain_appendInt_4: "0 \<le> x \<Longrightarrow> x < 10000 \<Longrightarrow> list_all plain (appendInt x 4)"
proof -
  assume a: "0 \<le> x" "x < 10000"
  then have "0 \<le> x div 1000" "x div 1000 \<le> 9" by arith+
  then show ?thesis
    unfolding appendInt_4 [OF a] by (simp add: plain_digitchar mod10_bounds)
qed

lemma length_appendInt_2: "0 \<le> x \<Longrightarrow> x < 100 \<Longrightarrow> length (appendInt x 2) = 2"
  by (simp add: appendInt_2)

lemma plain_civil:
  assumes "0 \<le> y" "y < 10000" "0 \<le> m" "m < 100" "0 \<le> d" "d < 100"
    "0 \<le> h" "h < 100" "0 \<le> mi" "mi < 100" "0 \<le> s" "s < 100"
  shows "list_all plain (civil y m d h mi s)" "length (civil y m d h mi s) = 19"
proof -
  show "list_all plain (civil y m d h mi s)"
    unfolding civil_def
    by (simp add: plain_appendInt_4 [OF assms(1,2)] plain_appendInt_2 [OF assms(3,4)]
        plain_appendInt_2 [OF assms(5,6)] plain_appendInt_2 [OF assms(7,8)]
        plain_appendInt_2 [OF assms(9,10)] plain_appendInt_2 [OF assms(11,12)] plain_punct)
  show "length (civil y m d h mi s) = 19"
    unfolding civil_chars [OF assms] by simp
qed

lemma plain_zoneText:
  assumes "off mod 60 = 0" "\<bar>off\<bar> < 86400"
  shows "list_all plain (zoneText off)"
proof (cases "off = 0")
  case True
  then show ?thesis by (simp add: zoneText_def plain_punct)
next
  case False
  obtain sg zh zm where
    z: "zoneText off = [sg] @ appendInt zh 2 @ '':'' @ appendInt zm 2" and
    b: "0 \<le> zh" "zh \<le> 23" "0 \<le> zm" "zm \<le> 59" and sg: "sg = CHR ''+'' \<or> sg = CHR ''-''" and
    v: "(if sg = CHR ''-'' then - ((zh * 60 + zm) * 60) else (zh * 60 + zm) * 60) = off"
    by (rule zoneText_nonzero [OF False assms])
  from b have "list_all plain (appendInt zh 2)" "list_all plain (appendInt zm 2)"
    by (simp_all add: plain_appendInt_2)
  moreover from sg have "plain sg" by (auto simp: plain_punct)
  ultimately show ?thesis unfolding z by (simp add: plain_punct)
qed

lemma Format_RFC3339_parse:
  assumes n: "nsec t = 0" and o: "zoneoffset t mod 60 = 0" "\<bar>zoneoffset t\<bar> < 86400"
    and y: "0 \<le> Year t" "Year t \<le> 9999"
  shows "parseRFC3339 (Format_RFC3339 t) = Some t" "list_all plain (Format_RFC3339 t)"
    "19 \<le> length (Format_RFC3339 t)"
proof -
  let ?a = "sec t + zoneoffset t"
  obtain yr m d where ad: "absDate ?a = (yr, m, d)" by (cases "absDate ?a")
  obtain h mi s where ac: "absClock ?a = (h, mi, s)" by (cases "absClock ?a")
  note dc = absDate_correct [OF ad]
  note cc = absClock_correct [OF ac]
  from y ad have yr: "0 \<le> yr" "yr \<le> 9999" by (simp_all add: Year_def)
  have d100: "d < 100" using dc(4) daysIn_le_31 [OF dc(1,2), of yr] by simp
  have hb: "h \<le> 23" "mi \<le> 59" "s \<le> 59" using cc by simp_all
  have F: "Format_RFC3339 t = civil yr m d h mi s @ zoneText (zoneoffset t)"
    by (rule Format_RFC3339_civil [OF ad ac])
  have D: "Date yr m d h mi s 0 = \<lparr>sec = ?a, nsec = 0, zoneoffset = 0\<rparr>"
    by (rule Date_absDate [OF ad ac]) simp_all
  have r: "0 \<le> yr" "yr < 10000" "0 \<le> m" "m < 100" "0 \<le> d" "d < 100"
    "0 \<le> h" "h < 100" "0 \<le> mi" "mi < 100" "0 \<le> s" "s < 100"
    using yr dc cc d100 by simp_all
  show "list_all plain (Format_RFC3339 t)"
    unfolding F using plain_civil(1) [OF r] plain_zoneText [OF o] by simp
  show "19 \<le> length (Format_RFC3339 t)"
    unfolding F using plain_civil(2) [OF r] by simp
  show "parseRFC3339 (Format_RFC3339 t) = Some t"
  proof (cases "zoneoffset t = 0")
    case True
    then have "Format_RFC3339 t = civil yr m d h mi s @ ''Z''" unfolding F by (simp add: zoneText_def)
    then have "parseRFC3339 (Format_RFC3339 t) = Some (Date yr m d h mi s 0)"
      using parseRFC3339_Z [OF yr dc(1,2,3,4) cc(1) hb(1) cc(3) hb(2) cc(5) hb(3) d100] by simp
    with D True n show ?thesis by simp
  next
    case False
    obtain sg zh zm where
      z: "zoneText (zoneoffset t) = [sg] @ appendInt zh 2 @ '':'' @ appendInt zm 2" and
      b: "0 \<le> zh" "zh \<le> 23" "0 \<le> zm" "zm \<le> 59" and sg: "sg = CHR ''+'' \<or> sg = CHR ''-''" and
      v: "(if sg = CHR ''-'' then - ((zh * 60 + zm) * 60) else (zh * 60 + zm) * 60) = zoneoffset t"
      by (rule zoneText_nonzero [OF False o])
    have "parseRFC3339 (Format_RFC3339 t) =
        Some (addSec_setLoc (Date yr m d h mi s 0) (zoneoffset t))"
      unfolding F z
      using parseRFC3339_offset [OF yr dc(1,2,3,4) cc(1) hb(1) cc(3) hb(2) cc(5) hb(3) d100 b sg]
      unfolding v .
    with D n show ?thesis by (simp add: addSec_setLoc_def)
  qed
qed

text \<open>
  C3, as amended. For every \<open>Time\<close> \<open>t\<close> with no fraction of a second, whose zone
  offset is a whole number of minutes and less than 24 hours either way, and whose year, in
  its location, is from 0 to 9999: \<open>UnmarshalJSON\<close> of \<open>MarshalJSON t\<close> returns no error
  and gives \<open>t\<close> back; a zero \<open>t\<close> is written as \<open>null\<close>, which leaves the receiver
  as it is, so that on a zero receiver the result is in every case the instant of \<open>t\<close>.
\<close>

theorem roundtrip_whole_seconds:
  assumes "nsec t = 0" and "zoneoffset t mod 60 = 0" and "\<bar>zoneoffset t\<bar> < 86400"
    and "0 \<le> Year t" and "Year t \<le> 9999"
  shows "UnmarshalJSON r (MarshalJSON t) = Inr (if IsZero t then r else t) \<and>
         (\<exists>u. UnmarshalJSON Time_zero (MarshalJSON t) = Inr u \<and> Equal u t)"
proof -
  note f = Format_RFC3339_parse [OF assms]
  have 1: "UnmarshalJSON r (MarshalJSON t) = Inr (if IsZero t then r else t)" for r
  proof (cases "IsZero t")
    case True
    then show ?thesis by (simp add: MarshalJSON_def UnmarshalJSON_def Trim_def)
  next
    case False
    have ne: "Format_RFC3339 t \<noteq> []" "Format_RFC3339 t \<noteq> ''null''"
    proof -
      show "Format_RFC3339 t \<noteq> []"
      proof
        assume "Format_RFC3339 t = []"
        with f(3) show False by simp
      qed
      show "Format_RFC3339 t \<noteq> ''null''"
      proof
        assume "Format_RFC3339 t = ''null''"
        with f(3) show False by simp
      qed
    qed
    have m: "MarshalJSON t = quoted (Format_RFC3339 t)"
      using False by (simp add: MarshalJSON_def plain_Marshal [OF f(2)])
    have p: "Parse RFC3339 (Format_RFC3339 t) = Inr t"
      by (simp add: Parse_def f(1))
    show ?thesis
      unfolding m UnmarshalJSON_def plain_Trim [OF f(2) ne(1)] Let_def
      using ne False by (simp add: p)
  qed
  have "Equal (if IsZero t then Time_zero else t) t"
    by (simp add: Equal_def IsZero_def Time_zero_def)
  with 1 [of Time_zero] 1 [of r] show ?thesis by simp
qed


lemma Year_example: "Year \<lparr>sec = 63904496251, nsec = 0, zoneoffset = 10800\<rparr> = 2026"
  by code_simp

lemma MarshalJSON_example:
  "MarshalJSON \<lparr>sec = 63904496251, nsec = 0, zoneoffset = 10800\<rparr> =
     quoted ''2026-01-20T11:57:31+03:00''"
  by code_simp

theorem roundtrip_whole_seconds_witness:
  "nsec \<lparr>sec = 63904496251, nsec = 0, zoneoffset = 10800\<rparr> = 0 \<and>
   Year \<lparr>sec = 63904496251, nsec = 0, zoneoffset = 10800\<rparr> = 2026 \<and>
   MarshalJSON \<lparr>sec = 63904496251, nsec = 0, zoneoffset = 10800\<rparr> =
     quoted ''2026-01-20T11:57:31+03:00'' \<and>
   UnmarshalJSON Time_zero (quoted ''2026-01-20T11:57:31+03:00'') =
     Inr \<lparr>sec = 63904496251, nsec = 0, zoneoffset = 10800\<rparr>"
proof -
  let ?t = "\<lparr>sec = 63904496251, nsec = 0, zoneoffset = 10800\<rparr>"
  have h: "nsec ?t = 0" "zoneoffset ?t mod 60 = 0" "\<bar>zoneoffset ?t\<bar> < 86400"
    "0 \<le> Year ?t" "Year ?t \<le> 9999"
    by (simp_all add: Year_example)
  have z: "\<not> IsZero ?t" by (simp add: IsZero_def)
  from roundtrip_whole_seconds [OF h, of Time_zero]
  have "UnmarshalJSON Time_zero (MarshalJSON ?t) = Inr (if IsZero ?t then Time_zero else ?t)"
    by (rule conjunct1)
  then have "UnmarshalJSON Time_zero (quoted ''2026-01-20T11:57:31+03:00'') = Inr ?t"
    unfolding MarshalJSON_example using z by (simp only: if_False)
  with Year_example MarshalJSON_example show ?thesis by simp
qed

text \<open>
  Where the round trip does not give the instant back: a fraction of a second is not written
  (half a second after 1970-01-01T00:00:01Z comes back as that second); the year 10000 is
  written with five digits, which no layout reads; the seconds of a zone offset are not
  written (an offset of 90 seconds comes back 30 seconds later); an offset of 25 hours is
  written and not read.
\<close>

lemma decimal_10000: "decimal 10000 = ''10000''"
proof -
  have z: "char_of (48 :: nat) = CHR ''0''" by code_simp
  have "decimal 1 = ''1''" by code_simp
  then have "decimal 10 = ''10''" by (subst decimal.simps) (simp add: z)
  then have "decimal 100 = ''100''" by (subst decimal.simps) (simp add: z)
  then have "decimal 1000 = ''1000''" by (subst decimal.simps) (simp add: z)
  then show "decimal 10000 = ''10000''" by (subst decimal.simps) (simp add: z)
qed
lemma Format_year_10000: "Format_RFC3339 \<lparr>sec = 315537897600, nsec = 0, zoneoffset = 0\<rparr> = ''10000-01-01T00:00:00Z''"
proof -
  have a: "absDate 315537897600 = (10000, 1, 1)" by code_simp
  have c: "absClock 315537897600 = (0, 0, 0)" by code_simp
  have y: "appendInt 10000 4 = ''10000''" by (simp add: appendInt_def decimal_10000)
  have m: "appendInt 1 2 = ''01''" "appendInt 0 2 = ''00''" by code_simp+
  show ?thesis by (simp add: Format_RFC3339_def a c y m)
qed
lemma MarshalJSON_year_10000: "MarshalJSON \<lparr>sec = 315537897600, nsec = 0, zoneoffset = 0\<rparr> = quoted ''10000-01-01T00:00:00Z''"
proof -
  have "json_Marshal_string ''10000-01-01T00:00:00Z'' = quoted ''10000-01-01T00:00:00Z''" by code_simp
  then show ?thesis by (simp add: MarshalJSON_def IsZero_def Format_year_10000)
qed

lemma fraction_lost:
  "UnmarshalJSON Time_zero (MarshalJSON \<lparr>sec = 62135596801, nsec = 500000000, zoneoffset = 0\<rparr>) =
     Inr \<lparr>sec = 62135596801, nsec = 0, zoneoffset = 0\<rparr>"
  by code_simp

lemma fraction_not_written:
  "MarshalJSON \<lparr>sec = 62135596801, nsec = 500000000, zoneoffset = 0\<rparr> =
     quoted ''1970-01-01T00:00:01Z''"
  by code_simp

lemma year_10000_refused:
  "UnmarshalJSON Time_zero (MarshalJSON \<lparr>sec = 315537897600, nsec = 0, zoneoffset = 0\<rparr>) =
     Inl (ParseError ''2006-01-02T15:04:05'' ''10000-01-01T00:00:00Z'')"
proof -
  have t: "Trim (quoted ''10000-01-01T00:00:00Z'') [CHR 0x22] = ''10000-01-01T00:00:00Z''"
    by (simp add: Trim_def quoted_def)
  have p: "Parse RFC3339 ''10000-01-01T00:00:00Z'' =
      Inl (ParseError RFC3339 ''10000-01-01T00:00:00Z'')"
    by code_simp
  have q: "Parse ''2006-01-02T15:04:05'' ''10000-01-01T00:00:00Z'' =
      Inl (ParseError ''2006-01-02T15:04:05'' ''10000-01-01T00:00:00Z'')"
    by code_simp
  show ?thesis
    unfolding MarshalJSON_year_10000 UnmarshalJSON_def t Let_def p q by simp
qed

lemma offset_seconds_lost:
  "UnmarshalJSON Time_zero (MarshalJSON \<lparr>sec = 62135596800, nsec = 0, zoneoffset = 90\<rparr>) =
     Inr \<lparr>sec = 62135596830, nsec = 0, zoneoffset = 60\<rparr>"
  by code_simp

lemma offset_25h_refused:
  "UnmarshalJSON Time_zero (MarshalJSON \<lparr>sec = 62135596800, nsec = 0, zoneoffset = 90000\<rparr>) =
     Inl (ParseError ''2006-01-02T15:04:05'' ''1970-01-02T01:00:00+25:00'')"
  by code_simp

theorem roundtrip_counterexample:
  "UnmarshalJSON Time_zero (MarshalJSON \<lparr>sec = 62135596801, nsec = 500000000, zoneoffset = 0\<rparr>) =
     Inr \<lparr>sec = 62135596801, nsec = 0, zoneoffset = 0\<rparr> \<and>
   \<not> Equal \<lparr>sec = 62135596801, nsec = 0, zoneoffset = 0\<rparr>
           \<lparr>sec = 62135596801, nsec = 500000000, zoneoffset = 0\<rparr> \<and>
   MarshalJSON \<lparr>sec = 62135596801, nsec = 500000000, zoneoffset = 0\<rparr> =
     quoted ''1970-01-01T00:00:01Z'' \<and>
   UnmarshalJSON Time_zero (MarshalJSON \<lparr>sec = 315537897600, nsec = 0, zoneoffset = 0\<rparr>) =
     Inl (ParseError ''2006-01-02T15:04:05'' ''10000-01-01T00:00:00Z'') \<and>
   UnmarshalJSON Time_zero (MarshalJSON \<lparr>sec = 62135596800, nsec = 0, zoneoffset = 90\<rparr>) =
     Inr \<lparr>sec = 62135596830, nsec = 0, zoneoffset = 60\<rparr> \<and>
   UnmarshalJSON Time_zero (MarshalJSON \<lparr>sec = 62135596800, nsec = 0, zoneoffset = 90000\<rparr>) =
     Inl (ParseError ''2006-01-02T15:04:05'' ''1970-01-02T01:00:00+25:00'')"
  using fraction_lost fraction_not_written year_10000_refused offset_seconds_lost
    offset_25h_refused
  by (simp only: simp_thms) (simp add: Equal_def)


subsection \<open>The fallback layout\<close>

lemma skip_one: "skip v [c] = Some v' \<longleftrightarrow> v = c # v'"
  by (cases v) auto

lemma isDigit_0: "isDigit (c # s) 0 = digit c" "isDigit [] 0 = False"
  by (simp_all add: isDigit_def)

lemma isDigit_1:
  "isDigit (c # d # s) 1 = digit d" "isDigit [c] 1 = False" "isDigit [] 1 = False"
  "isDigit (c # d # s) (Suc 0) = digit d" "isDigit [c] (Suc 0) = False"
  "isDigit [] (Suc 0) = False"
  by (simp_all add: isDigit_def)

lemma getnum_fixed:
  "getnum v True = Some (n, v') \<longleftrightarrow>
     (\<exists>a b. v = a # b # v' \<and> digit a \<and> digit b \<and> n = digitval a * 10 + digitval b)"
proof (cases v)
  case Nil
  then show ?thesis by (simp add: getnum_def isDigit_0)
next
  case (Cons a w)
  show ?thesis
  proof (cases w)
    case Nil
    with Cons show ?thesis by (simp add: getnum_def isDigit_0 isDigit_1)
  next
    case (Cons b u)
    with \<open>v = a # w\<close> show ?thesis by (auto simp: getnum_def isDigit_0 isDigit_1)
  qed
qed

lemma getnum_free:
  "getnum v False = Some (n, v') \<longleftrightarrow>
     (\<exists>a b. v = a # b # v' \<and> digit a \<and> digit b \<and> n = digitval a * 10 + digitval b) \<or>
     (\<exists>a. v = a # v' \<and> digit a \<and> \<not> isDigit v' 0 \<and> n = digitval a)"
proof (cases v)
  case Nil
  then show ?thesis by (simp add: getnum_def isDigit_0)
next
  case (Cons a w)
  show ?thesis
  proof (cases w)
    case Nil
    with Cons show ?thesis by (auto simp: getnum_def isDigit_0 isDigit_1)
  next
    case (Cons b u)
    with \<open>v = a # w\<close> show ?thesis by (auto simp: getnum_def isDigit_0 isDigit_1)
  qed
qed

lemma digit_bounds: "digit c \<Longrightarrow> 0 \<le> digitval c \<and> digitval c \<le> 9"
  by (auto simp: digit_def digitval_def)

lemma digit_not_sign: "digit c \<Longrightarrow> c \<noteq> CHR ''-'' \<and> c \<noteq> CHR ''+''"
  by (auto simp: digit_def)

lemma not_digit_colon: "\<not> digit CHR '':''"
  by (simp add: digit_def)

lemma length2: "length M = 2 \<longleftrightarrow> (\<exists>a b. M = [a, b])"
  by (auto simp: length_Suc_conv numeral_2_eq_2)

lemma length1: "length M = 1 \<longleftrightarrow> (\<exists>a. M = [a])"
  by (auto simp: length_Suc_conv)

lemma length4: "length M = 4 \<longleftrightarrow> (\<exists>a b c d. M = [a, b, c, d])"
  by (auto simp: length_Suc_conv numeral_eq_Suc)

lemma decval_2: "decval [a, b] = digitval a * 10 + digitval b"
  by (simp add: decval_def)

lemma decval_1: "decval [a] = digitval a"
  by (simp add: decval_def)

lemma leadingInt_foldl:
  "list_all digit s \<Longrightarrow> leadingInt x s = (foldl (\<lambda>a c. a * 10 + digitval c) x s, [])"
  by (induction s arbitrary: x) simp_all

lemma leadingInt_rest: "snd (leadingInt x s) = [] \<longleftrightarrow> list_all digit s"
  by (induction s arbitrary: x) simp_all

lemma foldl_digits_nonneg:
  "list_all digit s \<Longrightarrow> 0 \<le> x \<Longrightarrow> 0 \<le> foldl (\<lambda>a c. a * 10 + digitval c) x s"
proof (induction s arbitrary: x)
  case Nil
  then show ?case by simp
next
  case (Cons c s)
  from Cons.prems have "0 \<le> x * 10 + digitval c" using digit_bounds [of c] by simp
  with Cons show ?case by simp
qed

lemma atoi_digits:
  assumes "s \<noteq> []" "digit (hd s)"
  shows "atoi s = (if list_all digit s then Some (decval s) else None)"
proof -
  from assms digit_not_sign [of "hd s"] have h: "hd s \<noteq> CHR ''-''" "hd s \<noteq> CHR ''+''" by simp_all
  show ?thesis
  proof (cases "list_all digit s")
    case True
    with h show ?thesis by (simp add: atoi_def leadingInt_foldl decval_def)
  next
    case False
    then have "snd (leadingInt 0 s) \<noteq> []" by (simp add: leadingInt_rest)
    with h False show ?thesis by (cases "leadingInt 0 s") (auto simp: atoi_def)
  qed
qed

lemma decval_nonneg: "list_all digit s \<Longrightarrow> 0 \<le> decval s"
  by (simp add: decval_def foldl_digits_nonneg)

lemma std_year:
  "parse_std stdLongYear f v = Some (f', v') \<longleftrightarrow>
     (\<exists>Y. v = Y @ v' \<and> length Y = 4 \<and> list_all digit Y \<and> f' = f\<lparr>f_year := decval Y\<rparr>)"
proof
  assume a: "parse_std stdLongYear f v = Some (f', v')"
  then have l: "4 \<le> length v" and d: "isDigit v 0" by (auto split: if_splits)
  then have t: "take 4 v \<noteq> []" "digit (hd (take 4 v))" by (cases v; simp add: isDigit_0)+
  from a l d have "list_all digit (take 4 v)" "f' = f\<lparr>f_year := decval (take 4 v)\<rparr>" "v' = drop 4 v"
    by (auto simp: atoi_digits [OF t] split: if_splits)
  moreover from l have "length (take 4 v) = 4" "v = take 4 v @ drop 4 v" by simp_all
  ultimately show "\<exists>Y. v = Y @ v' \<and> length Y = 4 \<and> list_all digit Y \<and> f' = f\<lparr>f_year := decval Y\<rparr>"
    by metis
next
  assume "\<exists>Y. v = Y @ v' \<and> length Y = 4 \<and> list_all digit Y \<and> f' = f\<lparr>f_year := decval Y\<rparr>"
  then obtain Y where Y: "v = Y @ v'" "length Y = 4" "list_all digit Y" "f' = f\<lparr>f_year := decval Y\<rparr>"
    by blast
  from Y(2,3) have t: "Y \<noteq> []" "digit (hd Y)" by (cases Y; simp)+
  from Y(1,2) have "take 4 v = Y" "drop 4 v = v'" "4 \<le> length v" by simp_all
  moreover from t Y(1) have "isDigit v 0" by (cases Y) (simp_all add: isDigit_0)
  ultimately show "parse_std stdLongYear f v = Some (f', v')"
    using Y(3,4) by (simp add: atoi_digits [OF t])
qed

lemma getnum_fixed_cases:
  obtains (none) "getnum v True = None" "\<And>M v'. v = M @ v' \<Longrightarrow> length M = 2 \<Longrightarrow> \<not> list_all digit M"
  | (some) M v' where "v = M @ v'" "length M = 2" "list_all digit M"
      "getnum v True = Some (decval M, v')" "0 \<le> decval M"
proof (cases "getnum v True")
  case None
  have "\<not> list_all digit M" if "v = M @ v'" "length M = 2" for M v'
  proof
    assume "list_all digit M"
    with that obtain a b where "v = a # b # v'" "digit a" "digit b" by (auto simp: length2)
    then have "getnum v True = Some (digitval a * 10 + digitval b, v')"
      by (simp add: getnum_fixed)
    with None show False by simp
  qed
  with None show ?thesis by (rule none)
next
  case (Some r)
  obtain n v' where r: "r = (n, v')" by (cases r)
  from Some r obtain a b where v: "v = a # b # v'" "digit a" "digit b"
    "n = digitval a * 10 + digitval b" by (auto simp: getnum_fixed)
  have "v = [a, b] @ v'" "length [a, b] = 2" "list_all digit [a, b]"
    "getnum v True = Some (decval [a, b], v')" "0 \<le> decval [a, b]"
    using v Some r digit_bounds [of a] digit_bounds [of b] by (simp_all add: decval_2)
  then show ?thesis by (rule some)
qed

lemma std_month:
  "parse_std stdZeroMonth f v = Some (f', v') \<longleftrightarrow>
     (\<exists>M. v = M @ v' \<and> length M = 2 \<and> list_all digit M \<and> 1 \<le> decval M \<and> decval M \<le> 12 \<and>
          f' = f\<lparr>f_month := decval M\<rparr>)"
proof (cases v rule: getnum_fixed_cases)
  case none
  then show ?thesis by auto
next
  case (some M w)
  then show ?thesis by (auto simp: length2)
qed

lemma std_day:
  "parse_std stdZeroDay f v = Some (f', v') \<longleftrightarrow>
     (\<exists>M. v = M @ v' \<and> length M = 2 \<and> list_all digit M \<and> f' = f\<lparr>f_day := decval M\<rparr>)"
proof (cases v rule: getnum_fixed_cases)
  case none
  then show ?thesis by auto
next
  case (some M w)
  then show ?thesis by (auto simp: length2)
qed

lemma std_minute:
  "parse_std stdZeroMinute f v = Some (f', v') \<longleftrightarrow>
     (\<exists>M. v = M @ v' \<and> length M = 2 \<and> list_all digit M \<and> decval M \<le> 59 \<and>
          f' = f\<lparr>f_min := decval M\<rparr>)"
proof (cases v rule: getnum_fixed_cases)
  case none
  then show ?thesis by auto
next
  case (some M w)
  then show ?thesis by (auto simp: length2)
qed

lemma getnum_free_form:
  assumes "v = H @ v'" "list_all digit H" "length H = 2 \<or> length H = 1 \<and> \<not> isDigit v' 0"
  shows "getnum v False = Some (decval H, v')"
  using assms(3)
proof
  assume "length H = 2"
  then obtain a b where "H = [a, b]" by (auto simp: length2)
  with assms(1,2) show ?thesis by (simp add: getnum_free decval_2)
next
  assume "length H = 1 \<and> \<not> isDigit v' 0"
  then obtain a where "H = [a]" "\<not> isDigit v' 0" by (auto simp: length_Suc_conv)
  with assms(1,2) show ?thesis by (simp add: getnum_free decval_1)
qed

lemma std_hour:
  "parse_std stdHour f v = Some (f', v') \<longleftrightarrow>
     (\<exists>H. v = H @ v' \<and> list_all digit H \<and> decval H \<le> 23 \<and> f' = f\<lparr>f_hour := decval H\<rparr> \<and>
          (length H = 2 \<or> length H = 1 \<and> \<not> isDigit v' 0))"
proof (cases "getnum v False")
  case None
  have "\<not> (list_all digit H \<and> (length H = 2 \<or> length H = 1 \<and> \<not> isDigit v' 0))" if "v = H @ v'" for H
  proof
    assume "list_all digit H \<and> (length H = 2 \<or> length H = 1 \<and> \<not> isDigit v' 0)"
    with that have "getnum v False = Some (decval H, v')"
      by (intro getnum_free_form) simp_all
    with None show False by simp
  qed
  with None show ?thesis by auto
next
  case (Some r)
  obtain n w where r: "r = (n, w)" by (cases r)
  from Some r have "(\<exists>a b. v = a # b # w \<and> digit a \<and> digit b \<and> n = digitval a * 10 + digitval b) \<or>
     (\<exists>a. v = a # w \<and> digit a \<and> \<not> isDigit w 0 \<and> n = digitval a)"
    by (simp add: getnum_free)
  then obtain H where H: "v = H @ w" "list_all digit H" "n = decval H"
    "length H = 2 \<or> length H = 1 \<and> \<not> isDigit w 0"
  proof (elim disjE exE conjE)
    fix a b
    assume "v = a # b # w" "digit a" "digit b" "n = digitval a * 10 + digitval b"
    then have "v = [a, b] @ w" "list_all digit [a, b]" "n = decval [a, b]"
      "length [a, b] = 2 \<or> length [a, b] = 1 \<and> \<not> isDigit w 0"
      by (simp_all add: decval_2)
    then show thesis by (rule that)
  next
    fix a
    assume "v = a # w" "digit a" "\<not> isDigit w 0" "n = digitval a"
    then have "v = [a] @ w" "list_all digit [a]" "n = decval [a]"
      "length [a] = 2 \<or> length [a] = 1 \<and> \<not> isDigit w 0"
      by (simp_all add: decval_1)
    then show thesis by (rule that)
  qed
  have n0: "0 \<le> n" using H(2,3) by (simp add: decval_nonneg)
  have uniq: "H' = H \<and> v' = w"
    if "v = H' @ v'" "list_all digit H'" "length H' = 2 \<or> length H' = 1 \<and> \<not> isDigit v' 0" for H'
  proof -
    from that have "getnum v False = Some (decval H', v')"
      by (rule getnum_free_form)
    with Some r have "v' = w" by auto
    with that(1) H(1) show ?thesis by simp
  qed
  show ?thesis
  proof
    assume "parse_std stdHour f v = Some (f', v')"
    with Some r n0 have "n \<le> 23" "f' = f\<lparr>f_hour := n\<rparr>" "v' = w"
      by (auto split: if_splits)
    with H show "\<exists>H. v = H @ v' \<and> list_all digit H \<and> decval H \<le> 23 \<and> f' = f\<lparr>f_hour := decval H\<rparr> \<and>
          (length H = 2 \<or> length H = 1 \<and> \<not> isDigit v' 0)" by blast
  next
    assume "\<exists>H. v = H @ v' \<and> list_all digit H \<and> decval H \<le> 23 \<and> f' = f\<lparr>f_hour := decval H\<rparr> \<and>
          (length H = 2 \<or> length H = 1 \<and> \<not> isDigit v' 0)"
    then obtain H' where H': "v = H' @ v'" "list_all digit H'" "decval H' \<le> 23"
      "f' = f\<lparr>f_hour := decval H'\<rparr>" "length H' = 2 \<or> length H' = 1 \<and> \<not> isDigit v' 0"
      by blast
    from uniq [OF H'(1,2,5)] have "H' = H" "v' = w" by simp_all
    with H' H(3) Some r n0 show "parse_std stdHour f v = Some (f', v')" by simp
  qed
qed

lemma frac_start_Cons: "frac_start w \<longleftrightarrow> (\<exists>c d rest. w = c # d # rest \<and> commaOrPeriod c \<and> digit d)"
proof (cases w)
  case Nil
  then show ?thesis by (simp add: frac_start_def)
next
  case (Cons c u)
  then show ?thesis by (cases u) (simp_all add: frac_start_def isDigit_1)
qed

lemma fraction_form_Cons:
  "fraction_form (c # d # rest) \<longleftrightarrow> commaOrPeriod c \<and> digit d \<and> list_all digit rest"
  by (auto simp: fraction_form_def)

lemma fraction_form_start:
  assumes "fraction_form w" "w \<noteq> []"
  shows "frac_start w"
proof -
  from assms obtain c ds where w: "w = c # ds" "commaOrPeriod c" "ds \<noteq> []" "list_all digit ds"
    unfolding fraction_form_def by blast
  from w(3) obtain d rest where "ds = d # rest" by (cases ds) simp_all
  with w show ?thesis unfolding frac_start_Cons by simp
qed

lemma takeWhile_all: "list_all P xs \<Longrightarrow> takeWhile P xs = xs"
  by (induction xs) simp_all

lemma takeWhile_all_length:
  "length xs \<le> length (takeWhile P xs) \<longleftrightarrow> list_all P xs"
  by (induction xs) simp_all

lemma frac_drop:
  assumes "frac_start w"
  shows "drop (fracLength w) w = [] \<longleftrightarrow> fraction_form w"
proof -
  from assms obtain c d rest where w: "w = c # d # rest" "commaOrPeriod c" "digit d"
    unfolding frac_start_Cons by blast
  have "drop (fracLength w) w = drop (length (takeWhile digit rest)) rest"
    by (simp add: w fracLength_def)
  then have "drop (fracLength w) w = [] \<longleftrightarrow> list_all digit rest"
    by (simp add: takeWhile_all_length)
  with w show ?thesis by (simp add: fraction_form_Cons)
qed

lemma frac_nanos:
  assumes "fraction_form w" "w \<noteq> []"
  shows "parseNanoseconds w (fracLength w) = Some (fracval w)"
proof -
  from assms obtain c ds where w: "w = c # ds" "commaOrPeriod c" "ds \<noteq> []" "list_all digit ds"
    unfolding fraction_form_def by blast
  from w(3) obtain d rest where ds: "ds = d # rest" by (cases ds) simp_all
  from w(4) ds have "list_all digit rest" by simp
  then have "length rest \<le> length (takeWhile digit rest)" by (simp only: takeWhile_all_length)
  with length_takeWhile_le [of digit rest] have tw: "length (takeWhile digit rest) = length rest"
    by (rule antisym)
  have n: "fracLength w = Suc (length ds)" by (simp add: fracLength_def w(1) ds tw)
  define k where "k = (if Suc (length ds) > 10 then 10 else Suc (length ds))"
  have k: "k - 1 = min 9 (length ds)" "10 - k = 9 - min 9 (length ds)" unfolding k_def by auto
  have t: "take (k - 1) (drop 1 w) = take 9 ds" unfolding k w by (simp add: min_def)
  have l: "length (take 9 ds) = min 9 (length ds)" by (simp add: min.commute)
  have d9: "list_all digit (take 9 ds)" using w(4) by (auto simp: list_all_iff dest: in_set_takeD)
  have ne: "take 9 ds \<noteq> []" "digit (hd (take 9 ds))" using ds w(4) by simp_all
  have a: "atoi (take 9 ds) = Some (decval (take 9 ds))" using d9 by (simp add: atoi_digits [OF ne])
  have nn: "0 \<le> decval (take 9 ds)" by (rule decval_nonneg [OF d9])
  have "parseNanoseconds w (fracLength w) = Some (decval (take 9 ds) * 10 ^ (10 - k))"
    unfolding parseNanoseconds_def n Let_def k_def [symmetric] t a using w(1,2) nn by simp
  then show ?thesis unfolding k l [symmetric] by (simp add: fracval_def w)
qed

lemma parse_std_second:
  "parse_std stdZeroSecond f v =
     (case getnum v True of
        None \<Rightarrow> None
      | Some (second, v) \<Rightarrow>
          if second < 0 \<or> 60 \<le> second then None
          else if frac_start v then
            (let n = fracLength v
             in case parseNanoseconds v n of
                  None \<Rightarrow> None
                | Some nanos \<Rightarrow> Some (f\<lparr>f_sec := second, f_nsec := nanos\<rparr>, drop n v))
          else Some (f\<lparr>f_sec := second\<rparr>, v))"
  unfolding frac_start_def parse_std.simps by (rule refl)

lemma std_second_end:
  "parse_std stdZeroSecond f v = Some (f', []) \<longleftrightarrow>
     (\<exists>S F. v = S @ F \<and> length S = 2 \<and> list_all digit S \<and> decval S \<le> 59 \<and> fraction_form F \<and>
        f' = (if F = [] then f\<lparr>f_sec := decval S\<rparr>
              else f\<lparr>f_sec := decval S, f_nsec := fracval F\<rparr>))"
  (is "?L \<longleftrightarrow> ?R")
proof (cases v rule: getnum_fixed_cases)
  case none
  then show ?thesis by (auto simp: parse_std_second simp del: parse_std.simps)
next
  case (some S w)
  have uniq: "S' = S \<and> F = w" if "v = S' @ F" "length S' = 2" for S' F
    using that some(1,2) by (metis append_eq_append_conv)
  define r where "r = (if w = [] then f\<lparr>f_sec := decval S\<rparr>
              else f\<lparr>f_sec := decval S, f_nsec := fracval w\<rparr>)"
  have R: "?R \<longleftrightarrow> decval S \<le> 59 \<and> fraction_form w \<and> f' = r"
  proof
    assume ?R
    then obtain S' F where "v = S' @ F" "length S' = 2" "decval S' \<le> 59" "fraction_form F"
      "f' = (if F = [] then f\<lparr>f_sec := decval S'\<rparr>
              else f\<lparr>f_sec := decval S', f_nsec := fracval F\<rparr>)" by blast
    with uniq [of S' F] show "decval S \<le> 59 \<and> fraction_form w \<and> f' = r" by (simp add: r_def)
  next
    assume "decval S \<le> 59 \<and> fraction_form w \<and> f' = r"
    with some(1,2,3) show ?R unfolding r_def by blast
  qed
  have L: "?L \<longleftrightarrow> decval S \<le> 59 \<and> fraction_form w \<and> f' = r"
  proof (cases "decval S \<le> 59")
    case False
    with some(4) show ?thesis by (simp add: parse_std_second del: parse_std.simps)
  next
    case le: True
    show ?thesis
    proof (cases "frac_start w")
      case True
      then have ne: "w \<noteq> []" by (auto simp: frac_start_Cons)
      show ?thesis
      proof (cases "fraction_form w")
        case ff: True
        have "parse_std stdZeroSecond f v =
            Some (f\<lparr>f_sec := decval S, f_nsec := fracval w\<rparr>, [])"
          using some(4,5) le True frac_nanos [OF ff ne] frac_drop [OF True] ff
          by (simp add: parse_std_second Let_def del: parse_std.simps)
        with ff le ne show ?thesis by (auto simp: r_def)
      next
        case nf: False
        then have "drop (fracLength w) w \<noteq> []" using frac_drop [OF True] by simp
        then have "parse_std stdZeroSecond f v \<noteq> Some (f', [])"
          using some(4,5) le True
          by (simp add: parse_std_second Let_def del: parse_std.simps split: option.split)
        with nf show ?thesis by simp
      qed
    next
      case False
      then have e: "fraction_form w \<longleftrightarrow> w = []"
        using fraction_form_start [of w] by (auto simp: fraction_form_def)
      have "parse_std stdZeroSecond f v = Some (f\<lparr>f_sec := decval S\<rparr>, w)"
        using some(4,5) le False by (simp add: parse_std_second del: parse_std.simps)
      with e le show ?thesis by (auto simp: r_def)
    qed
  qed
  from L R show ?thesis by simp
qed

lemma year_fw:
  "length Y = 4 \<Longrightarrow> list_all digit Y \<Longrightarrow>
   parse_std stdLongYear f (Y @ w) = Some (f\<lparr>f_year := decval Y\<rparr>, w)"
  unfolding std_year by blast

lemma month_fw:
  "length M = 2 \<Longrightarrow> list_all digit M \<Longrightarrow> 1 \<le> decval M \<Longrightarrow> decval M \<le> 12 \<Longrightarrow>
   parse_std stdZeroMonth f (M @ w) = Some (f\<lparr>f_month := decval M\<rparr>, w)"
  unfolding std_month by blast

lemma day_fw:
  "length M = 2 \<Longrightarrow> list_all digit M \<Longrightarrow>
   parse_std stdZeroDay f (M @ w) = Some (f\<lparr>f_day := decval M\<rparr>, w)"
  unfolding std_day by blast

lemma hour_fw:
  "length H = 1 \<or> length H = 2 \<Longrightarrow> list_all digit H \<Longrightarrow> decval H \<le> 23 \<Longrightarrow>
   parse_std stdHour f (H @ CHR '':'' # w) = Some (f\<lparr>f_hour := decval H\<rparr>, CHR '':'' # w)"
  unfolding std_hour using not_digit_colon by (auto simp: isDigit_0)

lemma minute_fw:
  "length M = 2 \<Longrightarrow> list_all digit M \<Longrightarrow> decval M \<le> 59 \<Longrightarrow>
   parse_std stdZeroMinute f (M @ w) = Some (f\<lparr>f_min := decval M\<rparr>, w)"
  unfolding std_minute by blast

lemma second_fw:
  "length S = 2 \<Longrightarrow> list_all digit S \<Longrightarrow> decval S \<le> 59 \<Longrightarrow> fraction_form F \<Longrightarrow>
   parse_std stdZeroSecond f (S @ F) =
     Some (if F = [] then f\<lparr>f_sec := decval S\<rparr>
           else f\<lparr>f_sec := decval S, f_nsec := fracval F\<rparr>, [])"
  unfolding std_second_end by blast

lemma parse_loop_naive_fw:
  assumes "naive_fields v Y M D H MI S F"
  shows "parse_loop naive_chunks f v =
     Some (if F = []
           then f\<lparr>f_year := decval Y, f_month := decval M, f_day := decval D,
                  f_hour := decval H, f_min := decval MI, f_sec := decval S\<rparr>
           else f\<lparr>f_year := decval Y, f_month := decval M, f_day := decval D,
                  f_hour := decval H, f_min := decval MI, f_sec := decval S,
                  f_nsec := fracval F\<rparr>)"
proof -
  from assms have v: "v = Y @ ''-'' @ M @ ''-'' @ D @ ''T'' @ H @ '':'' @ MI @ '':'' @ S @ F"
    and l: "length Y = 4" "length M = 2" "length D = 2" "length H = 1 \<or> length H = 2"
      "length MI = 2" "length S = 2"
    and d: "list_all digit Y" "list_all digit M" "list_all digit D" "list_all digit H"
      "list_all digit MI" "list_all digit S"
    and r: "1 \<le> decval M" "decval M \<le> 12" "decval H \<le> 23" "decval MI \<le> 59" "decval S \<le> 59"
    and f: "fraction_form F"
    by (simp_all add: naive_fields_def)
  show ?thesis
    unfolding v naive_chunks_def
    by (simp add: year_fw [OF l(1) d(1)] month_fw [OF l(2) d(2) r(1,2)] day_fw [OF l(3) d(3)]
        hour_fw [OF l(4) d(4) r(3)] minute_fw [OF l(5) d(5) r(4)] second_fw [OF l(6) d(6) r(5) f]
        del: parse_std.simps)
qed

lemma parse_loop_step:
  "parse_loop ((p, std) # L) f v = Some r \<longleftrightarrow>
     (\<exists>v1 f1 v2. skip v p = Some v1 \<and> parse_std std f v1 = Some (f1, v2) \<and>
        parse_loop L f1 v2 = Some r)"
  by (auto simp del: parse_std.simps split: option.splits)

lemma parse_loop_naive_bw:
  assumes "parse_loop naive_chunks f v = Some r"
  obtains Y M D H MI S F where
    "v = Y @ ''-'' @ M @ ''-'' @ D @ ''T'' @ H @ '':'' @ MI @ '':'' @ S @ F"
    "length Y = 4" "length M = 2" "length D = 2" "length H = 1 \<or> length H = 2"
    "length MI = 2" "length S = 2"
    "list_all digit Y" "list_all digit M" "list_all digit D" "list_all digit H"
    "list_all digit MI" "list_all digit S"
    "1 \<le> decval M" "decval M \<le> 12" "decval H \<le> 23" "decval MI \<le> 59" "decval S \<le> 59"
    "fraction_form F"
    "f_year r = decval Y" "f_month r = decval M" "f_day r = decval D"
proof -
  from assms obtain f1 v1 where
    1: "parse_std stdLongYear f v = Some (f1, v1)" and
    r1: "parse_loop [(''-'', stdZeroMonth), (''-'', stdZeroDay), (''T'', stdHour),
      ('':'', stdZeroMinute), ('':'', stdZeroSecond)] f1 v1 = Some r"
    unfolding naive_chunks_def parse_loop_step by auto
  from 1 obtain Y where Y: "v = Y @ v1" "length Y = 4" "list_all digit Y"
    "f1 = f\<lparr>f_year := decval Y\<rparr>" unfolding std_year by blast
  from r1 obtain f2 v2 w2 where
    2: "v1 = CHR ''-'' # w2" "parse_std stdZeroMonth f1 w2 = Some (f2, v2)" and
    r2: "parse_loop [(''-'', stdZeroDay), (''T'', stdHour),
      ('':'', stdZeroMinute), ('':'', stdZeroSecond)] f2 v2 = Some r"
    unfolding parse_loop_step skip_one by auto
  from 2(2) obtain M where M: "w2 = M @ v2" "length M = 2" "list_all digit M"
    "1 \<le> decval M" "decval M \<le> 12" "f2 = f1\<lparr>f_month := decval M\<rparr>"
    unfolding std_month by blast
  from r2 obtain f3 v3 w3 where
    3: "v2 = CHR ''-'' # w3" "parse_std stdZeroDay f2 w3 = Some (f3, v3)" and
    r3: "parse_loop [(''T'', stdHour), ('':'', stdZeroMinute), ('':'', stdZeroSecond)] f3 v3
           = Some r"
    unfolding parse_loop_step skip_one by auto
  from 3(2) obtain D where D: "w3 = D @ v3" "length D = 2" "list_all digit D"
    "f3 = f2\<lparr>f_day := decval D\<rparr>"
    unfolding std_day by blast
  from r3 obtain f4 v4 w4 where
    4: "v3 = CHR ''T'' # w4" "parse_std stdHour f3 w4 = Some (f4, v4)" and
    r4: "parse_loop [('':'', stdZeroMinute), ('':'', stdZeroSecond)] f4 v4 = Some r"
    unfolding parse_loop_step skip_one by auto
  from 4(2) obtain H where H: "w4 = H @ v4" "list_all digit H" "decval H \<le> 23"
    "f4 = f3\<lparr>f_hour := decval H\<rparr>" "length H = 1 \<or> length H = 2"
    unfolding std_hour by blast
  from r4 obtain f5 v5 w5 where
    5: "v4 = CHR '':'' # w5" "parse_std stdZeroMinute f4 w5 = Some (f5, v5)" and
    r5: "parse_loop [('':'', stdZeroSecond)] f5 v5 = Some r"
    unfolding parse_loop_step skip_one by auto
  from 5(2) obtain MI where MI: "w5 = MI @ v5" "length MI = 2" "list_all digit MI"
    "decval MI \<le> 59" "f5 = f4\<lparr>f_min := decval MI\<rparr>"
    unfolding std_minute by blast
  from r5 obtain w6 where
    6: "v5 = CHR '':'' # w6" "parse_std stdZeroSecond f5 w6 = Some (r, [])"
    unfolding parse_loop_step skip_one by (auto split: if_splits)
  from 6(2) obtain S F where S: "w6 = S @ F" "length S = 2" "list_all digit S"
    "decval S \<le> 59" "fraction_form F"
    "r = (if F = [] then f5\<lparr>f_sec := decval S\<rparr>
          else f5\<lparr>f_sec := decval S, f_nsec := fracval F\<rparr>)"
    unfolding std_second_end by blast
  have v: "v = Y @ ''-'' @ M @ ''-'' @ D @ ''T'' @ H @ '':'' @ MI @ '':'' @ S @ F"
    unfolding Y(1) 2(1) M(1) 3(1) D(1) 4(1) H(1) 5(1) MI(1) 6(1) S(1) by simp
  have fr: "f_year r = decval Y" "f_month r = decval M" "f_day r = decval D"
    unfolding S(6) MI(5) H(4) D(4) M(6) Y(4) by simp_all
  from v Y(2) M(2) D(2) H(5) MI(2) S(2) Y(3) M(3) D(3) H(2) MI(3) S(3) M(4,5) H(3) MI(4) S(4,5) fr
  show thesis by (rule that)
qed

lemma stdChunks_naive: "stdChunks ''2006-01-02T15:04:05'' = naive_chunks"
  by (simp add: stdChunks_def naive_chunks_def)

lemma parse_naive_fw:
  assumes "naive_fields v Y M D H MI S F"
  shows "parse ''2006-01-02T15:04:05'' v =
     Some (Date (decval Y) (decval M) (decval D) (decval H) (decval MI) (decval S) (fracval F))"
proof -
  from assms have r: "1 \<le> decval M" "1 \<le> decval D" "decval D \<le> daysIn (decval M) (decval Y)"
    by (simp_all add: naive_fields_def)
  show ?thesis
    unfolding parse_def stdChunks_naive fields0_def [symmetric]
      parse_loop_naive_fw [OF assms]
    using r by (simp add: fields0_def fracval_def)
qed

lemma parse_naive_bw:
  assumes "parse ''2006-01-02T15:04:05'' v = Some p"
  shows "naive_form v"
proof -
  from assms obtain r where r: "parse_loop naive_chunks fields0 v = Some r"
    and c: "\<not> ((if f_day r < 0 then 1 else f_day r) < 1 \<or>
             (if f_day r < 0 then 1 else f_day r) >
               daysIn (if f_month r < 0 then 1 else f_month r) (f_year r))"
    unfolding parse_def stdChunks_naive fields0_def [symmetric]
    by (auto simp: Let_def split: option.splits if_splits)
  from r obtain Y M D H MI S F where
    f: "v = Y @ ''-'' @ M @ ''-'' @ D @ ''T'' @ H @ '':'' @ MI @ '':'' @ S @ F"
    "length Y = 4" "length M = 2" "length D = 2" "length H = 1 \<or> length H = 2"
    "length MI = 2" "length S = 2"
    "list_all digit Y" "list_all digit M" "list_all digit D" "list_all digit H"
    "list_all digit MI" "list_all digit S"
    "1 \<le> decval M" "decval M \<le> 12" "decval H \<le> 23" "decval MI \<le> 59" "decval S \<le> 59"
    "fraction_form F"
    and e: "f_year r = decval Y" "f_month r = decval M" "f_day r = decval D"
    by (rule parse_loop_naive_bw)
  have "0 \<le> decval D" by (rule decval_nonneg [OF f(10)])
  with c e f(14) have "1 \<le> decval D" "decval D \<le> daysIn (decval M) (decval Y)" by simp_all
  with f have "naive_fields v Y M D H MI S F" unfolding naive_fields_def by blast
  then show ?thesis unfolding naive_form_def by blast
qed

lemma Parse_naive:
  "Parse ''2006-01-02T15:04:05'' v =
     (case parse ''2006-01-02T15:04:05'' v of
        Some t \<Rightarrow> Inr t
      | None \<Rightarrow> Inl (ParseError ''2006-01-02T15:04:05'' v))"
  by (simp add: Parse_def RFC3339_def)

lemma Parse_naive_form: "(\<exists>p. Parse ''2006-01-02T15:04:05'' v = Inr p) = naive_form v"
proof
  assume "\<exists>p. Parse ''2006-01-02T15:04:05'' v = Inr p"
  then obtain p where "parse ''2006-01-02T15:04:05'' v = Some p"
    unfolding Parse_naive by (auto split: option.splits)
  then show "naive_form v" by (rule parse_naive_bw)
next
  assume "naive_form v"
  then obtain Y M D H MI S F where "naive_fields v Y M D H MI S F"
    unfolding naive_form_def by blast
  from parse_naive_fw [OF this] show "\<exists>p. Parse ''2006-01-02T15:04:05'' v = Inr p"
    unfolding Parse_naive by simp
qed

text \<open>
  C8, as amended. \<open>UnmarshalJSON\<close> cuts the double quotes off the text. When what is left
  is \<open>null\<close> or empty, nothing is parsed: there is no error and the receiver stays as it
  is. Otherwise the layout RFC3339 is tried first, and only when that fails does the result
  come from the fallback layout 2006-01-02T15:04:05. The fallback layout accepts exactly the
  texts of the form \<open>naive_form\<close>: year, month, day, hour, minute and second as in the
  pattern, with no offset, where the hour may have one digit and a fraction of a second may
  follow the seconds; it gives the instant of these fields in UTC. For a text, other than
  \<open>null\<close> and the empty one, that neither layout accepts the error is the \<open>ParseError\<close>
  of the fallback layout, with the text as cut.
\<close>

theorem fallback_layout:
  "(Trim data [CHR 0x22] = s \<and> s \<noteq> ''null'' \<and> s \<noteq> [] \<longrightarrow>
      UnmarshalJSON t data =
        (case Parse RFC3339 s of
           Inr parsed \<Rightarrow> Inr parsed
         | Inl e \<Rightarrow>
             if naive_form s then Parse ''2006-01-02T15:04:05'' s
             else Inl (ParseError ''2006-01-02T15:04:05'' s))) \<and>
   (\<exists>p. Parse ''2006-01-02T15:04:05'' v = Inr p) = naive_form v \<and>
   (naive_fields w Y M D H MI S F \<longrightarrow>
      Parse ''2006-01-02T15:04:05'' w =
        Inr (Date (decval Y) (decval M) (decval D) (decval H) (decval MI) (decval S)
               (fracval F))) \<and>
   (Trim d [CHR 0x22] = ''null'' \<or> Trim d [CHR 0x22] = [] \<longrightarrow> UnmarshalJSON r d = Inr r)"
proof (intro conjI impI)
  assume a: "Trim data [CHR 0x22] = s \<and> s \<noteq> ''null'' \<and> s \<noteq> []"
  have e: "Parse ''2006-01-02T15:04:05'' s = Inl (ParseError ''2006-01-02T15:04:05'' s)"
    if "\<not> naive_form s"
  proof (cases "parse ''2006-01-02T15:04:05'' s")
    case None
    then show ?thesis by (simp add: Parse_naive)
  next
    case (Some p)
    with that parse_naive_bw show ?thesis by blast
  qed
  show "UnmarshalJSON t data =
        (case Parse RFC3339 s of
           Inr parsed \<Rightarrow> Inr parsed
         | Inl e \<Rightarrow>
             if naive_form s then Parse ''2006-01-02T15:04:05'' s
             else Inl (ParseError ''2006-01-02T15:04:05'' s))"
  proof (cases "Parse RFC3339 s")
    case (Inr p)
    with a show ?thesis by (simp add: UnmarshalJSON_def)
  next
    case (Inl x)
    show ?thesis
    proof (cases "Parse ''2006-01-02T15:04:05'' s")
      case l: (Inl y)
      with Inl a e show ?thesis by (auto simp: UnmarshalJSON_def)
    next
      case r: (Inr p)
      then have "naive_form s" using Parse_naive_form [of s] by blast
      with r Inl a show ?thesis by (simp add: UnmarshalJSON_def)
    qed
  qed
next
  show "(\<exists>p. Parse ''2006-01-02T15:04:05'' v = Inr p) = naive_form v"
    by (rule Parse_naive_form)
next
  assume "naive_fields w Y M D H MI S F"
  from parse_naive_fw [OF this]
  show "Parse ''2006-01-02T15:04:05'' w =
        Inr (Date (decval Y) (decval M) (decval D) (decval H) (decval MI) (decval S)
               (fracval F))"
    by (simp add: Parse_naive)
next
  assume "Trim d [CHR 0x22] = ''null'' \<or> Trim d [CHR 0x22] = []"
  then show "UnmarshalJSON r d = Inr r" by (auto simp: UnmarshalJSON_def)
qed

lemma fraction_fields:
  "naive_fields ''2026-01-20T11:57:31.5'' ''2026'' ''01'' ''20'' ''11'' ''57'' ''31'' ''.5''"
proof -
  have d: "daysIn 1 2026 = 31" by code_simp
  show ?thesis
    by (simp add: naive_fields_def decval_def digit_def digitval_def fraction_form_def
        commaOrPeriod_def d)
qed

lemma fraction_value:
  "Date (decval ''2026'') (decval ''01'') (decval ''20'') (decval ''11'') (decval ''57'')
     (decval ''31'') (fracval ''.5'') = \<lparr>sec = 63904507051, nsec = 500000000, zoneoffset = 0\<rparr>"
  by code_simp

lemma Parse_RFC3339_fraction:
  "Parse RFC3339 ''2026-01-20T11:57:31.5'' = Inl (ParseError RFC3339 ''2026-01-20T11:57:31.5'')"
  by code_simp

lemma Parse_RFC3339_yesterday:
  "Parse RFC3339 ''yesterday'' = Inl (ParseError RFC3339 ''yesterday'')"
  by code_simp

lemma Parse_naive_yesterday:
  "Parse ''2006-01-02T15:04:05'' ''yesterday'' =
     Inl (ParseError ''2006-01-02T15:04:05'' ''yesterday'')"
  by code_simp

theorem fallback_layout_witness:
  "naive_fields ''2026-01-20T11:57:31.5'' ''2026'' ''01'' ''20'' ''11'' ''57'' ''31'' ''.5'' \<and>
   UnmarshalJSON Time_zero (quoted ''2026-01-20T11:57:31.5'') =
     Inr \<lparr>sec = 63904507051, nsec = 500000000, zoneoffset = 0\<rparr> \<and>
   \<not> naive_form ''yesterday'' \<and>
   UnmarshalJSON Time_zero (quoted ''yesterday'') =
     Inl (ParseError ''2006-01-02T15:04:05'' ''yesterday'') \<and>
   Trim (quoted ''null'') [CHR 0x22] = ''null'' \<and>
   UnmarshalJSON Time_zero (quoted ''null'') = Inr Time_zero \<and>
   Trim (quoted []) [CHR 0x22] = [] \<and>
   UnmarshalJSON Time_zero (quoted []) = Inr Time_zero"
proof -
  note f = fraction_fields
  have t1: "Trim (quoted ''2026-01-20T11:57:31.5'') [CHR 0x22] = ''2026-01-20T11:57:31.5'' \<and>
      ''2026-01-20T11:57:31.5'' \<noteq> ''null'' \<and> ''2026-01-20T11:57:31.5'' \<noteq> []"
    by (simp add: Trim_def quoted_def)
  have t2: "Trim (quoted ''yesterday'') [CHR 0x22] = ''yesterday'' \<and>
      ''yesterday'' \<noteq> ''null'' \<and> ''yesterday'' \<noteq> []"
    by (simp add: Trim_def quoted_def)
  have n1: "naive_form ''2026-01-20T11:57:31.5''" unfolding naive_form_def using f by blast
  have n2: "\<not> naive_form ''yesterday''"
    using fallback_layout [of _ _ _ "''yesterday''"] Parse_naive_yesterday by simp
  have p: "Parse ''2006-01-02T15:04:05'' ''2026-01-20T11:57:31.5'' =
      Inr \<lparr>sec = 63904507051, nsec = 500000000, zoneoffset = 0\<rparr>"
    using fallback_layout [of _ _ _ _ "''2026-01-20T11:57:31.5''" "''2026''" "''01''" "''20''"
        "''11''" "''57''" "''31''" "''.5''"] f
    unfolding fraction_value by blast
  have u1: "UnmarshalJSON Time_zero (quoted ''2026-01-20T11:57:31.5'') =
     Inr \<lparr>sec = 63904507051, nsec = 500000000, zoneoffset = 0\<rparr>"
    using fallback_layout [of "quoted ''2026-01-20T11:57:31.5''" "''2026-01-20T11:57:31.5''"
        Time_zero] t1 n1
    unfolding Parse_RFC3339_fraction p by simp
  have u2: "UnmarshalJSON Time_zero (quoted ''yesterday'') =
     Inl (ParseError ''2006-01-02T15:04:05'' ''yesterday'')"
    using fallback_layout [of "quoted ''yesterday''" "''yesterday''" Time_zero] t2 n2
    unfolding Parse_RFC3339_yesterday by simp
  have t3: "Trim (quoted ''null'') [CHR 0x22] = ''null''" by (simp add: Trim_def quoted_def)
  have t4: "Trim (quoted []) [CHR 0x22] = []" by (simp add: Trim_def quoted_def)
  have u3: "UnmarshalJSON Time_zero (quoted ''null'') = Inr Time_zero"
    using fallback_layout [where d = "quoted ''null''" and r = Time_zero] t3 by blast
  have u4: "UnmarshalJSON Time_zero (quoted []) = Inr Time_zero"
    using fallback_layout [where d = "quoted []" and r = Time_zero] t4 by blast
  from f u1 n2 u2 t3 u3 t4 u4 show ?thesis by simp
qed

text \<open>
  What the fallback layout accepts beyond the pattern: a fraction of a second, which the
  layout does not name, and an hour of one digit.
\<close>

lemma one_digit_hour:
  "UnmarshalJSON Time_zero (quoted ''2026-01-20T1:57:31'') =
     Inr \<lparr>sec = 63904471051, nsec = 0, zoneoffset = 0\<rparr>"
  by code_simp

lemma fraction_accepted:
  "UnmarshalJSON Time_zero (quoted ''2026-01-20T11:57:31.5'') =
     Inr \<lparr>sec = 63904507051, nsec = 500000000, zoneoffset = 0\<rparr>"
  by code_simp

theorem fallback_counterexample:
  "Parse RFC3339 ''2026-01-20T11:57:31.5'' = Inl (ParseError RFC3339 ''2026-01-20T11:57:31.5'') \<and>
   UnmarshalJSON Time_zero (quoted ''2026-01-20T11:57:31.5'') =
     Inr \<lparr>sec = 63904507051, nsec = 500000000, zoneoffset = 0\<rparr> \<and>
   UnmarshalJSON Time_zero (quoted ''2026-01-20T1:57:31'') =
     Inr \<lparr>sec = 63904471051, nsec = 0, zoneoffset = 0\<rparr>"
  using Parse_RFC3339_fraction fraction_accepted one_digit_hour by (simp only: simp_thms)

end
